theory Spec2Isabelle
  imports Main "HOL-Library.Word" "HOL-Library.Sublist"
begin

unbundle bit_operations_syntax

section \<open>Common data: machine integers, LLVM types\<close>

type_synonym byte = "8 word"
type_synonym u32 = "32 word"
type_synonym addr = nat

text \<open>
  The part of the LLVM type system that the two generators build and inspect.
  \<open>VectorTy e n\<close> is \<open>VectorType::get(e, n)\<close>, \<open>ArrayTy e n\<close> is \<open>ArrayType::get(e, n)\<close>,
  \<open>PointerTy e a\<close> is \<open>PointerType::get(e, a)\<close> with address space \<open>a\<close>.
\<close>

datatype llvm_type =
    VoidTy
  | IntegerTy nat
  | HalfTy
  | FloatTy
  | DoubleTy
  | VectorTy llvm_type nat
  | ArrayTy llvm_type nat
  | PointerTy llvm_type nat
  | StructTy "llvm_type list"

section \<open>FetchShader.cpp: the cache key of a fetch shader\<close>

text \<open>
  \<open>VertexFetchInfo\<close> as \<open>getString\<close> and \<open>generate\<close> read it: two \<open>unsigned\<close> fields and the
  type of the fetched value.
\<close>

record VertexFetchInfo =
  location :: u32
  component :: u32
  ty :: llvm_type

text \<open>
  A \<open>VsEntryRegInfo\<close> object: the fields the source file reads, and the bytes of the object
  that belong to no field. \<open>sizeof\<close> counts these padding bytes, and \<open>getString\<close> copies them
  with the rest of the object (line 64); no statement of the file reads or writes them
  otherwise, and the values of the fields do not determine them.
\<close>

record VsEntryRegInfo =
  callingConv :: u32
  sgprCount :: u32
  vgprCount :: u32
  vertexBufferTable :: u32
  baseVertex :: u32
  baseInstance :: u32
  vertexId :: u32
  instanceId :: u32
  wave32 :: bool
  padding :: "byte list"

text \<open>
  The pipeline state as the constructor uses it. \<open>findVertexInputDescription\<close> returns a
  pointer into the pipeline state or the null pointer (\<open>None\<close>); the pointee is read later,
  by \<open>getString\<close>, from the memory the pointer refers to. The type \<open>'d\<close> of the objects
  pointed to is opaque: the file never reads a field of a description, it copies the bytes
  of the object (line 69) and hands the pointer to \<open>fetchVertex\<close>.
\<close>

record 'd PipelineState =
  findVertexInputDescription :: "u32 \<Rightarrow> addr option"
  memory :: "addr \<Rightarrow> 'd"

record FetchShader =
  m_fetches :: "VertexFetchInfo list"
  m_vsEntryRegInfo :: VsEntryRegInfo
  m_fetchDescriptions :: "addr option list"
  m_shaderString :: "byte list"

text \<open>
  The constructor: copies the fetches and the register structure (the object as a whole)
  and looks up one description pointer per fetch.
\<close>

definition FetchShader_ctor ::
  "'d PipelineState \<Rightarrow> VertexFetchInfo list \<Rightarrow> VsEntryRegInfo \<Rightarrow> FetchShader" where
  "FetchShader_ctor pipelineState fetches vsEntryRegInfo =
     \<lparr> m_fetches = fetches,
       m_vsEntryRegInfo = vsEntryRegInfo,
       m_fetchDescriptions = map (\<lambda>fetch. findVertexInputDescription pipelineState (location fetch)) fetches,
       m_shaderString = [] \<rparr>"

text \<open>
  The \<open>sizeof(unsigned)\<close> bytes of an \<open>unsigned\<close> in memory, least significant byte first
  (the byte order of the hosts the driver runs on).
\<close>

definition bytesOfU32 :: "u32 \<Rightarrow> byte list" where
  "bytesOfU32 w = [ucast w, ucast (drop_bit 8 w), ucast (drop_bit 16 w), ucast (drop_bit 24 w)]"

definition bytesOfString :: "string \<Rightarrow> byte list" where
  "bytesOfString s = map of_char s"

text \<open>
  What the first loop of \<open>getString\<close> appends for one fetch. \<open>getTypeName\<close> is declared
  outside this file and is a parameter of the model.
\<close>

definition fetchInfoBytes :: "(llvm_type \<Rightarrow> string) \<Rightarrow> VertexFetchInfo \<Rightarrow> byte list" where
  "fetchInfoBytes getTypeName fetchInfo =
     bytesOfU32 (location fetchInfo) @ bytesOfU32 (component fetchInfo)
       @ bytesOfString (getTypeName (ty fetchInfo))"

text \<open>
  What the second loop appends for one description pointer: one zero byte for the null
  pointer, otherwise the \<open>sizeof(*description)\<close> bytes of the pointee. The object
  representation of the two structures (\<open>regBytes\<close>, \<open>descBytes\<close>: the bytes of an object,
  padding included) depends on declarations outside this file and is a parameter.
\<close>

definition descriptionBytes :: "('d \<Rightarrow> byte list) \<Rightarrow> (addr \<Rightarrow> 'd) \<Rightarrow> addr option \<Rightarrow> byte list" where
  "descriptionBytes descBytes mem description =
     (case description of None \<Rightarrow> [0] | Some p \<Rightarrow> descBytes (mem p))"

definition shaderStringOf ::
  "(llvm_type \<Rightarrow> string) \<Rightarrow> (VsEntryRegInfo \<Rightarrow> byte list) \<Rightarrow> ('d \<Rightarrow> byte list)
     \<Rightarrow> (addr \<Rightarrow> 'd) \<Rightarrow> FetchShader \<Rightarrow> byte list" where
  "shaderStringOf getTypeName regBytes descBytes mem this =
     concat (map (fetchInfoBytes getTypeName) (m_fetches this))
       @ regBytes (m_vsEntryRegInfo this)
       @ concat (map (descriptionBytes descBytes mem) (m_fetchDescriptions this))"

text \<open>
  \<open>getString\<close>: the string is built on the first call (while \<open>m_shaderString\<close> is empty) and
  kept in the object. The result is the returned string and the updated object.
\<close>

definition getString ::
  "(llvm_type \<Rightarrow> string) \<Rightarrow> (VsEntryRegInfo \<Rightarrow> byte list) \<Rightarrow> ('d \<Rightarrow> byte list)
     \<Rightarrow> (addr \<Rightarrow> 'd) \<Rightarrow> FetchShader \<Rightarrow> byte list \<times> FetchShader" where
  "getString getTypeName regBytes descBytes mem this =
     (if m_shaderString this = []
      then (let s = shaderStringOf getTypeName regBytes descBytes mem this
            in (s, this\<lparr>m_shaderString := s\<rparr>))
      else (m_shaderString this, this))"

text \<open>The string a freshly constructed fetch shader returns.\<close>

definition fetchShaderString ::
  "(llvm_type \<Rightarrow> string) \<Rightarrow> (VsEntryRegInfo \<Rightarrow> byte list) \<Rightarrow> ('d \<Rightarrow> byte list)
     \<Rightarrow> 'd PipelineState \<Rightarrow> VertexFetchInfo list \<Rightarrow> VsEntryRegInfo \<Rightarrow> byte list" where
  "fetchShaderString getTypeName regBytes descBytes pipelineState fetches vsEntryRegInfo =
     fst (getString getTypeName regBytes descBytes (memory pipelineState)
            (FetchShader_ctor pipelineState fetches vsEntryRegInfo))"

text \<open>Two register structures with the same value in every field.\<close>

definition sameFields :: "VsEntryRegInfo \<Rightarrow> VsEntryRegInfo \<Rightarrow> bool" where
  "sameFields a b \<longleftrightarrow>
     callingConv a = callingConv b \<and> sgprCount a = sgprCount b \<and> vgprCount a = vgprCount b
     \<and> vertexBufferTable a = vertexBufferTable b \<and> baseVertex a = baseVertex b
     \<and> baseInstance a = baseInstance b \<and> vertexId a = vertexId b
     \<and> instanceId a = instanceId b \<and> wave32 a = wave32 b"

text \<open>
  Type names that tell the types of two fetch lists apart inside a concatenation: where a
  fetch of one list and a fetch of the other have different types, neither type name is
  the beginning of the other (in particular the two names differ).
\<close>

definition distinguishableNames ::
  "(llvm_type \<Rightarrow> string) \<Rightarrow> VertexFetchInfo list \<Rightarrow> VertexFetchInfo list \<Rightarrow> bool" where
  "distinguishableNames getTypeName fsA fsB \<longleftrightarrow>
     (\<forall>a \<in> set fsA. \<forall>b \<in> set fsB. ty a \<noteq> ty b \<longrightarrow>
        \<not> prefix (getTypeName (ty a)) (getTypeName (ty b)) \<and>
        \<not> prefix (getTypeName (ty b)) (getTypeName (ty a)))"

subsection \<open>A concrete instance of the parameters\<close>

text \<open>
  Modelled from the spec: the declarations of \<open>VsEntryRegInfo\<close> and
  \<open>VertexInputDescription\<close> and the function \<open>getTypeName\<close> are missing from the sources.
  The object representation below lays the fields out in the order in which the data model
  of the specification lists them (EntryRegisterInfo: calling convention, scalar and vector
  register counts, the five register slots, the wave width flag; VertexInputDescription:
  buffer binding, stride, offset, format), every integer field in four bytes, the flag in
  one byte followed by three padding bytes up to the alignment of the structure (the first
  three of the object's padding bytes, zero where the object has fewer). Type names
  are given for a few types only, in the usual mangling (element count of a vector, then
  \<open>i\<close> or \<open>f\<close> and the bit width).
\<close>

record VertexInputDescription =
  binding :: u32
  stride :: u32
  offset :: u32
  format :: u32

definition VsEntryRegInfo_bytes :: "VsEntryRegInfo \<Rightarrow> byte list" where
  "VsEntryRegInfo_bytes r =
     bytesOfU32 (callingConv r) @ bytesOfU32 (sgprCount r) @ bytesOfU32 (vgprCount r)
       @ bytesOfU32 (vertexBufferTable r) @ bytesOfU32 (baseVertex r) @ bytesOfU32 (baseInstance r)
       @ bytesOfU32 (vertexId r) @ bytesOfU32 (instanceId r)
       @ [if wave32 r then 1 else 0] @ take 3 (padding r @ [0, 0, 0])"

definition VertexInputDescription_bytes :: "VertexInputDescription \<Rightarrow> byte list" where
  "VertexInputDescription_bytes d =
     bytesOfU32 (binding d) @ bytesOfU32 (stride d) @ bytesOfU32 (offset d) @ bytesOfU32 (format d)"

fun sampleTypeName :: "llvm_type \<Rightarrow> string" where
  "sampleTypeName (IntegerTy n) = (if n = 8 then ''i8'' else if n = 16 then ''i16'' else ''i32'')"
| "sampleTypeName HalfTy = ''f16''"
| "sampleTypeName FloatTy = ''f32''"
| "sampleTypeName DoubleTy = ''f64''"
| "sampleTypeName (VectorTy FloatTy n) =
     (if n = 2 then ''v2f32'' else if n = 3 then ''v3f32'' else if n = 4 then ''v4f32'' else ''v16f32'')"
| "sampleTypeName t = ''V''"

text \<open>Two pipeline states holding the same description of location 0 at different addresses.\<close>

definition sampleDescription :: VertexInputDescription where
  "sampleDescription = \<lparr> binding = 0, stride = 16, offset = 0, format = 13 \<rparr>"

definition samplePipelineA :: "VertexInputDescription PipelineState" where
  "samplePipelineA =
     \<lparr> findVertexInputDescription = (\<lambda>loc. if loc = 0 then Some 100 else None),
       memory = (\<lambda>p. sampleDescription) \<rparr>"

definition samplePipelineB :: "VertexInputDescription PipelineState" where
  "samplePipelineB =
     \<lparr> findVertexInputDescription = (\<lambda>loc. if loc = 0 then Some 200 else None),
       memory = (\<lambda>p. if p = 200 then sampleDescription
                      else \<lparr> binding = 7, stride = 7, offset = 7, format = 7 \<rparr>) \<rparr>"

definition sampleFetches :: "VertexFetchInfo list" where
  "sampleFetches =
     [ \<lparr> location = 0, component = 0, ty = VectorTy FloatTy 4 \<rparr>,
       \<lparr> location = 1, component = 0, ty = FloatTy \<rparr> ]"

definition sampleFetchesOther :: "VertexFetchInfo list" where
  "sampleFetchesOther =
     [ \<lparr> location = 0, component = 0, ty = VectorTy FloatTy 4 \<rparr>,
       \<lparr> location = 1, component = 0, ty = VectorTy FloatTy 2 \<rparr>,
       \<lparr> location = 2, component = 0, ty = FloatTy \<rparr> ]"

definition sampleRegInfo :: VsEntryRegInfo where
  "sampleRegInfo =
     \<lparr> callingConv = 87, sgprCount = 4, vgprCount = 2, vertexBufferTable = 1, baseVertex = 2,
       baseInstance = 0, vertexId = 0, instanceId = 1, wave32 = True, padding = [0, 0, 0] \<rparr>"

text \<open>
  An object with the same fields whose padding bytes hold something else (here the
  pattern \<open>0xCC\<close> with which some compilers fill fresh stack memory).
\<close>

definition sampleRegInfoStale :: VsEntryRegInfo where
  "sampleRegInfoStale = sampleRegInfo\<lparr> padding := [0xCC, 0xCC, 0xCC] \<rparr>"

text \<open>
  Two inputs with the same string: a list of one fetch whose description is bound, and the
  list extended by a second fetch, with no description bound. The bytes of the second
  fetch record take the place of the first bytes of the register structure.
\<close>

definition collidingFetchesA :: "VertexFetchInfo list" where
  "collidingFetchesA = [ \<lparr> location = 0, component = 0, ty = VectorTy FloatTy 4 \<rparr> ]"

definition collidingFetchesB :: "VertexFetchInfo list" where
  "collidingFetchesB =
     [ \<lparr> location = 0, component = 0, ty = VectorTy FloatTy 4 \<rparr>,
       \<lparr> location = 1, component = 0, ty = VectorTy FloatTy 16 \<rparr> ]"

definition collidingRegInfoA :: VsEntryRegInfo where
  "collidingRegInfoA =
     \<lparr> callingConv = 1, sgprCount = 0, vgprCount = 0x66363176, vertexBufferTable = 0x00573233,
       baseVertex = 0x00040000, baseInstance = 0x00020000, vertexId = 0x00010000,
       instanceId = 0x00020000, wave32 = False, padding = [0, 0, 0] \<rparr>"

definition collidingPipelineA :: "VertexInputDescription PipelineState" where
  "collidingPipelineA =
     \<lparr> findVertexInputDescription = (\<lambda>loc. if loc = 0 then Some 100 else None),
       memory = (\<lambda>p. \<lparr> binding = 0, stride = 0x10000, offset = 0x10000, format = 0 \<rparr>) \<rparr>"

definition collidingPipelineB :: "VertexInputDescription PipelineState" where
  "collidingPipelineB =
     \<lparr> findVertexInputDescription = (\<lambda>loc. None),
       memory = (\<lambda>p. \<lparr> binding = 0, stride = 0, offset = 0, format = 0 \<rparr>) \<rparr>"

section \<open>The intermediate representation the generators emit\<close>

text \<open>
  Values are what \<open>llvm::Value*\<close> points to: arguments, constants and the results of
  instructions. An instruction is written with its opcode, result type, operands and
  metadata. Creating an instruction and inserting it into a block are two things in LLVM:
  the \<open>Create...\<close> methods of a builder do both, \<open>new ...Inst(v, ty)\<close> without an insertion
  point only creates. A block is therefore the list of the instructions inserted into it,
  and a value can refer to an instruction that is in no block.
\<close>

datatype BuiltInKind =
    BuiltInPosition | BuiltInPointSize | BuiltInClipDistance | BuiltInCullDistance
  | BuiltInPrimitiveId | BuiltInLayer | BuiltInViewIndex | BuiltInViewportIndex

datatype metadata = MetaNameUniform | MD_invariant_load

datatype intrinsic =
    amdgcn_ubfe | amdgcn_s_getpc | amdgcn_raw_buffer_load | amdgcn_init_exec_from_input

text \<open>
  The functions called by name. The name strings (\<open>lgcName::...\<close>) and the helpers that
  append type names to them (\<open>GetTypeName\<close>, \<open>AddTypeMangling\<close>, \<open>GetBuiltInName\<close>) are
  declared outside the two files, so a name is kept as its prefix together with the types
  (and the built-in) that are appended to it.
\<close>

datatype callee =
    NggGsOutputImport llvm_type
  | OutputExportXfb "llvm_type list"
  | OutputExportGeneric llvm_type
  | OutputExportBuiltIn BuiltInKind "llvm_type list"
  | SpecialUserData string
  | ShaderInput string
  | OtherFunction string

datatype opcode =
    AddOp | MulOp | BitCastOp | TruncOp | IntToPtrOp | GetElementPtrOp
  | LoadOp "nat option"
  | InsertElementOp | ExtractElementOp
  | InsertValueOp nat
  | CallOp callee
  | IntrinsicOp intrinsic

datatype fp_literal = FP_0_0 | FP_1_0

datatype llvm_value =
    Argument nat llvm_type
  | ConstantInt32 u32
  | ConstantInt64 "64 word"
  | ConstantFP llvm_type fp_literal
  | ConstantVector "llvm_value list"
  | UndefValue llvm_type
  | GlobalVariable string llvm_type
  | InstValue instruction
and instruction =
    Instruction (opcodeOf: opcode) (resultTy: llvm_type) (operands: "llvm_value list")
      (metadataOf: "metadata list")

fun typeOf :: "llvm_value \<Rightarrow> llvm_type" where
  "typeOf (Argument n t) = t"
| "typeOf (ConstantInt32 w) = IntegerTy 32"
| "typeOf (ConstantInt64 w) = IntegerTy 64"
| "typeOf (ConstantFP t c) = t"
| "typeOf (ConstantVector vs) = (case vs of [] \<Rightarrow> VoidTy | v # _ \<Rightarrow> VectorTy (typeOf v) (length vs))"
| "typeOf (UndefValue t) = t"
| "typeOf (GlobalVariable n t) = t"
| "typeOf (InstValue (Instruction opc t args md)) = t"

text \<open>A builder call that inserts one instruction and returns its result.\<close>

definition emit :: "opcode \<Rightarrow> llvm_type \<Rightarrow> llvm_value list \<Rightarrow> instruction list \<times> llvm_value" where
  "emit opc t args = ([Instruction opc t args []], InstValue (Instruction opc t args []))"

text \<open>
  \<open>CreateBitCast\<close> and \<open>CreateTrunc\<close> of the builder: nothing is inserted when the value
  already has the type, and a cast of \<open>undef\<close> is folded to \<open>undef\<close>.
\<close>

definition CreateCast :: "opcode \<Rightarrow> llvm_value \<Rightarrow> llvm_type \<Rightarrow> instruction list \<times> llvm_value" where
  "CreateCast opc v t =
     (if typeOf v = t then ([], v)
      else case v of UndefValue _ \<Rightarrow> ([], UndefValue t) | _ \<Rightarrow> emit opc t [v])"

datatype blockLabel = EntryBlock | StreamBlock u32 | EndBlock

datatype "terminator" =
    RetVoid
  | Ret llvm_value
  | Br blockLabel
  | Switch llvm_value blockLabel "(u32 \<times> blockLabel) list"

datatype error = AssertFailed | OutOfBounds | Unreachable

section \<open>FetchShader.cpp: generating the fetch shader\<close>

text \<open>
  What \<open>generate\<close> uses and the file does not define: the VGPR type of a fetched type
  (\<open>getVgprTy\<close>), the vertex fetch helper (\<open>VertexFetch::fetchVertex\<close>, which inserts
  instructions at the builder and returns the fetched value), the address extender
  (\<open>AddressExtender::extend\<close>, likewise), the enumerators that identify the five inputs,
  the name of the glue shader and the major version of the hardware generation.
\<close>

record 'd FetchDecls =
  getVgprTy :: "llvm_type \<Rightarrow> llvm_type"
  fetchVertex :: "llvm_type \<Rightarrow> 'd \<Rightarrow> u32 \<Rightarrow> u32 \<Rightarrow> instruction list \<times> llvm_value"
  extendAddress :: "llvm_value \<Rightarrow> llvm_value \<Rightarrow> llvm_type \<Rightarrow> instruction list \<times> llvm_value"
  UserDataMapping_VertexBufferTable :: u32
  UserDataMapping_BaseVertex :: u32
  UserDataMapping_BaseInstance :: u32
  ShaderInput_VertexId :: u32
  ShaderInput_InstanceId :: u32
  getGlueShaderName :: string
  gfxIpVersionMajor :: nat

text \<open>\<open>CallingConv::AMDGPU_GS\<close> and \<open>CallingConv::AMDGPU_HS\<close> of LLVM.\<close>

definition AMDGPU_GS :: u32 where
  "AMDGPU_GS = 88"

definition AMDGPU_HS :: u32 where
  "AMDGPU_HS = 93"

text \<open>
  The generated function: its signature and attributes, the instructions of its single
  block in order, and the operand of the final \<open>ret\<close>.
\<close>

record FetchFunction =
  funcName :: string
  paramTys :: "llvm_type list"
  retTy :: llvm_type
  funcCallingConv :: u32
  inRegParams :: "nat list"
  argNames :: "(nat \<times> string) list"
  targetFeatures :: "string option"
  blockInsts :: "instruction list"
  retOperand :: llvm_value

text \<open>
  The number of wave dispatch registers and the index of the struct field of fetch \<open>idx\<close>,
  both computed in \<open>unsigned\<close> arithmetic as in the source.
\<close>

definition entryRegCount :: "VsEntryRegInfo \<Rightarrow> nat" where
  "entryRegCount r = unat (sgprCount r + vgprCount r)"

definition structIdxOf :: "VsEntryRegInfo \<Rightarrow> nat \<Rightarrow> nat" where
  "structIdxOf r idx = unat (of_nat idx + sgprCount r + vgprCount r)"

text \<open>The types of the fields of the return struct (\<open>types\<close> in \<open>createFetchFunc\<close>).\<close>

definition fetchFuncTypes :: "'d FetchDecls \<Rightarrow> FetchShader \<Rightarrow> llvm_type list" where
  "fetchFuncTypes D this =
     replicate (unat (sgprCount (m_vsEntryRegInfo this))) (IntegerTy 32)
       @ replicate (unat (vgprCount (m_vsEntryRegInfo this))) FloatTy
       @ map (\<lambda>fetch. getVgprTy D (ty fetch)) (m_fetches this)"

text \<open>\<open>func->getArg(i)\<close>: there is no argument past the parameter list.\<close>

definition getArg :: "llvm_type list \<Rightarrow> nat \<Rightarrow> error + llvm_value" where
  "getArg entryTys i = (if i < length entryTys then Inr (Argument i (entryTys ! i)) else Inl OutOfBounds)"

text \<open>
  The loop that copies the wave dispatch registers to the return value (lines 209 to 211):
  the instructions inserted and the value of \<open>retVal\<close>, starting from the accumulator.
\<close>

fun copyInputs ::
  "llvm_type \<Rightarrow> llvm_type list \<Rightarrow> nat list \<Rightarrow> instruction list \<times> llvm_value
     \<Rightarrow> error + (instruction list \<times> llvm_value)" where
  "copyInputs structTy entryTys [] acc = Inr acc"
| "copyInputs structTy entryTys (i # rest) acc =
     (case getArg entryTys i of
        Inl e \<Rightarrow> Inl e
      | Inr arg \<Rightarrow>
          let (i1, retVal) = emit (InsertValueOp i) structTy [snd acc, arg]
          in copyInputs structTy entryTys rest (fst acc @ i1, retVal))"

definition createFetchFunc :: "'d FetchDecls \<Rightarrow> FetchShader \<Rightarrow> error + FetchFunction" where
  "createFetchFunc D this =
     (let r = m_vsEntryRegInfo this;
          types = fetchFuncTypes D this;
          structTy = StructTy types;
          entryTys = take (entryRegCount r) types;
          named = [(unat (vertexBufferTable r), ''VertexBufferTable''),
                   (unat (baseVertex r), ''BaseVertex''),
                   (unat (baseInstance r), ''BaseInstance''),
                   (unat (sgprCount r + vertexId r), ''VertexId''),
                   (unat (sgprCount r + instanceId r), ''InstanceId'')]
      in
      if \<not> list_all (\<lambda>i. i < length entryTys) ([0..<unat (sgprCount r)] @ map fst named)
      then Inl OutOfBounds
      else
        case (if callingConv r = AMDGPU_HS \<or> callingConv r = AMDGPU_GS
              then (case getArg entryTys 3 of
                      Inl e \<Rightarrow> Inl e
                    | Inr mergedWaveInfo \<Rightarrow>
                        Inr (fst (emit (IntrinsicOp amdgcn_init_exec_from_input) VoidTy
                                    [mergedWaveInfo, ConstantInt32 0])))
              else Inr []) of
          Inl e \<Rightarrow> Inl e
        | Inr initExec \<Rightarrow>
            (case copyInputs structTy entryTys [0..<entryRegCount r] (initExec, UndefValue structTy) of
               Inl e \<Rightarrow> Inl e
             | Inr (insts, retVal) \<Rightarrow>
                 Inr \<lparr> funcName = getGlueShaderName D,
                       paramTys = entryTys,
                       retTy = structTy,
                       funcCallingConv = callingConv r,
                       inRegParams = [0..<unat (sgprCount r)],
                       argNames = named,
                       targetFeatures =
                         (if gfxIpVersionMajor D \<ge> 10
                          then Some (if wave32 r then ''+wavefrontsize32'' else ''+wavefrontsize64'')
                          else None),
                       blockInsts = insts,
                       retOperand = retVal \<rparr>))"

text \<open>
  One iteration of the loop over the vertex inputs (lines 93 to 105), for the fetch with
  index \<open>idx\<close> and its description: the instructions inserted before the \<open>ret\<close> and the new
  value of \<open>result\<close>. The description is read from memory through its pointer.
\<close>

definition fetchInput ::
  "'d FetchDecls \<Rightarrow> (addr \<Rightarrow> 'd) \<Rightarrow> FetchShader \<Rightarrow> llvm_type list \<Rightarrow> llvm_value
     \<Rightarrow> nat \<times> VertexFetchInfo \<times> addr option \<Rightarrow> error + (instruction list \<times> llvm_value)" where
  "fetchInput D mem this types result x =
     (let idx = fst x; fetch = fst (snd x); description = snd (snd x);
          structIdx = structIdxOf (m_vsEntryRegInfo this) idx
      in case description of
           None \<Rightarrow> Inr ([], result)
         | Some p \<Rightarrow>
             let (i1, vertex) = fetchVertex D (ty fetch) (mem p) (location fetch) (component fetch)
             in if \<not> structIdx < length types then Inl AssertFailed
                else
                  let (i2, vertex) = CreateCast BitCastOp vertex (types ! structIdx);
                      (i3, result) = emit (InsertValueOp structIdx) (StructTy types) [result, vertex]
                  in Inr (i1 @ i2 @ i3, result))"

fun fetchInputs ::
  "'d FetchDecls \<Rightarrow> (addr \<Rightarrow> 'd) \<Rightarrow> FetchShader \<Rightarrow> llvm_type list
     \<Rightarrow> (nat \<times> VertexFetchInfo \<times> addr option) list \<Rightarrow> instruction list \<times> llvm_value
     \<Rightarrow> error + (instruction list \<times> llvm_value)" where
  "fetchInputs D mem this types [] acc = Inr acc"
| "fetchInputs D mem this types (x # xs) acc =
     (case fetchInput D mem this types (snd acc) x of
        Inl e \<Rightarrow> Inl e
      | Inr (insts, result) \<Rightarrow> fetchInputs D mem this types xs (fst acc @ insts, result))"

text \<open>
  Hooking up the inputs (lines 110 to 150). A placeholder is a call of a function whose name
  starts with \<open>lgcName::SpecialUserData\<close> or \<open>lgcName::ShaderInput\<close>. Its replacement is chosen
  by the constant in its first operand; the instructions that build the replacement are
  inserted at the start of the function.
\<close>

definition isPlaceholder :: "instruction \<Rightarrow> bool" where
  "isPlaceholder i =
     (case opcodeOf i of
        CallOp (SpecialUserData n) \<Rightarrow> True
      | CallOp (ShaderInput n) \<Rightarrow> True
      | _ \<Rightarrow> False)"

definition replacementOf ::
  "'d FetchDecls \<Rightarrow> VsEntryRegInfo \<Rightarrow> llvm_type list \<Rightarrow> instruction
     \<Rightarrow> error + (instruction list \<times> llvm_value)" where
  "replacementOf D r entryTys call =
     (case operands call of
        ConstantInt32 k # rest \<Rightarrow>
          if k = UserDataMapping_VertexBufferTable D then
            (case rest of
               [] \<Rightarrow> Inl OutOfBounds
             | highAddr # _ \<Rightarrow>
                 (case getArg entryTys (unat (vertexBufferTable r)) of
                    Inl e \<Rightarrow> Inl e
                  | Inr arg \<Rightarrow> Inr (extendAddress D arg highAddr (resultTy call))))
          else if k = UserDataMapping_BaseVertex D then
            (case getArg entryTys (unat (baseVertex r)) of
               Inl e \<Rightarrow> Inl e | Inr arg \<Rightarrow> Inr ([], arg))
          else if k = UserDataMapping_BaseInstance D then
            (case getArg entryTys (unat (baseInstance r)) of
               Inl e \<Rightarrow> Inl e | Inr arg \<Rightarrow> Inr ([], arg))
          else if k = ShaderInput_VertexId D then
            (case getArg entryTys (unat (sgprCount r + vertexId r)) of
               Inl e \<Rightarrow> Inl e | Inr arg \<Rightarrow> Inr (CreateCast BitCastOp arg (IntegerTy 32)))
          else if k = ShaderInput_InstanceId D then
            (case getArg entryTys (unat (sgprCount r + instanceId r)) of
               Inl e \<Rightarrow> Inl e | Inr arg \<Rightarrow> Inr (CreateCast BitCastOp arg (IntegerTy 32)))
          else Inl Unreachable
      | _ \<Rightarrow> Inl AssertFailed)"

text \<open>\<open>replaceAllUsesWith\<close> for every placeholder: the operands of a value or instruction.\<close>

fun resolveValue :: "(instruction \<Rightarrow> llvm_value option) \<Rightarrow> llvm_value \<Rightarrow> llvm_value"
  and resolveInst :: "(instruction \<Rightarrow> llvm_value option) \<Rightarrow> instruction \<Rightarrow> instruction" where
  "resolveValue \<sigma> (InstValue i) =
     (case \<sigma> i of Some replacement \<Rightarrow> replacement | None \<Rightarrow> InstValue (resolveInst \<sigma> i))"
| "resolveValue \<sigma> (ConstantVector vs) = ConstantVector (map (resolveValue \<sigma>) vs)"
| "resolveValue \<sigma> (Argument n t) = Argument n t"
| "resolveValue \<sigma> (ConstantInt32 w) = ConstantInt32 w"
| "resolveValue \<sigma> (ConstantInt64 w) = ConstantInt64 w"
| "resolveValue \<sigma> (ConstantFP t c) = ConstantFP t c"
| "resolveValue \<sigma> (UndefValue t) = UndefValue t"
| "resolveValue \<sigma> (GlobalVariable n t) = GlobalVariable n t"
| "resolveInst \<sigma> (Instruction opc t args md) = Instruction opc t (map (resolveValue \<sigma>) args) md"

definition placeholderReplacement ::
  "'d FetchDecls \<Rightarrow> VsEntryRegInfo \<Rightarrow> llvm_type list \<Rightarrow> instruction \<Rightarrow> llvm_value option" where
  "placeholderReplacement D r entryTys i =
     (if isPlaceholder i
      then (case replacementOf D r entryTys i of Inl e \<Rightarrow> None | Inr (insts, v) \<Rightarrow> Some v)
      else None)"

text \<open>
  The instructions inserted at the start of the function for the placeholders, in the order
  in which the calls are visited: each group is inserted before the groups of the calls
  visited earlier.
\<close>

fun replacementInsts ::
  "'d FetchDecls \<Rightarrow> VsEntryRegInfo \<Rightarrow> llvm_type list \<Rightarrow> instruction list
     \<Rightarrow> error + instruction list" where
  "replacementInsts D r entryTys [] = Inr []"
| "replacementInsts D r entryTys (call # calls) =
     (case replacementOf D r entryTys call of
        Inl e \<Rightarrow> Inl e
      | Inr (insts, v) \<Rightarrow>
          (case replacementInsts D r entryTys calls of
             Inl e \<Rightarrow> Inl e
           | Inr later \<Rightarrow> Inr (later @ insts)))"

text \<open>The fetches with their indices and description pointers, as the loop visits them.\<close>

definition indexedFetches :: "FetchShader \<Rightarrow> (nat \<times> VertexFetchInfo \<times> addr option) list" where
  "indexedFetches this =
     zip [0..<length (m_fetches this)] (zip (m_fetches this) (m_fetchDescriptions this))"

text \<open>
  The part of \<open>generate\<close> after the creation of the function (lines 87 to 150), with the
  list that the loop over the vertex inputs runs through as an argument. The calls of the
  placeholders are visited in the order in which they stand in the block (the order of the
  use lists is not fixed by the source).
\<close>

definition fetchAndHookUp ::
  "'d FetchDecls \<Rightarrow> (addr \<Rightarrow> 'd) \<Rightarrow> FetchShader \<Rightarrow> FetchFunction
     \<Rightarrow> (nat \<times> VertexFetchInfo \<times> addr option) list \<Rightarrow> error + FetchFunction" where
  "fetchAndHookUp D mem this fetchFunc xs =
     (case fetchInputs D mem this (fetchFuncTypes D this) xs
             (blockInsts fetchFunc, retOperand fetchFunc) of
        Inl e \<Rightarrow> Inl e
      | Inr (insts, result) \<Rightarrow>
          let r = m_vsEntryRegInfo this;
              \<sigma> = placeholderReplacement D r (paramTys fetchFunc)
          in case replacementInsts D r (paramTys fetchFunc) (filter isPlaceholder insts) of
               Inl e \<Rightarrow> Inl e
             | Inr inserted \<Rightarrow>
                 Inr (fetchFunc\<lparr> blockInsts := inserted
                                       @ map (resolveInst \<sigma>) (filter (\<lambda>i. \<not> isPlaceholder i) insts),
                                  retOperand := resolveValue \<sigma> result \<rparr>))"

definition generate ::
  "'d FetchDecls \<Rightarrow> (addr \<Rightarrow> 'd) \<Rightarrow> FetchShader \<Rightarrow> error + FetchFunction" where
  "generate D mem this =
     (case createFetchFunc D this of
        Inl e \<Rightarrow> Inl e
      | Inr fetchFunc \<Rightarrow>
          if length (m_fetchDescriptions this) \<noteq> length (m_fetches this) then Inl OutOfBounds
          else fetchAndHookUp D mem this fetchFunc (indexedFetches this))"

text \<open>
  The value in field \<open>j\<close> of a struct value that is built by \<open>insertvalue\<close> instructions from
  \<open>undef\<close>: the value of the last insertion into the field, or \<open>undef\<close> of the field's type.
\<close>

fun structField :: "llvm_value \<Rightarrow> nat \<Rightarrow> llvm_value option" where
  "structField (InstValue (Instruction (InsertValueOp i) t [agg, v] md)) j =
     (if i = j then Some v else structField agg j)"
| "structField (UndefValue (StructTy tys)) j =
     (if j < length tys then Some (UndefValue (tys ! j)) else None)"
| "structField v j = None"

text \<open>The fields that the \<open>insertvalue\<close> instructions of such a value write, last first.\<close>

fun insertChain :: "llvm_value \<Rightarrow> nat list" where
  "insertChain (InstValue (Instruction (InsertValueOp i) t [agg, v] md)) = i # insertChain agg"
| "insertChain v = []"

text \<open>
  The value that the loop inserts for a fetch whose description is at \<open>p\<close>: the fetched
  vertex, cast to the VGPR type of the fetch.
\<close>

definition fetchedValue ::
  "'d FetchDecls \<Rightarrow> (addr \<Rightarrow> 'd) \<Rightarrow> VertexFetchInfo \<Rightarrow> addr \<Rightarrow> llvm_value" where
  "fetchedValue D mem fetch p =
     snd (CreateCast BitCastOp
            (snd (fetchVertex D (ty fetch) (mem p) (location fetch) (component fetch)))
            (getVgprTy D (ty fetch)))"

text \<open>The fetch has a description.\<close>

definition isBound :: "nat \<times> VertexFetchInfo \<times> addr option \<Rightarrow> bool" where
  "isBound x = (snd (snd x) \<noteq> None)"

subsection \<open>A concrete fetch shader\<close>

text \<open>
  An instance of the declarations that \<open>generate\<close> uses from outside the file. The vertex
  fetch asks for the vertex buffer table and the vertex index through placeholder calls and
  loads the input with one buffer load; the address extender combines the two halves of the
  address with one instruction; integer inputs are returned in \<open>float\<close> registers. The
  numbers of the user data and shader input kinds are arbitrary distinct values.
\<close>

definition sampleFetchVertex ::
  "llvm_type \<Rightarrow> VertexInputDescription \<Rightarrow> u32 \<Rightarrow> u32 \<Rightarrow> instruction list \<times> llvm_value" where
  "sampleFetchVertex inputTy description loc compIdx =
     (let table = Instruction (CallOp (SpecialUserData ''.VertexBufferTable'')) (PointerTy (IntegerTy 8) 4)
                    [ConstantInt32 15, ConstantInt32 0xFFFF] [];
          vertexIndex = Instruction (CallOp (ShaderInput ''.VertexId'')) (IntegerTy 32)
                    [ConstantInt32 20] [];
          load = Instruction (IntrinsicOp amdgcn_raw_buffer_load) inputTy
                    [InstValue table, InstValue vertexIndex, ConstantInt32 (binding description),
                     ConstantInt32 (offset description), ConstantInt32 compIdx] []
      in ([table, vertexIndex, load], InstValue load))"

definition sampleFetchDecls :: "VertexInputDescription FetchDecls" where
  "sampleFetchDecls =
     \<lparr> getVgprTy = (\<lambda>t. if t = IntegerTy 32 then FloatTy else t),
       fetchVertex = sampleFetchVertex,
       extendAddress = (\<lambda>lowAddr highAddr ptrTy. emit IntToPtrOp ptrTy [lowAddr, highAddr]),
       UserDataMapping_VertexBufferTable = 15,
       UserDataMapping_BaseVertex = 3,
       UserDataMapping_BaseInstance = 4,
       ShaderInput_VertexId = 20,
       ShaderInput_InstanceId = 21,
       getGlueShaderName = ''fetchShader'',
       gfxIpVersionMajor = 10 \<rparr>"

text \<open>
  The fetch shader of \<open>sampleFetches\<close>: location 0 has a description, location 1 has none.
  With four SGPRs and two VGPRs their fields of the return struct are fields 6 and 7.
\<close>

definition sampleFetchShader :: FetchShader where
  "sampleFetchShader = FetchShader_ctor samplePipelineA sampleFetches sampleRegInfo"

section \<open>llpcPatchCopyShader.cpp: the data the pass reads and updates\<close>

text \<open>
  \<open>MaxGsStreams\<close> and \<open>InvalidValue\<close> are declared outside the file: there are four
  streams (the switch in \<open>runOnModule\<close> has the targets \<open>.stream0\<close> to \<open>.stream3\<close>) and
  \<open>InvalidValue\<close> is the all-ones \<open>unsigned\<close>.
\<close>

definition MaxGsStreams :: nat where
  "MaxGsStreams = 4"

definition InvalidValue :: u32 where
  "InvalidValue = - 1"

text \<open>
  Modelled from the spec: the declaration of \<open>GsOutLocInfo\<close> is missing from the sources.
  It is the packed key \<open>{location, isBuiltIn, streamId}\<close>; the maps are keyed by the whole
  bit pattern \<open>u32All\<close>, so two keys are equal exactly when the three fields are. The
  fields are bit-fields of one 32-bit word: \<open>isBuiltIn\<close> has one bit and \<open>streamId\<close> two bits
  (the streams 0 to 3). The specification leaves the width of \<open>location\<close> open; it is
  taken to be 16 bits.
\<close>

datatype GsOutLocInfo =
  GsOutLocInfoBits (locInfo_location: u32) (locInfo_isBuiltIn: bool) (locInfo_streamId: u32)

text \<open>
  \<open>GsOutLocInfo outLocInfo = {}\<close> followed by the assignments to the three fields: an
  assignment to a bit-field keeps the low bits of the value.
\<close>

definition GsOutLocInfo :: "u32 \<Rightarrow> bool \<Rightarrow> u32 \<Rightarrow> GsOutLocInfo" where
  "GsOutLocInfo loc isBuiltIn streamId =
     GsOutLocInfoBits (take_bit 16 loc) isBuiltIn (take_bit 2 streamId)"

record XfbOutInfo =
  xfbBuffer :: u32
  xfbOffset :: u32
  xfbExtraOffset :: u32
  is16bit :: bool

record BuiltInUsageGs =
  position :: bool
  pointSize :: bool
  clipDistance :: u32
  cullDistance :: u32
  primitiveId :: bool
  layer :: bool
  viewportIndex :: bool

text \<open>
  One user of a function whose name starts with \<open>lgcName::OutputExportGeneric\<close>, as the scan
  of \<open>CollectGsGenericOutputInfo\<close> sees it: whether it is a call instruction inside the
  geometry shader's entry point, its number of arguments, the constants in operands 0, 1
  and 2, and the type of its last operand.
\<close>

record GsExportUser =
  isCallInGsEntryPoint :: bool
  numArgOperands :: nat
  operand0 :: u32
  operand1 :: u32
  operand2 :: u32
  outputTy :: llvm_type

datatype ShaderStage =
    ShaderStageVertex | ShaderStageTessControl | ShaderStageTessEval | ShaderStageGeometry
  | ShaderStageFragment | ShaderStageCompute | ShaderStageCopyShader

text \<open>Constants and enumerator values that the file uses and that are declared elsewhere.\<close>

record Decls =
  BuiltInKind_value :: "BuiltInKind \<Rightarrow> u32"
  SI_DRV_TABLE_VS_RING_IN_OFFS :: "64 word"
  ADDR_SPACE_CONST :: nat
  CopyShaderUserSgprIdxStreamInfo :: nat
  CopyShaderUserSgprIdxVertexOffset :: nat
  CoherentFlag_glc_slc :: u32

text \<open>
  The pipeline state, the module and the resource usage of the copy shader stage, as far as
  the pass reads or writes them. \<open>gsExportUsers = None\<close> means that the pipeline has no
  geometry shader. \<open>outLocCount\<close> and \<open>genericOutByteSizes\<close> are arrays of \<open>MaxGsStreams\<close>
  elements; a map from locations to vectors is a list of pairs in iteration order, and
  \<open>outputLocMap\<close> is the list of its entries in iteration order.
\<close>

record CopyShaderState =
  gsExportUsers :: "GsExportUser list option"
  hasFsEntryPoint :: bool
  gfxIpMajor :: nat
  isGsOnChip :: bool
  enableNgg :: bool
  enableMultiView :: bool
  outputVertices :: u32
  ldsVariable :: llvm_value
  ldsAddrSpace :: nat
  ldsAlignment :: nat
  outLocCount :: "nat \<Rightarrow> u32"
  enableXfb :: bool
  outputLocMap :: "(GsOutLocInfo \<times> u32) list"
  builtInOutputLocMap :: "BuiltInKind \<Rightarrow> u32 option"
  xfbOutsInfo :: "GsOutLocInfo \<Rightarrow> XfbOutInfo option"
  genericOutByteSizes :: "nat \<Rightarrow> (u32 \<times> u32 list) list"
  builtInUsage :: BuiltInUsageGs
  rasterStream :: u32
  esGsLdsSize :: u32
  copyShaderStreamOutTable :: u32
  copyShaderEsGsLdsSize :: u32
  shaderStageMask :: "ShaderStage set"

text \<open>The members of the pass object that \<open>runOnModule\<close> sets; \<open>None\<close> is \<open>nullptr\<close>.\<close>

record PassMembers =
  m_pLds :: "llvm_value option"
  m_pGsVsRingBufDesc :: "llvm_value option"

text \<open>The generated function \<open>copy_shader\<close>.\<close>

record CopyShaderFunction =
  argInReg :: "bool list"
  insertedBeforeFs :: bool
  entryInsts :: "instruction list"
  entryTerm :: "terminator"
  streamBlocks :: "(u32 \<times> instruction list \<times> terminator) list"
  endInsts :: "instruction list"
  endTerm :: "terminator"
  stageMetadata :: ShaderStage

section \<open>CollectGsGenericOutputInfo\<close>

fun getScalarSizeInBits :: "llvm_type \<Rightarrow> u32" where
  "getScalarSizeInBits (IntegerTy n) = of_nat n"
| "getScalarSizeInBits HalfTy = 16"
| "getScalarSizeInBits FloatTy = 32"
| "getScalarSizeInBits DoubleTy = 64"
| "getScalarSizeInBits (VectorTy t n) = getScalarSizeInBits t"
| "getScalarSizeInBits t = 0"

text \<open>The byte size recorded for an output of type \<open>pOutputTy\<close> (lines 336 to 349).\<close>

definition outputByteSize :: "llvm_type \<Rightarrow> u32" where
  "outputByteSize pOutputTy =
     (let (compCount, pCompTy) =
            (case pOutputTy of VectorTy e n \<Rightarrow> (n, e) | _ \<Rightarrow> (1, pOutputTy));
          bitWidth = getScalarSizeInBits pCompTy;
          bitWidth = (if bitWidth < 32 then 32 else bitWidth)
      in bitWidth div 8 * of_nat compCount)"

text \<open>\<open>v.resize(4)\<close> on a vector of \<open>unsigned\<close>.\<close>

definition resize4 :: "u32 list \<Rightarrow> u32 list" where
  "resize4 v = take 4 (v @ replicate 4 0)"

text \<open>
  \<open>m[location].resize(4); m[location][compIdx] = byteSize\<close>: \<open>operator[]\<close> of the map finds the
  entry of the location, or creates one with an empty vector for a location that has none.
  The declaration of the container is outside the file; its entries are kept in ascending
  order of the location (the iteration order of an ordered map).
\<close>

definition setByteSize :: "(u32 \<times> u32 list) list \<Rightarrow> u32 \<Rightarrow> nat \<Rightarrow> u32 \<Rightarrow> (u32 \<times> u32 list) list" where
  "setByteSize m loc compIdx byteSize =
     (if loc \<in> fst ` set m
      then map (\<lambda>entry. if fst entry = loc
                         then (loc, (resize4 (snd entry))[compIdx := byteSize]) else entry) m
      else insort_key fst (loc, (resize4 [])[compIdx := byteSize]) m)"

text \<open>
  The body of the loop over the users. Assertions are modelled as enabled; an index past
  the end of the array \<open>genericOutByteSizes\<close> is an error of the model.
\<close>

definition collectUser :: "CopyShaderState \<Rightarrow> GsExportUser \<Rightarrow> error + CopyShaderState" where
  "collectUser st u =
     (if \<not> isCallInGsEntryPoint u then Inr st
      else if numArgOperands u \<noteq> 4 then Inl AssertFailed
      else
        let outLocInfo = GsOutLocInfo (operand0 u) False (operand2 u) in
        case map_of (outputLocMap st) outLocInfo of
          None \<Rightarrow> Inr st
        | Some mappedLocation \<Rightarrow>
            let compIdx = operand1 u;
                streamId = operand2 u;
                byteSize = outputByteSize (outputTy u)
            in if \<not> compIdx < 4 then Inl AssertFailed
               else if \<not> unat streamId < MaxGsStreams then Inl OutOfBounds
               else Inr (st\<lparr>genericOutByteSizes :=
                          (genericOutByteSizes st)
                            (unat streamId :=
                               setByteSize (genericOutByteSizes st (unat streamId))
                                 mappedLocation (unat compIdx) byteSize)\<rparr>))"

fun CollectGsGenericOutputInfo :: "CopyShaderState \<Rightarrow> GsExportUser list \<Rightarrow> error + CopyShaderState" where
  "CollectGsGenericOutputInfo st [] = Inr st"
| "CollectGsGenericOutputInfo st (u # us) =
     (case collectUser st u of
        Inl e \<Rightarrow> Inl e
      | Inr st' \<Rightarrow> CollectGsGenericOutputInfo st' us)"

section \<open>Loading from the GS-VS ring\<close>

text \<open>\<open>GetFunctionArgument(pEntryPoint, idx)\<close>: every parameter of the copy shader is an \<open>i32\<close>.\<close>

definition GetFunctionArgument :: "nat \<Rightarrow> llvm_value" where
  "GetFunctionArgument idx = Argument idx (IntegerTy 32)"

definition CalcGsVsRingOffsetForInput ::
  "Decls \<Rightarrow> CopyShaderState \<Rightarrow> u32 \<Rightarrow> u32 \<Rightarrow> u32 \<Rightarrow> instruction list \<times> llvm_value" where
  "CalcGsVsRingOffsetForInput D st loc compIdx streamId =
     (let pVertexOffset = GetFunctionArgument (CopyShaderUserSgprIdxVertexOffset D) in
      if isGsOnChip st then
        (let (i1, pRingOffset) =
               emit AddOp (IntegerTy 32) [ConstantInt32 (esGsLdsSize st), pVertexOffset];
             (i2, pRingOffset) =
               emit AddOp (IntegerTy 32) [pRingOffset, ConstantInt32 (loc * 4 + compIdx)]
         in (i1 @ i2, pRingOffset))
      else
        (let (i1, pRingOffset) = emit MulOp (IntegerTy 32) [pVertexOffset, ConstantInt32 4];
             (i2, pRingOffset) =
               emit AddOp (IntegerTy 32)
                 [pRingOffset, ConstantInt32 ((loc * 4 + compIdx) * 64 * outputVertices st)]
         in (i1 @ i2, pRingOffset)))"

text \<open>
  One iteration of the loop over the elements in the ring-buffer branch of
  \<open>LoadValueFromGsVsRing\<close>: the instructions emitted so far and the value assembled so far
  are the accumulator.
\<close>

definition loadRingElem ::
  "Decls \<Rightarrow> CopyShaderState \<Rightarrow> llvm_value \<Rightarrow> llvm_type \<Rightarrow> llvm_type \<Rightarrow> u32 \<Rightarrow> u32 \<Rightarrow> nat
     \<Rightarrow> instruction list \<times> llvm_value \<Rightarrow> instruction list \<times> llvm_value" where
  "loadRingElem D st ringBufDesc pLoadTy pElemTy loc streamId i acc =
     (let (insts, pLoadValue) = acc;
          (i1, pRingOffset) =
            CalcGsVsRingOffsetForInput D st (loc + of_nat i div 4) (of_nat i mod 4) streamId;
          (i2, pLoadElem) =
            emit (IntrinsicOp amdgcn_raw_buffer_load) pElemTy
              [ringBufDesc, pRingOffset, ConstantInt32 0, ConstantInt32 (CoherentFlag_glc_slc D)];
          (i3, pLoadValue) =
            (case pLoadTy of
               ArrayTy _ _ \<Rightarrow> emit (InsertValueOp i) pLoadTy [pLoadValue, pLoadElem]
             | VectorTy _ _ \<Rightarrow>
                 emit InsertElementOp pLoadTy [pLoadValue, pLoadElem, ConstantInt64 (of_nat i)]
             | _ \<Rightarrow> ([], pLoadElem))
      in (insts @ i1 @ i2 @ i3, pLoadValue))"

definition LoadValueFromGsVsRing ::
  "Decls \<Rightarrow> CopyShaderState \<Rightarrow> PassMembers \<Rightarrow> llvm_type \<Rightarrow> u32 \<Rightarrow> u32
     \<Rightarrow> error + (instruction list \<times> llvm_value)" where
  "LoadValueFromGsVsRing D st this pLoadTy loc streamId =
     (let (elemCount, pElemTy) =
            (case pLoadTy of
               ArrayTy e n \<Rightarrow> (n, e)
             | VectorTy e n \<Rightarrow> (n, e)
             | _ \<Rightarrow> (1, pLoadTy))
      in
      if \<not> (pElemTy = IntegerTy 32 \<or> pElemTy = FloatTy) then Inl AssertFailed
      else if enableNgg st then
        Inr (emit (CallOp (NggGsOutputImport pLoadTy)) pLoadTy
               [ConstantInt32 loc, ConstantInt32 0, ConstantInt32 streamId])
      else if isGsOnChip st then
        (case m_pLds this of
           None \<Rightarrow> Inl AssertFailed
         | Some lds \<Rightarrow>
             let (i1, pRingOffset) = CalcGsVsRingOffsetForInput D st loc 0 streamId;
                 (i2, pLoadPtr) =
                   emit GetElementPtrOp (PointerTy (IntegerTy 32) (ldsAddrSpace st))
                     [lds, ConstantInt32 0, pRingOffset];
                 (i3, pLoadPtr) =
                   CreateCast BitCastOp pLoadPtr (PointerTy pLoadTy (ldsAddrSpace st));
                 (i4, pLoad) =
                   emit (LoadOp (if ldsAlignment st = 0 then None else Some (ldsAlignment st)))
                     pLoadTy [pLoadPtr]
             in Inr (i1 @ i2 @ i3 @ i4, pLoad))
      else
        (case m_pGsVsRingBufDesc this of
           None \<Rightarrow> Inl AssertFailed
         | Some ringBufDesc \<Rightarrow>
             Inr (fold (loadRingElem D st ringBufDesc pLoadTy pElemTy loc streamId)
                    [0..<elemCount] ([], UndefValue pLoadTy))))"

definition LoadGsVsRingBufferDescriptor :: "Decls \<Rightarrow> instruction list \<times> llvm_value" where
  "LoadGsVsRingBufferDescriptor D =
     (let pInternalTablePtrLow = GetFunctionArgument 0;
          (i1, pPc) = emit (IntrinsicOp amdgcn_s_getpc) (IntegerTy 64) [];
          (i2, pPc) = CreateCast BitCastOp pPc (VectorTy (IntegerTy 32) 2);
          (i3, pInternalTablePtrHigh) = emit ExtractElementOp (IntegerTy 32) [pPc, ConstantInt64 1];
          pUndef = UndefValue (VectorTy (IntegerTy 32) 2);
          (i4, pInternalTablePtr) =
            emit InsertElementOp (VectorTy (IntegerTy 32) 2) [pUndef, pInternalTablePtrLow, ConstantInt64 0];
          (i5, pInternalTablePtr) =
            emit InsertElementOp (VectorTy (IntegerTy 32) 2)
              [pInternalTablePtr, pInternalTablePtrHigh, ConstantInt64 1];
          (i6, pInternalTablePtr) = CreateCast BitCastOp pInternalTablePtr (IntegerTy 64);
          (i7, pGsVsRingBufDescPtr) =
            emit AddOp (IntegerTy 64)
              [pInternalTablePtr, ConstantInt64 (push_bit 4 (SI_DRV_TABLE_VS_RING_IN_OFFS D))];
          pInt32x4PtrTy = PointerTy (VectorTy (IntegerTy 32) 4) (ADDR_SPACE_CONST D);
          intToPtr = Instruction IntToPtrOp pInt32x4PtrTy [pGsVsRingBufDescPtr] [MetaNameUniform];
          load = Instruction (LoadOp None) (VectorTy (IntegerTy 32) 4) [InstValue intToPtr]
                   [MD_invariant_load]
      in (i1 @ i2 @ i3 @ i4 @ i5 @ i6 @ i7 @ [intToPtr, load], InstValue load))"

section \<open>Exporting one output\<close>

fun isFPOrFPVectorTy :: "llvm_type \<Rightarrow> bool" where
  "isFPOrFPVectorTy HalfTy = True"
| "isFPOrFPVectorTy FloatTy = True"
| "isFPOrFPVectorTy DoubleTy = True"
| "isFPOrFPVectorTy (VectorTy t n) = (t = HalfTy \<or> t = FloatTy \<or> t = DoubleTy)"
| "isFPOrFPVectorTy t = False"

fun isSingleValueType :: "llvm_type \<Rightarrow> bool" where
  "isSingleValueType (IntegerTy n) = True"
| "isSingleValueType HalfTy = True"
| "isSingleValueType FloatTy = True"
| "isSingleValueType DoubleTy = True"
| "isSingleValueType (PointerTy t a) = True"
| "isSingleValueType (VectorTy t n) = True"
| "isSingleValueType t = False"

text \<open>
  The casts of a 16-bit transform feedback output (lines 645 to 663). With more than one
  component the three casts are made by the builder, which inserts them. With one component
  the first cast is made by the builder, and the truncation and the second cast are made by
  \<open>new TruncInst(v, ty)\<close> and \<open>new BitCastInst(v, ty)\<close>, which name no insertion point: the
  two instructions are created and inserted nowhere.
\<close>

definition narrowTo16Bit :: "llvm_value \<Rightarrow> error + (instruction list \<times> llvm_value)" where
  "narrowTo16Bit pOutputValue =
     (let pOutputTy = typeOf pOutputValue in
      if \<not> (isFPOrFPVectorTy pOutputTy \<and> getScalarSizeInBits pOutputTy = 32) then Inl AssertFailed
      else
        let compCount = (case pOutputTy of VectorTy _ n \<Rightarrow> n | _ \<Rightarrow> 1) in
        if compCount > 1 then
          (let (i1, v1) = CreateCast BitCastOp pOutputValue (VectorTy (IntegerTy 32) compCount);
               (i2, v2) = CreateCast TruncOp v1 (VectorTy (IntegerTy 16) compCount);
               (i3, v3) = CreateCast BitCastOp v2 (VectorTy HalfTy compCount)
           in Inr (i1 @ i2 @ i3, v3))
        else
          (let (i1, v1) = CreateCast BitCastOp pOutputValue (IntegerTy 32);
               v2 = InstValue (Instruction TruncOp (IntegerTy 16) [v1] []);
               v3 = InstValue (Instruction BitCastOp HalfTy [v2] [])
           in Inr (i1, v3)))"

text \<open>
  The transform feedback part of \<open>ExportGenericOutput\<close> (lines 621 to 679): the
  instructions it inserts and the value that \<open>pOutputValue\<close> holds afterwards.
\<close>

definition exportGenericXfb ::
  "CopyShaderState \<Rightarrow> llvm_value \<Rightarrow> u32 \<Rightarrow> u32 \<Rightarrow> error + (instruction list \<times> llvm_value)" where
  "exportGenericXfb st pOutputValue loc streamId =
     (case find (\<lambda>outLoc. snd outLoc = loc \<and> locInfo_streamId (fst outLoc) = streamId)
             (outputLocMap st) of
        None \<Rightarrow> Inl AssertFailed
      | Some locIter \<Rightarrow>
          (case xfbOutsInfo st (fst locIter) of
             None \<Rightarrow> Inr ([], pOutputValue)
           | Some pXfbOutInfo \<Rightarrow>
               (case (if is16bit pXfbOutInfo then narrowTo16Bit pOutputValue
                      else Inr ([], pOutputValue)) of
                  Inl e \<Rightarrow> Inl e
                | Inr (i1, pOutputValue) \<Rightarrow>
                    let args = [ConstantInt32 (xfbBuffer pXfbOutInfo),
                                ConstantInt32 (xfbOffset pXfbOutInfo),
                                ConstantInt32 (xfbExtraOffset pXfbOutInfo),
                                pOutputValue];
                        (i2, _) = emit (CallOp (OutputExportXfb (map typeOf args))) VoidTy args
                    in Inr (i1 @ i2, pOutputValue))))"

definition ExportGenericOutput ::
  "CopyShaderState \<Rightarrow> llvm_value \<Rightarrow> u32 \<Rightarrow> u32 \<Rightarrow> error + instruction list" where
  "ExportGenericOutput st pOutputValue loc streamId =
     (case (if enableXfb st then exportGenericXfb st pOutputValue loc streamId
            else Inr ([], pOutputValue)) of
        Inl e \<Rightarrow> Inl e
      | Inr (i1, pOutputValue) \<Rightarrow>
          if rasterStream st = streamId then
            (let pOutputTy = typeOf pOutputValue in
             if \<not> isSingleValueType pOutputTy then Inl AssertFailed
             else
               let (i2, _) = emit (CallOp (OutputExportGeneric pOutputTy)) VoidTy
                               [ConstantInt32 loc, pOutputValue]
               in Inr (i1 @ i2))
          else Inr i1)"

definition ExportBuiltInOutput ::
  "Decls \<Rightarrow> CopyShaderState \<Rightarrow> llvm_value \<Rightarrow> BuiltInKind \<Rightarrow> u32 \<Rightarrow> instruction list" where
  "ExportBuiltInOutput D st pOutputValue builtInId streamId =
     (let i1 =
            (if enableXfb st then
               (let outLocInfo = GsOutLocInfo (BuiltInKind_value D builtInId) True streamId in
                case xfbOutsInfo st outLocInfo of
                  None \<Rightarrow> []
                | Some pXfbOutInfo \<Rightarrow>
                    let args = [ConstantInt32 (xfbBuffer pXfbOutInfo),
                                ConstantInt32 (xfbOffset pXfbOutInfo),
                                ConstantInt32 0,
                                pOutputValue]
                    in fst (emit (CallOp (OutputExportXfb (map typeOf args))) VoidTy args))
             else []);
          i2 =
            (if rasterStream st = streamId then
               (let args = [ConstantInt32 (BuiltInKind_value D builtInId), pOutputValue]
                in fst (emit (CallOp (OutputExportBuiltIn builtInId (map typeOf args))) VoidTy args))
             else [])
      in i1 @ i2)"

section \<open>ExportOutput\<close>

text \<open>
  The body of the loop over the locations of one stream (lines 372 to 388) for one entry
  \<open>(loc, sizes)\<close> of the map: the sum of the four byte sizes, the load of that many dwords
  and the export. Reading one of the four components of a shorter vector is an error of the
  model.
\<close>

definition exportGenericLocation ::
  "Decls \<Rightarrow> CopyShaderState \<Rightarrow> PassMembers \<Rightarrow> u32 \<Rightarrow> u32 \<times> u32 list \<Rightarrow> error + instruction list" where
  "exportGenericLocation D st this streamId byteSizeMap =
     (let loc = fst byteSizeMap; sizes = snd byteSizeMap in
      if length sizes < 4 then Inl OutOfBounds
      else
        let byteSize = 0 + sizes ! 0 + sizes ! 1 + sizes ! 2 + sizes ! 3 in
        if byteSize mod 4 \<noteq> 0 then Inl AssertFailed
        else
          let dwordSize = byteSize div 4 in
          case LoadValueFromGsVsRing D st this (VectorTy FloatTy (unat dwordSize)) loc streamId of
            Inl e \<Rightarrow> Inl e
          | Inr (i1, pOutputValue) \<Rightarrow>
              (case ExportGenericOutput st pOutputValue loc streamId of
                 Inl e \<Rightarrow> Inl e
               | Inr i2 \<Rightarrow> Inr (i1 @ i2)))"

text \<open>Running a loop body over a list, stopping at the first failure.\<close>

fun emitAll :: "('a \<Rightarrow> error + instruction list) \<Rightarrow> 'a list \<Rightarrow> error + instruction list" where
  "emitAll body [] = Inr []"
| "emitAll body (x # xs) =
     (case body x of
        Inl e \<Rightarrow> Inl e
      | Inr i1 \<Rightarrow> (case emitAll body xs of Inl e \<Rightarrow> Inl e | Inr i2 \<Rightarrow> Inr (i1 @ i2)))"

text \<open>The list \<open>builtInPairs\<close> (lines 391 to 431).\<close>

definition builtInPairs :: "CopyShaderState \<Rightarrow> (BuiltInKind \<times> llvm_type) list" where
  "builtInPairs st =
     (let builtInUsage = builtInUsage st in
      (if position builtInUsage then [(BuiltInPosition, VectorTy FloatTy 4)] else [])
      @ (if pointSize builtInUsage then [(BuiltInPointSize, FloatTy)] else [])
      @ (if clipDistance builtInUsage > 0
         then [(BuiltInClipDistance, ArrayTy FloatTy (unat (clipDistance builtInUsage)))] else [])
      @ (if cullDistance builtInUsage > 0
         then [(BuiltInCullDistance, ArrayTy FloatTy (unat (cullDistance builtInUsage)))] else [])
      @ (if primitiveId builtInUsage then [(BuiltInPrimitiveId, IntegerTy 32)] else [])
      @ (if layer builtInUsage \<or> enableMultiView st
         then [(if enableMultiView st then BuiltInViewIndex else BuiltInLayer, IntegerTy 32)] else [])
      @ (if viewportIndex builtInUsage then [(BuiltInViewportIndex, IntegerTy 32)] else []))"

definition exportBuiltInPair ::
  "Decls \<Rightarrow> CopyShaderState \<Rightarrow> PassMembers \<Rightarrow> u32 \<Rightarrow> BuiltInKind \<times> llvm_type \<Rightarrow> error + instruction list" where
  "exportBuiltInPair D st this streamId builtInPair =
     (let builtInId = fst builtInPair; pBuiltInTy = snd builtInPair in
      case builtInOutputLocMap st builtInId of
        None \<Rightarrow> Inl AssertFailed
      | Some loc \<Rightarrow>
          (case LoadValueFromGsVsRing D st this pBuiltInTy loc streamId of
             Inl e \<Rightarrow> Inl e
           | Inr (i1, pOutputValue) \<Rightarrow>
               Inr (i1 @ ExportBuiltInOutput D st pOutputValue builtInId streamId)))"

definition dummyPosition :: llvm_value where
  "dummyPosition =
     ConstantVector [ConstantFP FloatTy FP_0_0, ConstantFP FloatTy FP_0_0,
                     ConstantFP FloatTy FP_0_0, ConstantFP FloatTy FP_1_0]"

definition ExportOutput ::
  "Decls \<Rightarrow> CopyShaderState \<Rightarrow> PassMembers \<Rightarrow> u32 \<Rightarrow> error + instruction list" where
  "ExportOutput D st this streamId =
     (if \<not> unat streamId < MaxGsStreams then Inl OutOfBounds
      else
        case emitAll (exportGenericLocation D st this streamId)
               (genericOutByteSizes st (unat streamId)) of
          Inl e \<Rightarrow> Inl e
        | Inr generic \<Rightarrow>
            (case emitAll (exportBuiltInPair D st this streamId) (builtInPairs st) of
               Inl e \<Rightarrow> Inl e
             | Inr builtIns \<Rightarrow>
                 Inr (generic @ builtIns
                      @ (if enableXfb st \<and> position (builtInUsage st) = False
                         then ExportBuiltInOutput D st dummyPosition BuiltInPosition streamId
                         else []))))"

section \<open>runOnModule\<close>

text \<open>
  The loop that counts the streams with outputs and remembers the first of them
  (lines 205 to 217).
\<close>

definition countStream :: "CopyShaderState \<Rightarrow> nat \<Rightarrow> nat \<times> u32 \<Rightarrow> nat \<times> u32" where
  "countStream st i acc =
     (let (outputStreamCount, outputStreamId) = acc in
      if outLocCount st i > 0
      then (outputStreamCount + 1,
            if outputStreamId = InvalidValue then of_nat i else outputStreamId)
      else (outputStreamCount, outputStreamId))"

definition countStreams :: "CopyShaderState \<Rightarrow> nat \<times> u32" where
  "countStreams st = fold (countStream st) [0..<MaxGsStreams] (0, InvalidValue)"

text \<open>
  The blocks \<open>.stream<id>\<close> of the switch, one for every stream with outputs, in the order of
  the loop (lines 262 to 275): the case value, the instructions and the terminator.
\<close>

fun streamCases ::
  "Decls \<Rightarrow> CopyShaderState \<Rightarrow> PassMembers \<Rightarrow> nat list
     \<Rightarrow> error + (u32 \<times> instruction list \<times> terminator) list" where
  "streamCases D st this [] = Inr []"
| "streamCases D st this (streamId # rest) =
     (if outLocCount st streamId > 0 then
        (case ExportOutput D st this (of_nat streamId) of
           Inl e \<Rightarrow> Inl e
         | Inr insts \<Rightarrow>
             (case streamCases D st this rest of
                Inl e \<Rightarrow> Inl e
              | Inr blocks \<Rightarrow> Inr ((of_nat streamId, insts, Br EndBlock) # blocks)))
      else streamCases D st this rest)"

text \<open>The streams with outputs, in increasing order.\<close>

definition activeStreams :: "CopyShaderState \<Rightarrow> nat list" where
  "activeStreams st = filter (\<lambda>i. outLocCount st i > 0) [0..<MaxGsStreams]"

text \<open>
  The first part of \<open>runOnModule\<close> (lines 125 to 201), for a pipeline whose geometry shader
  has the given users of the generic export functions: the scan, the user data registers of
  the hardware generation, and the LDS variable or the load of the ring buffer descriptor
  at the start of the entry block. The result is the updated state, the instructions
  inserted into the entry block and the members of the pass.
\<close>

definition prepareCopyShader ::
  "Decls \<Rightarrow> CopyShaderState \<Rightarrow> GsExportUser list
     \<Rightarrow> error + (CopyShaderState \<times> instruction list \<times> PassMembers)" where
  "prepareCopyShader D st0 users =
     (case CollectGsGenericOutputInfo st0 users of
        Inl e \<Rightarrow> Inl e
      | Inr st1 \<Rightarrow>
          let st2 = (if gfxIpMajor st1 \<le> 8
                     then st1\<lparr>copyShaderStreamOutTable := 2, copyShaderEsGsLdsSize := 3\<rparr>
                     else st1\<lparr>copyShaderStreamOutTable := 3, copyShaderEsGsLdsSize := 2\<rparr>)
          in if isGsOnChip st2
             then Inr (st2, [], \<lparr>m_pLds = Some (ldsVariable st2), m_pGsVsRingBufDesc = None\<rparr>)
             else (let (insts, desc) = LoadGsVsRingBufferDescriptor D
                   in Inr (st2, insts, \<lparr>m_pLds = None, m_pGsVsRingBufDesc = Some desc\<rparr>)))"

text \<open>\<open>StreamId = streamInfo[25:24]\<close>: the instruction that extracts the stream id.\<close>

definition streamIdExtract :: "Decls \<Rightarrow> instruction" where
  "streamIdExtract D =
     Instruction (IntrinsicOp amdgcn_ubfe) (IntegerTy 32)
       [GetFunctionArgument (CopyShaderUserSgprIdxStreamInfo D), ConstantInt32 24, ConstantInt32 2] []"

text \<open>
  \<open>runOnModule\<close>. The result is \<open>None\<close> when the pass returns \<open>false\<close> (no geometry shader),
  otherwise the generated function; with it comes the updated state.
\<close>

definition runOnModule ::
  "Decls \<Rightarrow> CopyShaderState \<Rightarrow> error + (CopyShaderFunction option \<times> CopyShaderState)" where
  "runOnModule D st0 =
     (case gsExportUsers st0 of
        None \<Rightarrow> Inr (None, st0)
      | Some users \<Rightarrow>
          (case prepareCopyShader D st0 users of
             Inl e \<Rightarrow> Inl e
           | Inr (st2, prologue, this) \<Rightarrow>
               let (outputStreamCount, outputStreamId) = countStreams st2;
                   func = \<lparr> argInReg = [True, True, True, True, True, True, True, True, True, True, False],
                            insertedBeforeFs = hasFsEntryPoint st2,
                            entryInsts = [], entryTerm = Br EndBlock, streamBlocks = [],
                            endInsts = [], endTerm = RetVoid,
                            stageMetadata = ShaderStageCopyShader \<rparr>;
                   st3 = st2\<lparr>shaderStageMask := shaderStageMask st2 \<union> {ShaderStageCopyShader}\<rparr>
               in
               if outputStreamCount > 1 \<and> enableXfb st2 then
                 (let (i1, pStreamId) =
                        emit (IntrinsicOp amdgcn_ubfe) (IntegerTy 32)
                          [GetFunctionArgument (CopyShaderUserSgprIdxStreamInfo D),
                           ConstantInt32 24, ConstantInt32 2]
                  in case streamCases D st2 this [0..<MaxGsStreams] of
                       Inl e \<Rightarrow> Inl e
                     | Inr blocks \<Rightarrow>
                         Inr (Some (func\<lparr> entryInsts := prologue @ i1,
                                          entryTerm := Switch pStreamId EndBlock
                                            (map (\<lambda>b. (fst b, StreamBlock (fst b))) blocks),
                                          streamBlocks := blocks \<rparr>),
                              st3))
               else
                 (let outputStreamId = (if outputStreamCount = 0 then 0 else outputStreamId)
                  in case ExportOutput D st2 this outputStreamId of
                       Inl e \<Rightarrow> Inl e
                     | Inr insts \<Rightarrow>
                         Inr (Some (func\<lparr> entryInsts := prologue @ insts,
                                          entryTerm := Br EndBlock \<rparr>),
                              st3))))"

section \<open>Notions used in the statements about the copy shader\<close>

text \<open>
  The stream whose outputs are exported when there is no switch: the first stream with
  outputs, or stream 0 when no stream has any.
\<close>

definition designatedStream :: "CopyShaderState \<Rightarrow> u32" where
  "designatedStream st = (case activeStreams st of [] \<Rightarrow> 0 | i # _ \<Rightarrow> of_nat i)"


text \<open>
  The component widths of shader data: below 32 bits, or a whole number of dwords
  (8, 16, 32 and 64 bits are the widths a geometry stage exports).
\<close>

definition supportedWidth :: "llvm_type \<Rightarrow> bool" where
  "supportedWidth t \<longleftrightarrow>
     getScalarSizeInBits t < 32 \<or> 32 dvd unat (getScalarSizeInBits t)"

text \<open>
  The byte size in the words of the specification: the bit width of a component, widened
  to 32 when it is below 32, in bytes, times the number of components.
\<close>

definition spec_widenedByteSize :: "nat \<Rightarrow> nat \<Rightarrow> nat" where
  "spec_widenedByteSize bitWidth compCount = max 32 bitWidth div 8 * compCount"

text \<open>The number of components of an output type: the elements of a vector, else one.\<close>

definition componentCount :: "llvm_type \<Rightarrow> nat" where
  "componentCount t = (case t of VectorTy e n \<Rightarrow> n | _ \<Rightarrow> 1)"

text \<open>
  The user is an export call of the geometry shader whose location is mapped to \<open>loc\<close> and
  that names stream \<open>streamId\<close> and component \<open>compIdx\<close>: the scan records its byte size in
  \<open>genericOutByteSizes[streamId][loc][compIdx]\<close>.
\<close>

definition recordsAt :: "CopyShaderState \<Rightarrow> GsExportUser \<Rightarrow> nat \<Rightarrow> u32 \<Rightarrow> nat \<Rightarrow> bool" where
  "recordsAt st u streamId loc compIdx \<longleftrightarrow>
     isCallInGsEntryPoint u
     \<and> map_of (outputLocMap st) (GsOutLocInfo (operand0 u) False (operand2 u)) = Some loc
     \<and> unat (operand2 u) = streamId \<and> unat (operand1 u) = compIdx"

text \<open>Every byte size in \<open>genericOutByteSizes\<close> is a multiple of 4.\<close>

definition byteSizesAligned :: "CopyShaderState \<Rightarrow> bool" where
  "byteSizesAligned st \<longleftrightarrow>
     (\<forall>s \<in> {0..<MaxGsStreams}. \<forall>entry \<in> set (genericOutByteSizes st s).
        \<forall>b \<in> set (snd entry). 4 dvd unat b)"

text \<open>\<open>genericOutByteSizes[streamId][loc][compIdx]\<close>, if the map has the location.\<close>

definition recordedByteSize :: "CopyShaderState \<Rightarrow> nat \<Rightarrow> u32 \<Rightarrow> nat \<Rightarrow> u32 option" where
  "recordedByteSize st streamId loc compIdx =
     (case map_of (genericOutByteSizes st streamId) loc of
        None \<Rightarrow> None
      | Some v \<Rightarrow> if compIdx < length v then Some (v ! compIdx) else None)"

text \<open>An export call that carries the constant vector \<open>(0, 0, 0, 1)\<close>.\<close>

fun exportsDummyPosition :: "instruction \<Rightarrow> bool" where
  "exportsDummyPosition (Instruction (CallOp c) t args md) = (dummyPosition \<in> set args)"
| "exportsDummyPosition (Instruction opc t args md) = False"


definition isRasterExport :: "instruction \<Rightarrow> bool" where
  "isRasterExport i =
     (case opcodeOf i of
        CallOp (OutputExportGeneric t) \<Rightarrow> True
      | CallOp (OutputExportBuiltIn b ts) \<Rightarrow> True
      | _ \<Rightarrow> False)"

text \<open>
  The instructions of an export sequence that read an output or export it to the
  rasterizer: the import call of NGG mode, a load from memory (LDS), a buffer load from the
  ring, and the generic export call with its location; each load with the type it loads.
\<close>

datatype instClass =
    NggImportInst llvm_type
  | LoadInst llvm_type
  | RingLoadInst llvm_type
  | GenericExportInst u32
  | OtherInst

fun classify :: "instruction \<Rightarrow> instClass" where
  "classify (Instruction (CallOp (NggGsOutputImport n)) t args md) = NggImportInst t"
| "classify (Instruction (LoadOp a) t args md) = LoadInst t"
| "classify (Instruction (IntrinsicOp amdgcn_raw_buffer_load) t args md) = RingLoadInst t"
| "classify (Instruction (CallOp (OutputExportGeneric n)) t (ConstantInt32 l # rest) md) =
     GenericExportInst l"
| "classify (Instruction opc t args md) = OtherInst"

definition loadsAndExports :: "instruction list \<Rightarrow> instClass list" where
  "loadsAndExports insts = filter (\<lambda>c. c \<noteq> OtherInst) (map classify insts)"

text \<open>
  What the export sequence of a stream holds for one entry \<open>(loc, sizes)\<close> of the byte size
  map, with \<open>n\<close> the sum of the four byte sizes divided by 4: in NGG mode one import call
  of \<open>n\<close> floats, on chip one load of \<open>n\<close> floats, on the ring \<open>n\<close> buffer loads of one float
  each; then the generic export of the location if the stream is the rasterization stream.
\<close>

definition locationLoadsAndExports ::
  "CopyShaderState \<Rightarrow> u32 \<Rightarrow> u32 \<times> u32 list \<Rightarrow> instClass list" where
  "locationLoadsAndExports st streamId byteSizeMap =
     (let sizes = snd byteSizeMap;
          n = unat ((0 + sizes ! 0 + sizes ! 1 + sizes ! 2 + sizes ! 3) div 4)
      in (if enableNgg st then [NggImportInst (VectorTy FloatTy n)]
          else if isGsOnChip st then [LoadInst (VectorTy FloatTy n)]
          else replicate n (RingLoadInst FloatTy))
         @ (if rasterStream st = streamId then [GenericExportInst (fst byteSizeMap)] else []))"

text \<open>The instructions of a successful emission.\<close>

definition emitted :: "error + instruction list \<Rightarrow> instruction list" where
  "emitted r = (case r of Inl e \<Rightarrow> [] | Inr insts \<Rightarrow> insts)"

text \<open>
  Every operand that is the result of an instruction refers to an instruction inserted
  earlier (in \<open>seen\<close> or in the list itself).
\<close>

primrec operandsInserted :: "instruction list \<Rightarrow> instruction list \<Rightarrow> bool" where
  "operandsInserted seen [] = True"
| "operandsInserted seen (i # rest) =
     (list_all (\<lambda>v. case v of InstValue j \<Rightarrow> j \<in> set seen | _ \<Rightarrow> True) (operands i)
      \<and> operandsInserted (seen @ [i]) rest)"

subsection \<open>Sample inputs of the copy shader pass\<close>

definition sampleDecls :: Decls where
  "sampleDecls =
     \<lparr> BuiltInKind_value =
         (\<lambda>b. case b of BuiltInPosition \<Rightarrow> 0 | BuiltInPointSize \<Rightarrow> 1
                | BuiltInClipDistance \<Rightarrow> 3 | BuiltInCullDistance \<Rightarrow> 4
                | BuiltInPrimitiveId \<Rightarrow> 7 | BuiltInLayer \<Rightarrow> 9
                | BuiltInViewportIndex \<Rightarrow> 10 | BuiltInViewIndex \<Rightarrow> 4440),
       SI_DRV_TABLE_VS_RING_IN_OFFS = 1,
       ADDR_SPACE_CONST = 4,
       CopyShaderUserSgprIdxStreamInfo = 4,
       CopyShaderUserSgprIdxVertexOffset = 10,
       CoherentFlag_glc_slc = 3 \<rparr>"

text \<open>
  A pipeline with a geometry shader on the ring buffer, no transform feedback, no built-in
  outputs and no outputs recorded so far; the other samples change single fields of it.
\<close>

definition sampleState :: CopyShaderState where
  "sampleState =
     \<lparr> gsExportUsers = Some [],
       hasFsEntryPoint = True,
       gfxIpMajor = 9,
       isGsOnChip = False,
       enableNgg = False,
       enableMultiView = False,
       outputVertices = 3,
       ldsVariable = GlobalVariable ''lds'' (PointerTy (ArrayTy (IntegerTy 32) 16384) 3),
       ldsAddrSpace = 3,
       ldsAlignment = 4,
       outLocCount = (\<lambda>i. 0),
       enableXfb = False,
       outputLocMap = [],
       builtInOutputLocMap = (\<lambda>b. None),
       xfbOutsInfo = (\<lambda>k. None),
       genericOutByteSizes = (\<lambda>i. []),
       builtInUsage = \<lparr> position = False, pointSize = False, clipDistance = 0, cullDistance = 0,
                        primitiveId = False, layer = False, viewportIndex = False \<rparr>,
       rasterStream = 0,
       esGsLdsSize = 0,
       copyShaderStreamOutTable = 0,
       copyShaderEsGsLdsSize = 0,
       shaderStageMask = {ShaderStageVertex, ShaderStageGeometry, ShaderStageFragment} \<rparr>"

text \<open>An export call of the geometry shader: location 5, component 0, stream 0.\<close>

definition sampleUser :: "llvm_type \<Rightarrow> GsExportUser" where
  "sampleUser t =
     \<lparr> isCallInGsEntryPoint = True, numArgOperands = 4,
       operand0 = 5, operand1 = 0, operand2 = 0, outputTy = t \<rparr>"

text \<open>The output location map sends location 5 of stream 0 to location 1.\<close>

definition sampleScanState :: CopyShaderState where
  "sampleScanState = sampleState\<lparr> outputLocMap := [(GsOutLocInfo 5 False 0, 1)] \<rparr>"

text \<open>
  The geometry shader exports location 5 of stream 0 as a \<open>float\<close>, and the output
  location map has no entry for it.
\<close>

definition unmappedExportState :: CopyShaderState where
  "unmappedExportState = sampleState\<lparr> gsExportUsers := Some [sampleUser FloatTy] \<rparr>"

text \<open>Transform feedback is enabled and the output location map is empty.\<close>

definition xfbNoMapState :: CopyShaderState where
  "xfbNoMapState = sampleState\<lparr> enableXfb := True \<rparr>"

text \<open>
  Geometry shaders on chip with no recorded generic or built-in outputs: one with outputs
  counted in streams 0 and 2 and transform feedback enabled, one with outputs counted in
  stream 2 only and no transform feedback, one with no outputs counted in any stream and
  transform feedback enabled.
\<close>

definition twoStreamState :: CopyShaderState where
  "twoStreamState =
     sampleState\<lparr> isGsOnChip := True, enableXfb := True,
                   outLocCount := (\<lambda>i. if i = 0 \<or> i = 2 then 1 else 0) \<rparr>"

definition oneStreamState :: CopyShaderState where
  "oneStreamState =
     sampleState\<lparr> isGsOnChip := True, outLocCount := (\<lambda>i. if i = 2 then 1 else 0) \<rparr>"




text \<open>The export of the dummy position to the rasterizer.\<close>

definition dummyPositionExport :: instruction where
  "dummyPositionExport =
     Instruction (CallOp (OutputExportBuiltIn BuiltInPosition [IntegerTy 32, VectorTy FloatTy 4]))
       VoidTy [ConstantInt32 0, dummyPosition] []"

text \<open>The members of the pass for a geometry shader on chip.\<close>

definition onChipMembers :: PassMembers where
  "onChipMembers = \<lparr>m_pLds = Some (ldsVariable sampleState), m_pGsVsRingBufDesc = None\<rparr>"

text \<open>
  A geometry shader on the ring buffer with one output of two dwords at location 1 of
  stream 0, the rasterization stream; the descriptor of the ring is the one loaded at the
  start of the entry block.
\<close>

definition ringTwoDwordState :: CopyShaderState where
  "ringTwoDwordState =
     sampleState\<lparr> outLocCount := (\<lambda>i. if i = 0 then 1 else 0),
                   genericOutByteSizes := (\<lambda>i. if i = 0 then [(1, [8, 0, 0, 0])] else []) \<rparr>"

definition ringMembers :: PassMembers where
  "ringMembers =
     \<lparr>m_pLds = None, m_pGsVsRingBufDesc = Some (snd (LoadGsVsRingBufferDescriptor sampleDecls))\<rparr>"

text \<open>
  A geometry shader on chip with transform feedback: location 5 of stream 0 is mapped to
  location 1 and goes to buffer 0 as a 16-bit output. In the first state the output has one
  component (4 bytes in the ring), in the second two components (8 bytes).
\<close>

definition xfb16State :: CopyShaderState where
  "xfb16State =
     sampleState\<lparr> isGsOnChip := True, enableXfb := True,
                   outLocCount := (\<lambda>i. if i = 0 then 1 else 0),
                   outputLocMap := [(GsOutLocInfo 5 False 0, 1)],
                   xfbOutsInfo := (\<lambda>k. if k = GsOutLocInfo 5 False 0
                                        then Some \<lparr>xfbBuffer = 0, xfbOffset = 0,
                                                    xfbExtraOffset = 0, is16bit = True\<rparr>
                                        else None),
                   genericOutByteSizes := (\<lambda>i. if i = 0 then [(1, [4, 0, 0, 0])] else []) \<rparr>"

definition xfb16VectorState :: CopyShaderState where
  "xfb16VectorState =
     xfb16State\<lparr> genericOutByteSizes := (\<lambda>i. if i = 0 then [(1, [4, 4, 0, 0])] else []) \<rparr>"

section \<open>Properties of the fetch shader's cache key\<close>

lemma bytesOfU32_recombine:
  "(ucast (ucast w :: byte) :: u32) OR push_bit 8 (ucast (ucast (drop_bit 8 w) :: byte))
     OR push_bit 16 (ucast (ucast (drop_bit 16 w) :: byte))
     OR push_bit 24 (ucast (ucast (drop_bit 24 w) :: byte)) = w"
proof (rule bit_word_eqI)
  fix n assume n: "n < LENGTH(32)"
  consider "n < 8" | "8 \<le> n" "n < 16" | "16 \<le> n" "n < 24" | "24 \<le> n" by linarith
  then show "bit ((ucast (ucast w :: byte) :: u32) OR push_bit 8 (ucast (ucast (drop_bit 8 w) :: byte))
     OR push_bit 16 (ucast (ucast (drop_bit 16 w) :: byte))
     OR push_bit 24 (ucast (ucast (drop_bit 24 w) :: byte))) n = bit w n"
    using n by cases (auto simp add: bit_simps)
qed

lemma bytesOfU32_inj: "bytesOfU32 a = bytesOfU32 b \<Longrightarrow> a = b"
  unfolding bytesOfU32_def by (metis bytesOfU32_recombine list.inject)

lemma length_bytesOfU32: "length (bytesOfU32 w) = 4"
  by (simp add: bytesOfU32_def)

lemma of_char_byte_inj:
  assumes "(of_char c :: byte) = of_char d"
  shows "c = d"
proof -
  have "unat (of_nat (of_char c :: nat) :: byte) = unat (of_nat (of_char d :: nat) :: byte)"
    using assms by (simp only: of_nat_of_char)
  then have "(of_char c :: nat) = of_char d"
    by (simp add: unat_of_nat)
  then show ?thesis by (rule of_char_eqI)
qed

lemma bytesOfString_prefix:
  "prefix (bytesOfString s) (bytesOfString t) \<Longrightarrow> prefix s t"
  unfolding bytesOfString_def
proof (induction s arbitrary: t)
  case Nil
  then show ?case by simp
next
  case (Cons c s)
  then show ?case by (cases t) (auto dest: of_char_byte_inj)
qed

lemma fetchInfoBytes_separate:
  assumes names: "ty a \<noteq> ty b \<Longrightarrow> \<not> prefix (tn (ty a)) (tn (ty b)) \<and> \<not> prefix (tn (ty b)) (tn (ty a))"
    and eq: "fetchInfoBytes tn a @ X = fetchInfoBytes tn b @ Y"
  shows "a = b"
proof -
  have split4: "\<And>u v (P::byte list) Q. bytesOfU32 u @ P = bytesOfU32 v @ Q
            \<Longrightarrow> bytesOfU32 u = bytesOfU32 v \<and> P = Q"
    by (rule append_eq_append_conv[THEN iffD1]) (simp add: length_bytesOfU32)
  from eq have "bytesOfU32 (location a) @ (bytesOfU32 (component a) @ bytesOfString (tn (ty a)) @ X)
              = bytesOfU32 (location b) @ (bytesOfU32 (component b) @ bytesOfString (tn (ty b)) @ Y)"
    unfolding fetchInfoBytes_def append_assoc .
  from split4[OF this] have loc: "bytesOfU32 (location a) = bytesOfU32 (location b)"
    and rest1: "bytesOfU32 (component a) @ (bytesOfString (tn (ty a)) @ X)
                = bytesOfU32 (component b) @ (bytesOfString (tn (ty b)) @ Y)"
    by blast+
  from split4[OF rest1] have comp: "bytesOfU32 (component a) = bytesOfU32 (component b)"
    and rest2: "bytesOfString (tn (ty a)) @ X = bytesOfString (tn (ty b)) @ Y"
    by blast+
  from rest2 have "prefix (bytesOfString (tn (ty a))) (bytesOfString (tn (ty b)))
                 \<or> prefix (bytesOfString (tn (ty b))) (bytesOfString (tn (ty a)))"
    by (metis append_eq_append_conv2 prefixI)
  then have "prefix (tn (ty a)) (tn (ty b)) \<or> prefix (tn (ty b)) (tn (ty a))"
    by (auto dest: bytesOfString_prefix)
  then have pre: "prefix (tn (ty a)) (tn (ty b)) \<or> prefix (tn (ty b)) (tn (ty a))" .
  have "ty a = ty b"
    using names pre by blast
  moreover from loc have "location a = location b" by (rule bytesOfU32_inj)
  moreover from comp have "component a = component b" by (rule bytesOfU32_inj)
  ultimately show ?thesis by (intro VertexFetchInfo.equality) simp_all
qed

lemma first_difference:
  "i < length xs \<Longrightarrow> i < length ys \<Longrightarrow> xs ! i \<noteq> ys ! i
   \<Longrightarrow> \<exists>p a b r s. xs = p @ a # r \<and> ys = p @ b # s \<and> a \<noteq> b"
proof (induction xs arbitrary: ys i)
  case Nil
  then show ?case by simp
next
  case (Cons x xs)
  then obtain y ys' where ys: "ys = y # ys'" by (cases ys) auto
  show ?case
  proof (cases "x = y")
    case False
    with ys show ?thesis by blast
  next
    case True
    with Cons.prems ys obtain j where "i = Suc j" by (cases i) auto
    with Cons.prems ys have "j < length xs" "j < length ys'" "xs ! j \<noteq> ys' ! j" by auto
    from Cons.IH[OF this] obtain p a b r s where "xs = p @ a # r" "ys' = p @ b # s" "a \<noteq> b" by blast
    with True ys have "x # xs = (x # p) @ a # r \<and> ys = (x # p) @ b # s \<and> a \<noteq> b" by simp
    then show ?thesis by blast
  qed
qed

lemma fetchShaderString_eq:
  "fetchShaderString tn rb db ps fs reg =
     concat (map (fetchInfoBytes tn) fs) @ rb reg
       @ concat (map (\<lambda>f. descriptionBytes db (memory ps) (findVertexInputDescription ps (location f))) fs)"
  by (simp add: fetchShaderString_def getString_def FetchShader_ctor_def shaderStringOf_def Let_def comp_def)

lemma string_differs_at_position:
  assumes names: "distinguishableNames tn fsA fsB"
    and i: "i < length fsA" "i < length fsB" "fsA ! i \<noteq> fsB ! i"
  shows "fetchShaderString tn rb db psA fsA regA \<noteq> fetchShaderString tn rb db psB fsB regB"
proof
  assume eq: "fetchShaderString tn rb db psA fsA regA = fetchShaderString tn rb db psB fsB regB"
  from first_difference[OF i] obtain p a b r s
    where A: "fsA = p @ a # r" and B: "fsB = p @ b # s" and ab: "a \<noteq> b" by blast
  have n: "ty a \<noteq> ty b \<Longrightarrow> \<not> prefix (tn (ty a)) (tn (ty b)) \<and> \<not> prefix (tn (ty b)) (tn (ty a))"
    using names unfolding distinguishableNames_def A B by simp
  from eq have "a = b"
    unfolding fetchShaderString_eq A B
    apply simp
    apply (erule fetchInfoBytes_separate[OF n, rotated])
    apply assumption
    done
  with ab show False by simp
qed

lemma length_fetchInfoBytes: "8 \<le> length (fetchInfoBytes tn f)"
  by (simp add: fetchInfoBytes_def length_bytesOfU32)

lemma string_longer:
  assumes "e \<noteq> []"
  shows "length (fetchShaderString tn rb db ps fs reg) < length (fetchShaderString tn rb db ps (fs @ e) reg)"
proof -
  from assms obtain x xs where e: "e = x # xs" by (cases e) auto
  have "0 < length (fetchInfoBytes tn x)"
    using length_fetchInfoBytes[of tn x] by linarith
  then show ?thesis
    unfolding fetchShaderString_eq e by simp
qed

lemma no_difference_prefix:
  assumes "\<forall>i. i < length xs \<and> i < length ys \<longrightarrow> xs ! i = ys ! i" and "length xs \<le> length ys"
  shows "ys = xs @ drop (length xs) ys"
proof -
  from assms have "take (length xs) ys = xs"
    by (intro nth_equalityI) auto
  then show ?thesis by (metis append_take_drop_id)
qed

text \<open>
  Claim C1, as stated, fails: \<open>getString\<close> copies the \<open>sizeof\<close> bytes of the register
  structure, padding bytes included. The two fetch shaders below are constructed from the
  same fetch list, the same pipeline state and register structures with the same value in
  every field, and their strings differ in the padding bytes.
\<close>

theorem getString_padding_changes_string:
  "sameFields sampleRegInfo sampleRegInfoStale
   \<and> fetchShaderString sampleTypeName VsEntryRegInfo_bytes VertexInputDescription_bytes
         samplePipelineA sampleFetches sampleRegInfo
     \<noteq> fetchShaderString sampleTypeName VsEntryRegInfo_bytes VertexInputDescription_bytes
         samplePipelineA sampleFetches sampleRegInfoStale"
  by (simp add: sameFields_def fetchShaderString_eq sampleRegInfoStale_def sampleRegInfo_def
        VsEntryRegInfo_bytes_def)

text \<open>
  Claim C1, amended. Two fetch shaders constructed from the same fetch list return the
  same string from \<open>getString\<close>, wherever the input structures are stored, when the objects
  that \<open>getString\<close> copies have the same bytes, padding included: the register structures
  held by the two fetch shaders, and for every fetch the descriptions of its location in
  the two pipeline states (or the location has a description in neither). The string holds
  the bytes of the pointees and no pointer.
\<close>

theorem getString_equal_representations:
  assumes regs: "rb (m_vsEntryRegInfo (FetchShader_ctor psA fetches regA))
                 = rb (m_vsEntryRegInfo (FetchShader_ctor psB fetches regB))"
    and descs: "\<forall>fetch \<in> set fetches.
             map_option (\<lambda>p. db (memory psA p)) (findVertexInputDescription psA (location fetch))
           = map_option (\<lambda>p. db (memory psB p)) (findVertexInputDescription psB (location fetch))"
  shows "fetchShaderString tn rb db psA fetches regA = fetchShaderString tn rb db psB fetches regB"
proof -
  have "descriptionBytes db (memory psA) (findVertexInputDescription psA (location f))
      = descriptionBytes db (memory psB) (findVertexInputDescription psB (location f))"
    if "f \<in> set fetches" for f
  proof -
    from descs that
    have "map_option (\<lambda>p. db (memory psA p)) (findVertexInputDescription psA (location f))
        = map_option (\<lambda>p. db (memory psB p)) (findVertexInputDescription psB (location f))"
      by blast
    then show ?thesis
      by (cases "findVertexInputDescription psA (location f)";
          cases "findVertexInputDescription psB (location f)")
         (simp_all add: descriptionBytes_def)
  qed
  then have "map (\<lambda>f. descriptionBytes db (memory psA) (findVertexInputDescription psA (location f))) fetches
           = map (\<lambda>f. descriptionBytes db (memory psB) (findVertexInputDescription psB (location f))) fetches"
    by simp
  moreover from regs have "rb regA = rb regB" by (simp add: FetchShader_ctor_def)
  ultimately show ?thesis by (simp only: fetchShaderString_eq)
qed

theorem getString_equal_representations_witness:
  "findVertexInputDescription samplePipelineA 0 \<noteq> findVertexInputDescription samplePipelineB 0
   \<and> fetchShaderString sampleTypeName VsEntryRegInfo_bytes VertexInputDescription_bytes
         samplePipelineA sampleFetches sampleRegInfo
     = fetchShaderString sampleTypeName VsEntryRegInfo_bytes VertexInputDescription_bytes
         samplePipelineB sampleFetches sampleRegInfo"
proof -
  have regs: "VsEntryRegInfo_bytes (m_vsEntryRegInfo (FetchShader_ctor samplePipelineA sampleFetches sampleRegInfo))
            = VsEntryRegInfo_bytes (m_vsEntryRegInfo (FetchShader_ctor samplePipelineB sampleFetches sampleRegInfo))"
    by (simp add: FetchShader_ctor_def)
  have descs: "\<forall>fetch \<in> set sampleFetches.
       map_option (\<lambda>p. VertexInputDescription_bytes (memory samplePipelineA p))
         (findVertexInputDescription samplePipelineA (location fetch))
     = map_option (\<lambda>p. VertexInputDescription_bytes (memory samplePipelineB p))
         (findVertexInputDescription samplePipelineB (location fetch))"
    by (simp add: sampleFetches_def samplePipelineA_def samplePipelineB_def)
  have "findVertexInputDescription samplePipelineA 0 \<noteq> findVertexInputDescription samplePipelineB 0"
    by (simp add: samplePipelineA_def samplePipelineB_def)
  with getString_equal_representations[OF regs descs] show ?thesis by blast
qed

text \<open>
  Claim C2, as stated, fails: the string has no length fields, so the record of an
  additional fetch can be read as the beginning of the register structure. The two fetch
  lists below differ (the second has one more triple) and the strings are equal.
\<close>

theorem getString_collision:
  "collidingFetchesA \<noteq> collidingFetchesB
   \<and> distinguishableNames sampleTypeName collidingFetchesA collidingFetchesB
   \<and> fetchShaderString sampleTypeName VsEntryRegInfo_bytes VertexInputDescription_bytes
         collidingPipelineA collidingFetchesA collidingRegInfoA
     = fetchShaderString sampleTypeName VsEntryRegInfo_bytes VertexInputDescription_bytes
         collidingPipelineB collidingFetchesB sampleRegInfo"
  by (simp add: collidingFetchesA_def collidingFetchesB_def distinguishableNames_def
        fetchShaderString_eq collidingPipelineA_def collidingPipelineB_def collidingRegInfoA_def
        sampleRegInfo_def fetchInfoBytes_def descriptionBytes_def VsEntryRegInfo_bytes_def
        VertexInputDescription_bytes_def bytesOfU32_def bytesOfString_def)

text \<open>
  Claim C2, amended. The strings of two fetch shaders differ whenever the fetch lists
  differ at a position that both lists have, whatever the other inputs are; and whenever
  the fetch lists differ in any way while the register structure and the pipeline state
  are the same. The type names of different types occurring in the two lists must not be
  beginnings of one another.
\<close>

theorem getString_differs:
  assumes names: "distinguishableNames tn fsA fsB"
    and diff: "(\<exists>i. i < length fsA \<and> i < length fsB \<and> fsA ! i \<noteq> fsB ! i)
               \<or> (fsA \<noteq> fsB \<and> regA = regB \<and> psA = psB)"
  shows "fetchShaderString tn rb db psA fsA regA \<noteq> fetchShaderString tn rb db psB fsB regB"
proof (cases "\<exists>i. i < length fsA \<and> i < length fsB \<and> fsA ! i \<noteq> fsB ! i")
  case True
  then show ?thesis using string_differs_at_position[OF names] by blast
next
  case False
  with diff have ne: "fsA \<noteq> fsB" and same: "regA = regB" "psA = psB" by blast+
  from False have agree: "\<forall>i. i < length fsA \<and> i < length fsB \<longrightarrow> fsA ! i = fsB ! i"
    and agree': "\<forall>i. i < length fsB \<and> i < length fsA \<longrightarrow> fsB ! i = fsA ! i" by auto
  show ?thesis
  proof (cases "length fsA \<le> length fsB")
    case True
    from no_difference_prefix[OF agree True] obtain e where e: "fsB = fsA @ e" by blast
    with ne have "e \<noteq> []" by auto
    from string_longer[OF this, of tn rb db psA fsA regA] show ?thesis
      unfolding e same by auto
  next
    case False
    then have "length fsB \<le> length fsA" by simp
    from no_difference_prefix[OF agree' this] obtain e where e: "fsA = fsB @ e" by blast
    with ne have "e \<noteq> []" by auto
    from string_longer[OF this, of tn rb db psB fsB regB] show ?thesis
      unfolding e same by auto
  qed
qed

theorem getString_differs_witness:
  "distinguishableNames sampleTypeName sampleFetches sampleFetchesOther
   \<and> sampleFetches ! 1 \<noteq> sampleFetchesOther ! 1
   \<and> fetchShaderString sampleTypeName VsEntryRegInfo_bytes VertexInputDescription_bytes
         samplePipelineA sampleFetches sampleRegInfo
     \<noteq> fetchShaderString sampleTypeName VsEntryRegInfo_bytes VertexInputDescription_bytes
         samplePipelineB sampleFetchesOther sampleRegInfo"
proof -
  have n: "distinguishableNames sampleTypeName sampleFetches sampleFetchesOther"
    by (simp add: distinguishableNames_def sampleFetches_def sampleFetchesOther_def)
  have d: "sampleFetches ! 1 \<noteq> sampleFetchesOther ! 1"
    by (simp add: sampleFetches_def sampleFetchesOther_def)
  have "(\<exists>i. i < length sampleFetches \<and> i < length sampleFetchesOther
             \<and> sampleFetches ! i \<noteq> sampleFetchesOther ! i)
        \<or> (sampleFetches \<noteq> sampleFetchesOther \<and> sampleRegInfo = sampleRegInfo
             \<and> samplePipelineA = samplePipelineB)"
    using d by (intro disjI1 exI[of _ 1]) (simp add: sampleFetches_def sampleFetchesOther_def)
  from getString_differs[OF n this] n d show ?thesis by blast
qed

section \<open>Properties of the scan of the geometry shader's exports\<close>

lemma replicate_4: "replicate 4 x = [x, x, x, x]"
  by (simp add: eval_nat_numeral)

text \<open>
  The byte size that the scan computes, in \<open>unsigned\<close> arithmetic, is the byte size in the
  words of the specification, reduced modulo \<open>2 ^ 32\<close>.
\<close>

lemma dvd4_unat_mult:
  assumes "4 dvd unat (a :: u32)"
  shows "4 dvd unat (a * b)"
proof -
  have "unat (a * b) = (unat a * unat b) mod 2 ^ 32"
    by (simp add: unat_word_ariths)
  moreover have "(4::nat) dvd 2 ^ 32" by simp
  moreover from assms have "4 dvd unat a * unat b" by simp
  ultimately show ?thesis by (simp add: dvd_mod_iff)
qed

lemma outputByteSize_expand:
  "outputByteSize t =
     (if getScalarSizeInBits t < 32 then 32 else getScalarSizeInBits t) div 8
       * of_nat (componentCount t)"
  by (cases t) (simp_all add: outputByteSize_def componentCount_def Let_def)

lemma outputByteSize_aligned:
  assumes "supportedWidth t"
  shows "4 dvd unat (outputByteSize t)"
proof -
  define bw where "bw = getScalarSizeInBits t"
  have "4 dvd unat ((if bw < 32 then 32 else bw) div 8)"
  proof (cases "bw < 32")
    case True
    then show ?thesis by simp
  next
    case False
    with assms have "32 dvd unat bw" unfolding supportedWidth_def bw_def by simp
    then obtain k where k: "unat bw = 32 * k" by (auto simp: dvd_def)
    have "unat (bw div 8) = unat bw div 8" by (simp add: unat_div)
    with k have "unat (bw div 8) = 4 * k" by simp
    with False show ?thesis by simp
  qed
  then show ?thesis unfolding outputByteSize_expand bw_def by (rule dvd4_unat_mult)
qed

lemma outputByteSize_spec:
  "outputByteSize t
     = of_nat (spec_widenedByteSize (unat (getScalarSizeInBits t)) (componentCount t))"
proof -
  define bw where "bw = getScalarSizeInBits t"
  have w: "(if bw < 32 then 32 else bw) = of_nat (max 32 (unat bw))"
  proof (cases "bw < 32")
    case True
    then have "unat bw < 32" by (simp add: word_less_nat_alt)
    with True show ?thesis by (simp add: max_def)
  next
    case False
    then have "32 \<le> unat bw" by (simp add: word_less_nat_alt)
    with False show ?thesis by (simp add: max_def)
  qed
  have m: "max 32 (unat bw) < 2 ^ 32"
    using unsigned_less[of bw, where 'a = nat] by (simp add: max_def)
  have "(of_nat (max 32 (unat bw)) :: u32) div 8 = of_nat (max 32 (unat bw) div 8)"
  proof -
    have d: "max 32 (unat bw) div 8 < 2 ^ 32" using m by simp
    have "unat ((of_nat (max 32 (unat bw)) :: u32) div 8) = max 32 (unat bw) div 8"
      using m by (simp add: unat_div unat_of_nat)
    moreover have "unat (of_nat (max 32 (unat bw) div 8) :: u32) = max 32 (unat bw) div 8"
      using d by (simp add: unat_of_nat)
    ultimately show ?thesis by (simp only: word_unat_eq_iff)
  qed
  then show ?thesis
    unfolding outputByteSize_expand spec_widenedByteSize_def bw_def[symmetric] w by simp
qed

text \<open>The vector of a location after \<open>resize(4)\<close> and the assignment to one component.\<close>

lemma resize4_aligned:
  assumes "\<forall>b \<in> set v. 4 dvd unat b"
  shows "\<forall>b \<in> set (resize4 v). 4 dvd unat b"
proof
  fix b assume "b \<in> set (resize4 v)"
  then have "b \<in> set (v @ replicate 4 0)" unfolding resize4_def by (rule in_set_takeD)
  with assms show "4 dvd unat b" by auto
qed

lemma length_resize4: "length (resize4 v) = 4"
  by (simp add: resize4_def)

lemma nth_resize4:
  "c < 4 \<Longrightarrow> resize4 v ! c = (if c < length v then v ! c else 0)"
  by (simp add: resize4_def nth_append)

lemma updated_aligned:
  assumes "\<forall>b \<in> set v. 4 dvd unat b" and "4 dvd unat x"
  shows "\<forall>b \<in> set ((resize4 v)[c := x]). 4 dvd unat b"
  using resize4_aligned[OF assms(1)] assms(2)
  by (auto dest!: set_update_subset_insert[THEN subsetD])

lemma setByteSize_aligned:
  assumes old: "\<forall>entry \<in> set m. \<forall>b \<in> set (snd entry). 4 dvd unat b" and x: "4 dvd unat x"
  shows "\<forall>entry \<in> set (setByteSize m loc c x). \<forall>b \<in> set (snd entry). 4 dvd unat b"
proof (cases "loc \<in> fst ` set m")
  case True
  show ?thesis
  proof
    fix entry assume "entry \<in> set (setByteSize m loc c x)"
    with True have "entry \<in> (\<lambda>e. if fst e = loc then (loc, (resize4 (snd e))[c := x]) else e) ` set m"
      by (simp add: setByteSize_def)
    then obtain e where e: "e \<in> set m"
      and entry: "entry = (if fst e = loc then (loc, (resize4 (snd e))[c := x]) else e)"
      by (rule imageE)
    from old e have "\<forall>b \<in> set (snd e). 4 dvd unat b" by blast
    with updated_aligned[OF this x] show "\<forall>b \<in> set (snd entry). 4 dvd unat b"
      by (simp add: entry)
  qed
next
  case False
  have "\<forall>b \<in> set ((resize4 [])[c := x]). 4 dvd unat b"
    by (rule updated_aligned) (simp_all add: x)
  with old False show ?thesis
    by (auto simp: setByteSize_def set_insort_key)
qed

lemma map_of_updated:
  "map_of (map (\<lambda>entry. if fst entry = loc then (loc, g (snd entry)) else entry) m) k
     = (if k = loc then map_option g (map_of m loc) else map_of m k)"
  by (induction m) auto

lemma map_of_insort:
  "loc \<notin> fst ` set m \<Longrightarrow>
   map_of (insort_key fst (loc, x) m) k = (if k = loc then Some x else map_of m k)"
  by (induction m) auto

lemma map_of_setByteSize:
  "map_of (setByteSize m loc c x) k
     = (if k = loc
        then Some ((resize4 (case map_of m loc of None \<Rightarrow> [] | Some v \<Rightarrow> v))[c := x])
        else map_of m k)"
proof (cases "loc \<in> fst ` set m")
  case True
  then obtain v where v: "map_of m loc = Some v"
    by (metis domD dom_map_of_conv_image_fst)
  from True show ?thesis
    by (simp add: setByteSize_def map_of_updated[where g = "\<lambda>v. (resize4 v)[c := x]"] v)
next
  case False
  then have "map_of m loc = None" by (simp add: map_of_eq_None_iff)
  with False show ?thesis
    by (simp add: setByteSize_def map_of_insort)
qed

text \<open>
  One iteration of the scan: a user that is no call of the entry point, or whose location
  is not mapped, leaves the state as it is; every other user writes one slot.
\<close>

lemma collectUser_step:
  assumes run: "collectUser st u = Inr st1" and rec: "recordsAt st u s l c"
  shows "st1 = st\<lparr>genericOutByteSizes :=
            (genericOutByteSizes st)(s := setByteSize (genericOutByteSizes st s) l c
               (outputByteSize (outputTy u)))\<rparr>"
    and "c < 4" and "s < MaxGsStreams"
proof -
  from rec have call: "isCallInGsEntryPoint u"
    and key: "map_of (outputLocMap st) (GsOutLocInfo (operand0 u) False (operand2 u)) = Some l"
    and s: "unat (operand2 u) = s" and c: "unat (operand1 u) = c"
    by (simp_all add: recordsAt_def)
  from run call key have c4: "operand1 u < 4" and s4: "unat (operand2 u) < MaxGsStreams"
    and st1: "st1 = st\<lparr>genericOutByteSizes :=
        (genericOutByteSizes st)(unat (operand2 u) :=
           setByteSize (genericOutByteSizes st (unat (operand2 u))) l (unat (operand1 u))
             (outputByteSize (outputTy u)))\<rparr>"
    by (auto simp: collectUser_def Let_def split: if_splits)
  from c4 have "unat (operand1 u) < 4" by (simp add: word_less_nat_alt)
  then show "c < 4" by (simp add: c)
  from s4 show "s < MaxGsStreams" by (simp add: s)
  from st1 show "st1 = st\<lparr>genericOutByteSizes :=
            (genericOutByteSizes st)(s := setByteSize (genericOutByteSizes st s) l c
               (outputByteSize (outputTy u)))\<rparr>"
    by (simp add: s c)
qed

lemma collectUser_skip:
  assumes run: "collectUser st u = Inr st1" and no: "\<forall>s l c. \<not> recordsAt st u s l c"
  shows "st1 = st"
proof -
  from no have "\<not> isCallInGsEntryPoint u
      \<or> map_of (outputLocMap st) (GsOutLocInfo (operand0 u) False (operand2 u)) = None"
    by (cases "map_of (outputLocMap st) (GsOutLocInfo (operand0 u) False (operand2 u))")
       (auto simp: recordsAt_def)
  with run show ?thesis
    by (auto simp: collectUser_def split: if_splits)
qed

lemma collectUser_slots:
  assumes run: "collectUser st u = Inr st1" and rec: "recordsAt st u s l c"
  shows "recordedByteSize st1 s' l' c' =
           (if s' = s \<and> l' = l
            then (if c' = c then Some (outputByteSize (outputTy u))
                  else if c' < 4
                       then Some (case recordedByteSize st s l c' of None \<Rightarrow> 0 | Some b \<Rightarrow> b)
                       else None)
            else recordedByteSize st s' l' c')"
proof -
  note step = collectUser_step[OF run rec]
  show ?thesis
  proof (cases "s' = s \<and> l' = l")
    case False
    then show ?thesis
      by (auto simp: recordedByteSize_def step(1) map_of_setByteSize)
  next
    case True
    define v where "v = (case map_of (genericOutByteSizes st s) l of None \<Rightarrow> [] | Some v \<Rightarrow> v)"
    have new: "recordedByteSize st1 s l c' =
                (if c' < 4 then Some (((resize4 v)[c := outputByteSize (outputTy u)]) ! c') else None)"
      by (simp add: recordedByteSize_def step(1) map_of_setByteSize v_def length_resize4)
    have old: "(case recordedByteSize st s l c' of None \<Rightarrow> 0 | Some b \<Rightarrow> b) = resize4 v ! c'"
      if "c' < 4"
      using that
      by (cases "map_of (genericOutByteSizes st s) l")
         (simp_all add: recordedByteSize_def v_def nth_resize4)
    show ?thesis
    proof (cases "c' = c")
      case True
      from new True step(2)
      have "recordedByteSize st1 s l c' = Some (outputByteSize (outputTy u))"
        by (simp add: length_resize4)
      with \<open>s' = s \<and> l' = l\<close> True show ?thesis by simp
    next
      case False
      with \<open>s' = s \<and> l' = l\<close> show ?thesis
        by (simp add: new old)
    qed
  qed
qed

text \<open>The scan changes \<open>genericOutByteSizes\<close> only.\<close>

lemma collectUser_frame:
  assumes "collectUser st u = Inr st'"
  shows "\<exists>g. st' = st\<lparr>genericOutByteSizes := g\<rparr>"
proof (cases "st' = st")
  case True
  then have "st' = st\<lparr>genericOutByteSizes := genericOutByteSizes st\<rparr>" by simp
  then show ?thesis by (intro exI[of _ "genericOutByteSizes st"])
next
  case False
  with assms show ?thesis
    by (auto simp: collectUser_def Let_def split: if_splits option.splits)
qed

lemma Collect_frame:
  "CollectGsGenericOutputInfo st users = Inr st' \<Longrightarrow> \<exists>g. st' = st\<lparr>genericOutByteSizes := g\<rparr>"
proof (induction users arbitrary: st)
  case Nil
  then have "st' = st\<lparr>genericOutByteSizes := genericOutByteSizes st\<rparr>" by simp
  then show ?case by (intro exI[of _ "genericOutByteSizes st"])
next
  case (Cons u users)
  from Cons.prems obtain st1 where 1: "collectUser st u = Inr st1"
    and 2: "CollectGsGenericOutputInfo st1 users = Inr st'"
    by (auto split: sum.splits)
  from collectUser_frame[OF 1] obtain g1 where a: "st1 = st\<lparr>genericOutByteSizes := g1\<rparr>" ..
  from Cons.IH[OF 2] obtain g2 where b: "st' = st1\<lparr>genericOutByteSizes := g2\<rparr>" ..
  have "st' = st\<lparr>genericOutByteSizes := g2\<rparr>" unfolding b a by simp
  then show ?case by (intro exI[of _ g2])
qed

lemma recordsAt_frame:
  "recordsAt (st\<lparr>genericOutByteSizes := g\<rparr>) u s l c = recordsAt st u s l c"
  by (simp add: recordsAt_def)

lemma collectUser_aligned:
  assumes run: "collectUser st u = Inr st'" and w: "supportedWidth (outputTy u)"
    and old: "byteSizesAligned st"
  shows "byteSizesAligned st'"
proof (cases "\<exists>s l c. recordsAt st u s l c")
  case False
  with collectUser_skip[OF run] old show ?thesis by simp
next
  case True
  then obtain s l c where rec: "recordsAt st u s l c" by blast
  note step = collectUser_step[OF run rec]
  show ?thesis
    unfolding byteSizesAligned_def
  proof (intro ballI)
    fix s' entry b
    assume s': "s' \<in> {0..<MaxGsStreams}" and entry: "entry \<in> set (genericOutByteSizes st' s')"
      and b: "b \<in> set (snd entry)"
    from old s' have o: "\<forall>entry \<in> set (genericOutByteSizes st s'). \<forall>b \<in> set (snd entry). 4 dvd unat b"
      unfolding byteSizesAligned_def by blast
    show "4 dvd unat b"
    proof (cases "s' = s")
      case True
      with entry have "entry \<in> set (setByteSize (genericOutByteSizes st s') l c
             (outputByteSize (outputTy u)))" by (simp add: step(1))
      with setByteSize_aligned[OF o outputByteSize_aligned[OF w]] b show ?thesis by blast
    next
      case False
      with entry have "entry \<in> set (genericOutByteSizes st s')" by (simp add: step(1))
      with o b show ?thesis by blast
    qed
  qed
qed

lemma Collect_aligned:
  "CollectGsGenericOutputInfo st users = Inr st' \<Longrightarrow> \<forall>u \<in> set users. supportedWidth (outputTy u)
   \<Longrightarrow> byteSizesAligned st \<Longrightarrow> byteSizesAligned st'"
proof (induction users arbitrary: st)
  case Nil
  then show ?case by simp
next
  case (Cons u users)
  from Cons.prems(1) obtain st1 where 1: "collectUser st u = Inr st1"
    and 2: "CollectGsGenericOutputInfo st1 users = Inr st'"
    by (auto split: sum.splits)
  from collectUser_aligned[OF 1] Cons.prems have "byteSizesAligned st1" by simp
  with Cons.IH[OF 2] Cons.prems show ?case by simp
qed

lemma collectUser_keep:
  assumes run: "collectUser st u = Inr st1" and other: "\<not> recordsAt st u s l c"
    and old: "recordedByteSize st s l c = Some b" and c: "c < 4"
  shows "recordedByteSize st1 s l c = Some b"
proof (cases "\<exists>s' l' c'. recordsAt st u s' l' c'")
  case False
  with collectUser_skip[OF run] old show ?thesis by simp
next
  case True
  then obtain s' l' c' where rec: "recordsAt st u s' l' c'" by blast
  with other have "\<not> (s = s' \<and> l = l' \<and> c = c')" by auto
  with old c show ?thesis
    unfolding collectUser_slots[OF run rec] by auto
qed

lemma Collect_keep:
  "CollectGsGenericOutputInfo st users = Inr st' \<Longrightarrow> \<forall>u \<in> set users. \<not> recordsAt st u s l c
   \<Longrightarrow> recordedByteSize st s l c = Some b \<Longrightarrow> c < 4 \<Longrightarrow> recordedByteSize st' s l c = Some b"
proof (induction users arbitrary: st)
  case Nil
  then show ?case by simp
next
  case (Cons u users)
  from Cons.prems(1) obtain st1 where 1: "collectUser st u = Inr st1"
    and 2: "CollectGsGenericOutputInfo st1 users = Inr st'"
    by (auto split: sum.splits)
  from collectUser_frame[OF 1] obtain g where g: "st1 = st\<lparr>genericOutByteSizes := g\<rparr>" ..
  from Cons.prems(2) have "\<not> recordsAt st u s l c" by simp
  from collectUser_keep[OF 1 this Cons.prems(3,4)] have k: "recordedByteSize st1 s l c = Some b" .
  from Cons.prems(2) have "\<forall>u \<in> set users. \<not> recordsAt st1 u s l c"
    by (simp add: g recordsAt_frame)
  from Cons.IH[OF 2 this k Cons.prems(4)] show ?case .
qed

lemma Collect_append:
  "CollectGsGenericOutputInfo st (xs @ ys) = Inr st'
   \<Longrightarrow> \<exists>stm. CollectGsGenericOutputInfo st xs = Inr stm \<and> CollectGsGenericOutputInfo stm ys = Inr st'"
  by (induction xs arbitrary: st) (auto split: sum.splits)

lemma Collect_last_writer:
  assumes run: "CollectGsGenericOutputInfo st (before @ u # after) = Inr st2"
    and rec: "recordsAt st u s l c"
    and last: "\<forall>u' \<in> set after. \<not> recordsAt st u' s l c"
  shows "recordedByteSize st2 s l c = Some (outputByteSize (outputTy u))"
proof -
  from Collect_append[OF run] obtain stm where
    b: "CollectGsGenericOutputInfo st before = Inr stm"
    and r: "CollectGsGenericOutputInfo stm (u # after) = Inr st2" by blast
  from r obtain st1 where 1: "collectUser stm u = Inr st1"
    and 2: "CollectGsGenericOutputInfo st1 after = Inr st2"
    by (auto split: sum.splits)
  from Collect_frame[OF b] obtain g where g: "stm = st\<lparr>genericOutByteSizes := g\<rparr>" ..
  from collectUser_frame[OF 1] obtain g1 where g1: "st1 = stm\<lparr>genericOutByteSizes := g1\<rparr>" ..
  from rec have rec': "recordsAt stm u s l c" by (simp add: g recordsAt_frame)
  from collectUser_slots[OF 1 rec', of s l c]
  have v: "recordedByteSize st1 s l c = Some (outputByteSize (outputTy u))" by simp
  from last have "\<forall>u' \<in> set after. \<not> recordsAt st1 u' s l c"
    by (simp add: g1 g recordsAt_frame)
  from Collect_keep[OF 2 this v collectUser_step(2)[OF 1 rec']] show ?thesis .
qed

lemma outputByteSize_narrow:
  "outputByteSize (IntegerTy 8) = 4" "outputByteSize (IntegerTy 16) = 4" "outputByteSize HalfTy = 4"
  by (simp_all add: outputByteSize_def)

lemmas sampleScan_defs =
  collectUser_def sampleScanState_def sampleState_def sampleUser_def outputByteSize_def
  MaxGsStreams_def resize4_def replicate_4 setByteSize_def

lemma sampleScan_result:
  "CollectGsGenericOutputInfo sampleScanState
       [sampleUser (IntegerTy 8), (sampleUser (VectorTy FloatTy 2))\<lparr>operand1 := 1\<rparr>]
     = Inr (sampleScanState\<lparr>genericOutByteSizes := (\<lambda>i. [])(0 := [(1, [4, 8, 0, 0])])\<rparr>)"
  by (simp add: sampleScan_defs)

text \<open>
  Claim C4, as stated, fails: only widths below 32 bits are widened, and a width that is
  no multiple of 32 bits is recorded with its own byte size. The scan of one export of an
  \<open>i48\<close> value succeeds and records 6 bytes.
\<close>

theorem i48_output_recorded_as_6_bytes:
  "\<not> isl (CollectGsGenericOutputInfo sampleScanState [sampleUser (IntegerTy 48)])
   \<and> recordedByteSize
        (projr (CollectGsGenericOutputInfo sampleScanState [sampleUser (IntegerTy 48)])) 0 1 0
      = Some 6
   \<and> \<not> byteSizesAligned
          (projr (CollectGsGenericOutputInfo sampleScanState [sampleUser (IntegerTy 48)]))"
proof -
  let ?st' = "sampleScanState\<lparr>genericOutByteSizes := (\<lambda>i. [])(0 := [(1, [6, 0, 0, 0])])\<rparr>"
  have run: "CollectGsGenericOutputInfo sampleScanState [sampleUser (IntegerTy 48)] = Inr ?st'"
    by (simp add: sampleScan_defs)
  have rec: "recordedByteSize ?st' 0 1 0 = Some 6"
    by (simp add: recordedByteSize_def)
  have "\<not> (\<forall>b \<in> set (snd (1 :: u32, [6, 0, 0, 0 :: u32])). 4 dvd unat b)"
    by simp
  moreover have "(1, [6, 0, 0, 0]) \<in> set (genericOutByteSizes ?st' 0)" by simp
  moreover have "(0::nat) \<in> {0..<MaxGsStreams}" by (simp add: MaxGsStreams_def)
  ultimately have "\<not> byteSizesAligned ?st'"
    unfolding byteSizesAligned_def by blast
  with run rec show ?thesis by simp
qed

text \<open>
  Claim C4, amended. The scan keeps every byte size in \<open>genericOutByteSizes\<close> a multiple of 4
  provided the component widths of the exported values are below 32 bits or multiples of
  32 bits. The slot of an export call (stream, mapped location, component) holds, after
  the scan, the byte size of the last call that wrote it: the component width, widened to
  32 bits when it is below, in bytes, times the number of components. One iteration writes
  this slot only: the other three components of the location keep their value (0 for a
  location that is new), every other location and stream is as before, and a user that
  records nothing leaves the state unchanged. A single 8-bit or 16-bit component is
  recorded as 4 bytes.
\<close>

theorem genericOutByteSizes_dword_slots:
  "(CollectGsGenericOutputInfo st users = Inr st' \<and> (\<forall>u \<in> set users. supportedWidth (outputTy u))
      \<and> byteSizesAligned st \<longrightarrow> byteSizesAligned st')
   \<and> (CollectGsGenericOutputInfo st (before @ u # after) = Inr st2 \<and> recordsAt st u s l c
      \<and> (\<forall>u' \<in> set after. \<not> recordsAt st u' s l c)
      \<longrightarrow> recordedByteSize st2 s l c
            = Some (of_nat (spec_widenedByteSize (unat (getScalarSizeInBits (outputTy u)))
                              (componentCount (outputTy u)))))
   \<and> (collectUser st u = Inr st1 \<and> recordsAt st u s l c
      \<longrightarrow> (\<forall>s' l' c'. recordedByteSize st1 s' l' c' =
             (if s' = s \<and> l' = l
              then (if c' = c
                    then Some (of_nat (spec_widenedByteSize (unat (getScalarSizeInBits (outputTy u)))
                                         (componentCount (outputTy u))))
                    else if c' < 4
                         then Some (case recordedByteSize st s l c' of None \<Rightarrow> 0 | Some b \<Rightarrow> b)
                         else None)
              else recordedByteSize st s' l' c')))
   \<and> (collectUser st u = Inr st1 \<and> (\<forall>s l c. \<not> recordsAt st u s l c) \<longrightarrow> st1 = st)
   \<and> outputByteSize (IntegerTy 8) = 4 \<and> outputByteSize (IntegerTy 16) = 4
   \<and> outputByteSize HalfTy = 4"
  using Collect_aligned[of st users st'] Collect_last_writer[of st before u after st2 s l c]
    collectUser_slots[of st u st1 s l c] collectUser_skip[of st u st1] outputByteSize_narrow
  unfolding outputByteSize_spec[symmetric]
  by blast

theorem genericOutByteSizes_dword_slots_witness:
  "CollectGsGenericOutputInfo sampleScanState
       [sampleUser (IntegerTy 8), (sampleUser (VectorTy FloatTy 2))\<lparr>operand1 := 1\<rparr>]
     = Inr (sampleScanState\<lparr>genericOutByteSizes := (\<lambda>i. [])(0 := [(1, [4, 8, 0, 0])])\<rparr>)
   \<and> byteSizesAligned (sampleScanState\<lparr>genericOutByteSizes := (\<lambda>i. [])(0 := [(1, [4, 8, 0, 0])])\<rparr>)
   \<and> recordedByteSize (sampleScanState\<lparr>genericOutByteSizes := (\<lambda>i. [])(0 := [(1, [4, 8, 0, 0])])\<rparr>) 0 1 0
       = Some 4"
proof -
  let ?st' = "sampleScanState\<lparr>genericOutByteSizes := (\<lambda>i. [])(0 := [(1, [4, 8, 0, 0])])\<rparr>"
  let ?u = "sampleUser (IntegerTy 8)"
  let ?v = "(sampleUser (VectorTy FloatTy 2))\<lparr>operand1 := 1\<rparr>"
  have run: "CollectGsGenericOutputInfo sampleScanState ([] @ ?u # [?v]) = Inr ?st'"
    using sampleScan_result by simp
  have widths: "\<forall>u \<in> set ([] @ ?u # [?v]). supportedWidth (outputTy u)"
    by (simp add: supportedWidth_def sampleUser_def)
  have start: "byteSizesAligned sampleScanState"
    by (simp add: byteSizesAligned_def sampleScanState_def sampleState_def)
  have rec: "recordsAt sampleScanState ?u 0 1 0"
    by (simp add: recordsAt_def sampleScanState_def sampleState_def sampleUser_def)
  have last: "\<forall>u' \<in> set [?v]. \<not> recordsAt sampleScanState u' 0 1 0"
    by (simp add: recordsAt_def sampleUser_def)
  have size: "(of_nat (spec_widenedByteSize (unat (getScalarSizeInBits (outputTy ?u)))
                 (componentCount (outputTy ?u))) :: u32) = 4"
    by (simp add: spec_widenedByteSize_def componentCount_def sampleUser_def)
  from genericOutByteSizes_dword_slots[of sampleScanState "[] @ ?u # [?v]" ?st' "[]" ?u "[?v]" ?st' 0 1 0]
    run widths start rec last
  have "byteSizesAligned ?st'" and "recordedByteSize ?st' 0 1 0
       = Some (of_nat (spec_widenedByteSize (unat (getScalarSizeInBits (outputTy ?u)))
                 (componentCount (outputTy ?u))))"
    by blast+
  with sampleScan_result size show ?thesis by simp
qed

section \<open>Properties of runOnModule\<close>

lemma streams_list: "[0..<MaxGsStreams] = [0, 1, 2, 3]"
  by (simp add: MaxGsStreams_def upt_rec)

lemma prepare_frame:
  assumes "prepareCopyShader D st users = Inr (st2, prologue, this)"
  shows "outLocCount st2 = outLocCount st" and "enableXfb st2 = enableXfb st"
proof -
  from assms obtain st1 where 1: "CollectGsGenericOutputInfo st users = Inr st1"
    by (auto simp: prepareCopyShader_def split: sum.splits)
  from Collect_frame[OF 1] obtain g where g: "st1 = st\<lparr>genericOutByteSizes := g\<rparr>" ..
  from assms have "outLocCount st2 = outLocCount st1 \<and> enableXfb st2 = enableXfb st1"
    unfolding prepareCopyShader_def 1
    by (auto simp: Let_def split: if_splits prod.splits)
  then show "outLocCount st2 = outLocCount st" and "enableXfb st2 = enableXfb st"
    unfolding g by simp_all
qed

lemma activeStreams_cong:
  "outLocCount st2 = outLocCount st \<Longrightarrow> activeStreams st2 = activeStreams st"
  by (simp add: activeStreams_def)

lemma countStreams_active:
  "countStreams st =
     (length (activeStreams st), case activeStreams st of [] \<Rightarrow> InvalidValue | i # _ \<Rightarrow> of_nat i)"
  by (simp add: countStreams_def activeStreams_def streams_list countStream_def InvalidValue_def)

lemma streamCases_all:
  assumes "\<forall>i \<in> set (filter (\<lambda>i. outLocCount st i > 0) xs). ExportOutput D st this (of_nat i) = Inr (exports i)"
  shows "streamCases D st this xs
           = Inr (map (\<lambda>i. (of_nat i, exports i, Br EndBlock)) (filter (\<lambda>i. outLocCount st i > 0) xs))"
  using assms by (induction xs) auto


lemma runOnModule_switch:
  assumes gs: "gsExportUsers st = Some users"
    and prep: "prepareCopyShader D st users = Inr (st2, prologue, this)"
    and multi: "1 < length (activeStreams st)" and xfb: "enableXfb st"
    and ok: "\<forall>i \<in> set (activeStreams st). ExportOutput D st2 this (of_nat i) = Inr (exports i)"
  shows "runOnModule D st =
           Inr (Some \<lparr> argInReg = [True, True, True, True, True, True, True, True, True, True, False],
                       insertedBeforeFs = hasFsEntryPoint st2,
                       entryInsts = prologue @ [streamIdExtract D],
                       entryTerm = Switch (InstValue (streamIdExtract D)) EndBlock
                                     (map (\<lambda>i. (of_nat i, StreamBlock (of_nat i))) (activeStreams st)),
                       streamBlocks = map (\<lambda>i. (of_nat i, exports i, Br EndBlock)) (activeStreams st),
                       endInsts = [], endTerm = RetVoid,
                       stageMetadata = ShaderStageCopyShader \<rparr>,
                st2\<lparr>shaderStageMask := shaderStageMask st2 \<union> {ShaderStageCopyShader}\<rparr>)"
proof -
  note fr = prepare_frame[OF prep]
  have act: "activeStreams st2 = activeStreams st" by (rule activeStreams_cong) (rule fr)
  have cnt: "countStreams st2 = (length (activeStreams st),
               case activeStreams st of [] \<Rightarrow> InvalidValue | i # _ \<Rightarrow> of_nat i)"
    by (simp add: countStreams_active act)
  from ok have "\<forall>i \<in> set (filter (\<lambda>i. outLocCount st2 i > 0) [0..<MaxGsStreams]).
                  ExportOutput D st2 this (of_nat i) = Inr (exports i)"
    using act by (simp add: activeStreams_def)
  from streamCases_all[OF this]
  have sc: "streamCases D st2 this [0..<MaxGsStreams]
              = Inr (map (\<lambda>i. (of_nat i, exports i, Br EndBlock)) (activeStreams st))"
    using act by (simp add: activeStreams_def)
  obtain c i where ci: "countStreams st2 = (c, i)" by (cases "countStreams st2")
  from cnt ci have c: "c = length (activeStreams st)" by simp
  have cond: "1 < c \<and> enableXfb st2"
    using multi xfb by (simp add: c fr)
  show ?thesis
    unfolding runOnModule_def gs
    using cond by (simp add: prep ci Let_def sc emit_def streamIdExtract_def comp_def split del: if_split)
qed

lemma runOnModule_single:
  assumes gs: "gsExportUsers st = Some users"
    and prep: "prepareCopyShader D st users = Inr (st2, prologue, this)"
    and single: "\<not> (1 < length (activeStreams st) \<and> enableXfb st)"
    and ok: "ExportOutput D st2 this (designatedStream st) = Inr insts"
  shows "runOnModule D st =
           Inr (Some \<lparr> argInReg = [True, True, True, True, True, True, True, True, True, True, False],
                       insertedBeforeFs = hasFsEntryPoint st2,
                       entryInsts = prologue @ insts,
                       entryTerm = Br EndBlock,
                       streamBlocks = [],
                       endInsts = [], endTerm = RetVoid,
                       stageMetadata = ShaderStageCopyShader \<rparr>,
                st2\<lparr>shaderStageMask := shaderStageMask st2 \<union> {ShaderStageCopyShader}\<rparr>)"
proof -
  note fr = prepare_frame[OF prep]
  have act: "activeStreams st2 = activeStreams st" by (rule activeStreams_cong) (rule fr)
  have cnt: "countStreams st2 = (length (activeStreams st),
               case activeStreams st of [] \<Rightarrow> InvalidValue | i # _ \<Rightarrow> of_nat i)"
    by (simp add: countStreams_active act)
  obtain c i where ci: "countStreams st2 = (c, i)" by (cases "countStreams st2")
  from cnt ci have c: "c = length (activeStreams st)"
    and i: "i = (case activeStreams st of [] \<Rightarrow> InvalidValue | i # _ \<Rightarrow> of_nat i)" by simp_all
  have cond: "(Suc 0 < c \<and> enableXfb st2) = False"
    using single by (simp add: c fr)
  have id: "(if c = 0 then 0 else i) = designatedStream st"
    unfolding c i by (cases "activeStreams st") (simp_all add: designatedStream_def)
  have ok': "ExportOutput D st2 this (if c = 0 then 0 else i) = Inr insts"
    by (simp only: id ok)
  show ?thesis
    unfolding runOnModule_def gs
    by (simp add: prep ci Let_def ok' cond split del: if_split)
qed

text \<open>
  Claim C3. For a pipeline with a geometry shader: when more than one stream has a nonzero
  output location count and transform feedback is enabled, the entry block ends in a
  switch on the 2-bit field at bit 24 of the stream info parameter, with one case for every
  such stream, in a block of its own that holds the export sequence of the stream and
  branches to the return block, and with the return block as the default target. Otherwise
  the function has no switch and no stream block: the entry block holds the export sequence
  of the designated stream (the first stream with outputs, stream 0 if there is none) and
  branches to the return block. The export sequences are taken to succeed.
\<close>

theorem copy_shader_stream_multiplexing:
  assumes gs: "gsExportUsers st = Some users"
    and prep: "prepareCopyShader D st users = Inr (st2, prologue, this)"
  shows "(1 < length (activeStreams st) \<and> enableXfb st
          \<and> (\<forall>i \<in> set (activeStreams st). ExportOutput D st2 this (of_nat i) = Inr (exports i))
          \<longrightarrow> (\<exists>f st'. runOnModule D st = Inr (Some f, st')
                 \<and> entryInsts f = prologue @ [streamIdExtract D]
                 \<and> entryTerm f = Switch (InstValue (streamIdExtract D)) EndBlock
                                    (map (\<lambda>i. (of_nat i, StreamBlock (of_nat i))) (activeStreams st))
                 \<and> streamBlocks f = map (\<lambda>i. (of_nat i, exports i, Br EndBlock)) (activeStreams st)
                 \<and> endInsts f = [] \<and> endTerm f = RetVoid))
       \<and> (\<not> (1 < length (activeStreams st) \<and> enableXfb st)
          \<and> ExportOutput D st2 this (designatedStream st) = Inr insts
          \<longrightarrow> (\<exists>f st'. runOnModule D st = Inr (Some f, st')
                 \<and> entryInsts f = prologue @ insts
                 \<and> entryTerm f = Br EndBlock
                 \<and> streamBlocks f = []
                 \<and> endInsts f = [] \<and> endTerm f = RetVoid))"
proof (intro conjI impI)
  assume a: "1 < length (activeStreams st) \<and> enableXfb st
          \<and> (\<forall>i \<in> set (activeStreams st). ExportOutput D st2 this (of_nat i) = Inr (exports i))"
  then have "1 < length (activeStreams st)" "enableXfb st"
    "\<forall>i \<in> set (activeStreams st). ExportOutput D st2 this (of_nat i) = Inr (exports i)" by blast+
  from runOnModule_switch[OF gs prep this]
  show "\<exists>f st'. runOnModule D st = Inr (Some f, st')
                 \<and> entryInsts f = prologue @ [streamIdExtract D]
                 \<and> entryTerm f = Switch (InstValue (streamIdExtract D)) EndBlock
                                    (map (\<lambda>i. (of_nat i, StreamBlock (of_nat i))) (activeStreams st))
                 \<and> streamBlocks f = map (\<lambda>i. (of_nat i, exports i, Br EndBlock)) (activeStreams st)
                 \<and> endInsts f = [] \<and> endTerm f = RetVoid"
    by simp
next
  assume a: "\<not> (1 < length (activeStreams st) \<and> enableXfb st)
          \<and> ExportOutput D st2 this (designatedStream st) = Inr insts"
  then have "\<not> (1 < length (activeStreams st) \<and> enableXfb st)"
    "ExportOutput D st2 this (designatedStream st) = Inr insts" by blast+
  from runOnModule_single[OF gs prep this]
  show "\<exists>f st'. runOnModule D st = Inr (Some f, st')
                 \<and> entryInsts f = prologue @ insts
                 \<and> entryTerm f = Br EndBlock
                 \<and> streamBlocks f = []
                 \<and> endInsts f = [] \<and> endTerm f = RetVoid"
    by simp
qed

lemma prepare_onChip_noUsers:
  assumes "isGsOnChip st" "9 \<le> gfxIpMajor st"
  shows "prepareCopyShader D st [] =
           Inr (st\<lparr>copyShaderStreamOutTable := 3, copyShaderEsGsLdsSize := 2\<rparr>, [],
                \<lparr>m_pLds = Some (ldsVariable st), m_pGsVsRingBufDesc = None\<rparr>)"
  using assms by (simp add: prepareCopyShader_def)

lemma ExportOutput_no_outputs:
  assumes "unat streamId < MaxGsStreams" "genericOutByteSizes st (unat streamId) = []"
    and "builtInPairs st = []"
  shows "ExportOutput D st this streamId =
           Inr (if enableXfb st \<and> position (builtInUsage st) = False
                then ExportBuiltInOutput D st dummyPosition BuiltInPosition streamId else [])"
  using assms by (simp add: ExportOutput_def)

lemma sample_builtInPairs:
  "builtInUsage st = builtInUsage sampleState \<Longrightarrow> enableMultiView st = False \<Longrightarrow> builtInPairs st = []"
  by (simp add: builtInPairs_def sampleState_def)

lemma typeOf_dummyPosition: "typeOf dummyPosition = VectorTy FloatTy 4"
  by (simp add: dummyPosition_def)

theorem copy_shader_stream_multiplexing_witness:
  "(\<exists>f st'. runOnModule sampleDecls twoStreamState = Inr (Some f, st')
       \<and> entryInsts f = [streamIdExtract sampleDecls]
       \<and> entryTerm f = Switch (InstValue (streamIdExtract sampleDecls)) EndBlock
                          [(0, StreamBlock 0), (2, StreamBlock 2)]
       \<and> streamBlocks f = [(0, [dummyPositionExport], Br EndBlock), (2, [], Br EndBlock)])
   \<and> (\<exists>f st'. runOnModule sampleDecls oneStreamState = Inr (Some f, st')
       \<and> entryInsts f = [] \<and> entryTerm f = Br EndBlock \<and> streamBlocks f = [])"
proof -
  let ?members = "\<lparr>m_pLds = Some (ldsVariable sampleState), m_pGsVsRingBufDesc = None\<rparr>"
  let ?two = "twoStreamState\<lparr>copyShaderStreamOutTable := 3, copyShaderEsGsLdsSize := 2\<rparr>"
  let ?one = "oneStreamState\<lparr>copyShaderStreamOutTable := 3, copyShaderEsGsLdsSize := 2\<rparr>"
  let ?exports = "\<lambda>i::nat. if i = 0 then [dummyPositionExport] else []"
  have gs2: "gsExportUsers twoStreamState = Some []"
    by (simp add: twoStreamState_def sampleState_def)
  have prep2: "prepareCopyShader sampleDecls twoStreamState [] = Inr (?two, [], ?members)"
    by (simp add: prepare_onChip_noUsers twoStreamState_def sampleState_def)
  have act2: "activeStreams twoStreamState = [0, 2]"
    by (simp add: activeStreams_def streams_list twoStreamState_def sampleState_def)
  have e0: "ExportOutput sampleDecls ?two ?members 0 = Inr [dummyPositionExport]"
    by (simp add: ExportOutput_no_outputs sample_builtInPairs MaxGsStreams_def twoStreamState_def
          sampleState_def ExportBuiltInOutput_def emit_def dummyPositionExport_def sampleDecls_def
          typeOf_dummyPosition)
  have e2: "ExportOutput sampleDecls ?two ?members 2 = Inr []"
    by (simp add: ExportOutput_no_outputs sample_builtInPairs MaxGsStreams_def twoStreamState_def
          sampleState_def ExportBuiltInOutput_def)
  have ok2: "1 < length (activeStreams twoStreamState) \<and> enableXfb twoStreamState
      \<and> (\<forall>i \<in> set (activeStreams twoStreamState).
            ExportOutput sampleDecls ?two ?members (of_nat i) = Inr (?exports i))"
    using e0 e2 by (simp add: act2) (simp add: twoStreamState_def sampleState_def)
  have gs1: "gsExportUsers oneStreamState = Some []"
    by (simp add: oneStreamState_def sampleState_def)
  have prep1: "prepareCopyShader sampleDecls oneStreamState [] = Inr (?one, [], ?members)"
    by (simp add: prepare_onChip_noUsers oneStreamState_def sampleState_def)
  have act1: "activeStreams oneStreamState = [2]"
    by (simp add: activeStreams_def streams_list oneStreamState_def sampleState_def)
  have ok1: "\<not> (1 < length (activeStreams oneStreamState) \<and> enableXfb oneStreamState)
      \<and> ExportOutput sampleDecls ?one ?members (designatedStream oneStreamState) = Inr []"
    by (simp add: act1 designatedStream_def)
       (simp add: ExportOutput_no_outputs sample_builtInPairs MaxGsStreams_def oneStreamState_def
          sampleState_def)
  from copy_shader_stream_multiplexing[OF gs2 prep2, of ?exports] ok2
  have a: "\<exists>f st'. runOnModule sampleDecls twoStreamState = Inr (Some f, st')
       \<and> entryInsts f = [streamIdExtract sampleDecls]
       \<and> entryTerm f = Switch (InstValue (streamIdExtract sampleDecls)) EndBlock
                          [(0, StreamBlock 0), (2, StreamBlock 2)]
       \<and> streamBlocks f = [(0, [dummyPositionExport], Br EndBlock), (2, [], Br EndBlock)]"
    by (auto simp: act2)
  from copy_shader_stream_multiplexing[OF gs1 prep1, of _ "[]"] ok1
  have b: "\<exists>f st'. runOnModule sampleDecls oneStreamState = Inr (Some f, st')
       \<and> entryInsts f = [] \<and> entryTerm f = Br EndBlock \<and> streamBlocks f = []"
    by auto
  from a b show ?thesis by blast
qed

section \<open>Lookups that find no entry\<close>

lemma collectUser_unmapped:
  assumes "isCallInGsEntryPoint u" "numArgOperands u = 4"
    and "map_of (outputLocMap st) (GsOutLocInfo (operand0 u) False (operand2 u)) = None"
  shows "collectUser st u = Inr st"
  using assms by (simp add: collectUser_def)

lemma ExportGenericOutput_unmapped:
  assumes "enableXfb st"
    and "find (\<lambda>outLoc. snd outLoc = loc \<and> locInfo_streamId (fst outLoc) = streamId) (outputLocMap st) = None"
  shows "ExportGenericOutput st v loc streamId = Inl AssertFailed"
  using assms by (simp add: ExportGenericOutput_def exportGenericXfb_def)

text \<open>
  Claim C9, amended. An export call of the geometry shader whose key is not in the output
  location map is skipped by the scan: nothing is recorded for it, nothing fails, and the
  scan goes on with the next call. When \<open>ExportGenericOutput\<close> runs with transform feedback
  enabled and the output location map has no entry for the location and stream being
  exported, the assertion on the lookup fails.
\<close>

theorem lookup_inconsistency_handling:
  "(isCallInGsEntryPoint u \<and> numArgOperands u = 4
      \<and> map_of (outputLocMap st) (GsOutLocInfo (operand0 u) False (operand2 u)) = None
      \<longrightarrow> collectUser st u = Inr st \<and> CollectGsGenericOutputInfo st (u # us) = CollectGsGenericOutputInfo st us)
   \<and> (enableXfb st
      \<and> find (\<lambda>outLoc. snd outLoc = loc \<and> locInfo_streamId (fst outLoc) = streamId) (outputLocMap st) = None
      \<longrightarrow> ExportGenericOutput st v loc streamId = Inl AssertFailed)"
  using collectUser_unmapped ExportGenericOutput_unmapped by simp

theorem lookup_inconsistency_handling_witness:
  "collectUser sampleState (sampleUser FloatTy) = Inr sampleState
   \<and> ExportGenericOutput xfbNoMapState (UndefValue (VectorTy FloatTy 1)) 1 0 = Inl AssertFailed"
proof -
  have 1: "isCallInGsEntryPoint (sampleUser FloatTy) \<and> numArgOperands (sampleUser FloatTy) = 4
      \<and> map_of (outputLocMap sampleState)
           (GsOutLocInfo (operand0 (sampleUser FloatTy)) False (operand2 (sampleUser FloatTy))) = None"
    by (simp add: sampleUser_def sampleState_def)
  have 2: "enableXfb xfbNoMapState
      \<and> find (\<lambda>outLoc. snd outLoc = 1 \<and> locInfo_streamId (fst outLoc) = 0) (outputLocMap xfbNoMapState) = None"
    by (simp add: xfbNoMapState_def sampleState_def)
  from lookup_inconsistency_handling[where u = "sampleUser FloatTy" and st = sampleState] 1
  have a: "collectUser sampleState (sampleUser FloatTy) = Inr sampleState" by blast
  from lookup_inconsistency_handling[where st = xfbNoMapState and loc = 1 and streamId = 0
         and v = "UndefValue (VectorTy FloatTy 1)"] 2
  have "ExportGenericOutput xfbNoMapState (UndefValue (VectorTy FloatTy 1)) 1 0 = Inl AssertFailed"
    by blast
  with a show ?thesis by simp
qed

lemma LoadGsVsRingBufferDescriptor_split:
  "\<exists>insts desc. LoadGsVsRingBufferDescriptor D = (insts, desc)"
  by (cases "LoadGsVsRingBufferDescriptor D") simp

text \<open>
  Claim C9, as stated, fails: here the geometry shader exports a location whose key is
  absent from the output location map, the scan leaves the state as it was, and the
  generation of the copy shader succeeds.
\<close>

theorem unmapped_export_is_skipped:
  "map_of (outputLocMap unmappedExportState) (GsOutLocInfo 5 False 0) = None
   \<and> gsExportUsers unmappedExportState = Some [sampleUser FloatTy]
   \<and> operand0 (sampleUser FloatTy) = 5 \<and> operand2 (sampleUser FloatTy) = 0
   \<and> CollectGsGenericOutputInfo unmappedExportState [sampleUser FloatTy] = Inr unmappedExportState
   \<and> \<not> isl (runOnModule sampleDecls unmappedExportState)"
proof -
  obtain insts desc where d: "LoadGsVsRingBufferDescriptor sampleDecls = (insts, desc)"
    using LoadGsVsRingBufferDescriptor_split by blast
  have scan: "CollectGsGenericOutputInfo unmappedExportState [sampleUser FloatTy] = Inr unmappedExportState"
    by (simp add: collectUser_def unmappedExportState_def sampleState_def sampleUser_def)
  have cnt: "countStreams (unmappedExportState\<lparr>copyShaderStreamOutTable := 3, copyShaderEsGsLdsSize := 2\<rparr>) = (0, InvalidValue)"
    by (simp add: countStreams_def streams_list countStream_def unmappedExportState_def sampleState_def)
  have ex: "ExportOutput sampleDecls (unmappedExportState\<lparr>copyShaderStreamOutTable := 3, copyShaderEsGsLdsSize := 2\<rparr>)
          \<lparr>m_pLds = None, m_pGsVsRingBufDesc = Some desc\<rparr> 0 = Inr []"
    by (simp add: ExportOutput_def MaxGsStreams_def builtInPairs_def unmappedExportState_def sampleState_def)
  have prep: "prepareCopyShader sampleDecls unmappedExportState [sampleUser FloatTy]
      = Inr (unmappedExportState\<lparr>copyShaderStreamOutTable := 3, copyShaderEsGsLdsSize := 2\<rparr>, insts,
             \<lparr>m_pLds = None, m_pGsVsRingBufDesc = Some desc\<rparr>)"
    unfolding prepareCopyShader_def scan
    by (simp add: d unmappedExportState_def sampleState_def)
  have "\<not> isl (runOnModule sampleDecls unmappedExportState)"
    unfolding runOnModule_def
    by (simp add: prep cnt ex unmappedExportState_def[THEN arg_cong[where f=gsExportUsers]] sampleState_def)
  with scan show ?thesis
    by (simp add: unmappedExportState_def sampleState_def sampleUser_def)
qed

section \<open>Properties of the export sequence of a stream\<close>

lemma dummy_cases [simp]:
  "InstValue i \<noteq> dummyPosition" "UndefValue t \<noteq> dummyPosition" "ConstantInt32 w \<noteq> dummyPosition"
  "ConstantInt64 w' \<noteq> dummyPosition" "Argument n t \<noteq> dummyPosition"
  "dummyPosition \<noteq> InstValue i" "dummyPosition \<noteq> UndefValue t" "dummyPosition \<noteq> ConstantInt32 w"
  "dummyPosition \<noteq> ConstantInt64 w'" "dummyPosition \<noteq> Argument n t"
  by (simp_all add: dummyPosition_def)

lemma emit_simps [simp]:
  "fst (emit opc t args) = [Instruction opc t args []]"
  "snd (emit opc t args) = InstValue (Instruction opc t args [])"
  by (simp_all add: emit_def)

lemma CreateCast_noDummy:
  assumes "CreateCast opc v t = (js, v')" "opc = BitCastOp \<or> opc = TruncOp" "v \<noteq> dummyPosition"
  shows "(\<forall>i \<in> set js. \<not> exportsDummyPosition i) \<and> v' \<noteq> dummyPosition"
  using assms by (auto simp: CreateCast_def emit_def split: if_splits llvm_value.splits)

lemma Calc_noDummy:
  assumes "CalcGsVsRingOffsetForInput D st loc c s = (js, v)"
  shows "(\<forall>i \<in> set js. \<not> exportsDummyPosition i) \<and> v \<noteq> dummyPosition"
  using assms by (auto simp: CalcGsVsRingOffsetForInput_def emit_def Let_def split: if_splits)

lemma loadRingElem_noDummy:
  assumes "(\<forall>i \<in> set (fst acc). \<not> exportsDummyPosition i) \<and> snd acc \<noteq> dummyPosition"
  shows "(\<forall>i \<in> set (fst (loadRingElem D st desc lt et loc s k acc)). \<not> exportsDummyPosition i)
         \<and> snd (loadRingElem D st desc lt et loc s k acc) \<noteq> dummyPosition"
proof -
  obtain js v where acc: "acc = (js, v)" by (cases acc)
  obtain i1 off where c: "CalcGsVsRingOffsetForInput D st (loc + of_nat k div 4) (of_nat k mod 4) s = (i1, off)"
    by (cases "CalcGsVsRingOffsetForInput D st (loc + of_nat k div 4) (of_nat k mod 4) s")
  from Calc_noDummy[OF c] assms show ?thesis
    by (cases lt) (auto simp: loadRingElem_def acc c emit_def Let_def)
qed

lemma fold_loadRingElem_noDummy:
  assumes "(\<forall>i \<in> set (fst acc). \<not> exportsDummyPosition i) \<and> snd acc \<noteq> dummyPosition"
  shows "(\<forall>i \<in> set (fst (fold (loadRingElem D st desc lt et loc s) ks acc)). \<not> exportsDummyPosition i)
         \<and> snd (fold (loadRingElem D st desc lt et loc s) ks acc) \<noteq> dummyPosition"
  using assms
proof (induction ks arbitrary: acc)
  case Nil
  then show ?case by simp
next
  case (Cons k ks)
  from Cons.IH[OF loadRingElem_noDummy[OF Cons.prems, of D st desc lt et loc s k]]
  show ?case by simp
qed

lemma Load_noDummy:
  assumes "LoadValueFromGsVsRing D st this lt loc s = Inr (js, v)"
  shows "(\<forall>i \<in> set js. \<not> exportsDummyPosition i) \<and> v \<noteq> dummyPosition"
proof -
  define ec where "ec = (case lt of ArrayTy e n \<Rightarrow> n | VectorTy e n \<Rightarrow> n | _ \<Rightarrow> 1)"
  define et where "et = (case lt of ArrayTy e n \<Rightarrow> e | VectorTy e n \<Rightarrow> e | _ \<Rightarrow> lt)"
  have split: "(case lt of ArrayTy e n \<Rightarrow> (n, e) | VectorTy e n \<Rightarrow> (n, e) | _ \<Rightarrow> (1, lt)) = (ec, et)"
    unfolding ec_def et_def by (cases lt) simp_all
  show ?thesis
  proof (cases "enableNgg st")
    case True
    with assms show ?thesis
      by (auto simp: LoadValueFromGsVsRing_def split emit_def split: if_splits)
  next
    case ngg: False
    show ?thesis
    proof (cases "isGsOnChip st")
      case True
      from assms ngg True obtain lds where lds: "m_pLds this = Some lds"
        by (auto simp: LoadValueFromGsVsRing_def split split: if_splits option.splits)
      obtain i1 off where c: "CalcGsVsRingOffsetForInput D st loc 0 s = (i1, off)"
        by (cases "CalcGsVsRingOffsetForInput D st loc 0 s")
      obtain i3 p3 where b: "CreateCast BitCastOp
            (InstValue (Instruction GetElementPtrOp (PointerTy (IntegerTy 32) (ldsAddrSpace st))
               [lds, ConstantInt32 0, off] []))
            (PointerTy lt (ldsAddrSpace st)) = (i3, p3)"
        by (cases "CreateCast BitCastOp
            (InstValue (Instruction GetElementPtrOp (PointerTy (IntegerTy 32) (ldsAddrSpace st))
               [lds, ConstantInt32 0, off] []))
            (PointerTy lt (ldsAddrSpace st))")
      from CreateCast_noDummy[OF b] have i3: "\<forall>i \<in> set i3. \<not> exportsDummyPosition i" by simp
      from assms ngg True Calc_noDummy[OF c] i3 show ?thesis
        by (auto simp: LoadValueFromGsVsRing_def split c b lds emit_def Let_def
                 split: if_splits)
    next
      case False
      from assms ngg False obtain desc where
        r: "fold (loadRingElem D st desc lt et loc s) [0..<ec] ([], UndefValue lt) = (js, v)"
        by (auto simp: LoadValueFromGsVsRing_def split split: if_splits option.splits)
      have "(\<forall>i \<in> set (fst ([], UndefValue lt)). \<not> exportsDummyPosition i)
            \<and> snd ([] :: instruction list, UndefValue lt) \<noteq> dummyPosition" by simp
      from fold_loadRingElem_noDummy[OF this, of D st desc lt et loc s "[0..<ec]"] r
      show ?thesis by simp
    qed
  qed
qed

lemma narrow_noDummy:
  assumes "narrowTo16Bit v = Inr (js, v')" "v \<noteq> dummyPosition"
  shows "(\<forall>i \<in> set js. \<not> exportsDummyPosition i) \<and> v' \<noteq> dummyPosition"
proof -
  define n where "n = (case typeOf v of VectorTy _ n \<Rightarrow> n | _ \<Rightarrow> 1)"
  show ?thesis
  proof (cases "n > 1")
    case True
    obtain i1 v1 where 1: "CreateCast BitCastOp v (VectorTy (IntegerTy 32) n) = (i1, v1)"
      by (cases "CreateCast BitCastOp v (VectorTy (IntegerTy 32) n)")
    obtain i2 v2 where 2: "CreateCast TruncOp v1 (VectorTy (IntegerTy 16) n) = (i2, v2)"
      by (cases "CreateCast TruncOp v1 (VectorTy (IntegerTy 16) n)")
    obtain i3 v3 where 3: "CreateCast BitCastOp v2 (VectorTy HalfTy n) = (i3, v3)"
      by (cases "CreateCast BitCastOp v2 (VectorTy HalfTy n)")
    from CreateCast_noDummy[OF 1] assms(2) have a: "(\<forall>i \<in> set i1. \<not> exportsDummyPosition i) \<and> v1 \<noteq> dummyPosition" by simp
    from CreateCast_noDummy[OF 2] a have b: "(\<forall>i \<in> set i2. \<not> exportsDummyPosition i) \<and> v2 \<noteq> dummyPosition" by simp
    from CreateCast_noDummy[OF 3] b have c: "(\<forall>i \<in> set i3. \<not> exportsDummyPosition i) \<and> v3 \<noteq> dummyPosition" by simp
    from assms(1) True a b c show ?thesis
      by (auto simp: narrowTo16Bit_def Let_def n_def[symmetric] 1 2 3 split: if_splits)
  next
    case False
    obtain i1 v1 where 1: "CreateCast BitCastOp v (IntegerTy 32) = (i1, v1)"
      by (cases "CreateCast BitCastOp v (IntegerTy 32)")
    from CreateCast_noDummy[OF 1] assms(2) have a: "(\<forall>i \<in> set i1. \<not> exportsDummyPosition i)" by simp
    from assms(1) False a show ?thesis
      by (auto simp: narrowTo16Bit_def Let_def n_def[symmetric] 1 split: if_splits)
  qed
qed

lemma exportGenericXfb_noDummy:
  assumes "exportGenericXfb st v loc s = Inr (js, v')" "v \<noteq> dummyPosition"
  shows "(\<forall>i \<in> set js. \<not> exportsDummyPosition i) \<and> v' \<noteq> dummyPosition"
proof (cases "find (\<lambda>outLoc. snd outLoc = loc \<and> locInfo_streamId (fst outLoc) = s) (outputLocMap st)")
  case None
  with assms show ?thesis by (simp add: exportGenericXfb_def)
next
  case (Some locIter)
  show ?thesis
  proof (cases "xfbOutsInfo st (fst locIter)")
    case None
    with assms Some show ?thesis by (simp add: exportGenericXfb_def)
  next
    case (Some info)
    note info = this
    show ?thesis
    proof (cases "is16bit info")
      case True
      with assms(1) \<open>find _ _ = Some locIter\<close> info obtain i1 w where
        n: "narrowTo16Bit v = Inr (i1, w)"
        by (auto simp: exportGenericXfb_def split: sum.splits)
      from narrow_noDummy[OF n assms(2)] assms(1) \<open>find _ _ = Some locIter\<close> info True n
      show ?thesis by (auto simp: exportGenericXfb_def emit_def Let_def)
    next
      case False
      with assms \<open>find _ _ = Some locIter\<close> info show ?thesis
        by (auto simp: exportGenericXfb_def emit_def Let_def)
    qed
  qed
qed

lemma ExportGenericOutput_noDummy:
  assumes "ExportGenericOutput st v loc s = Inr js" "v \<noteq> dummyPosition"
  shows "\<forall>i \<in> set js. \<not> exportsDummyPosition i"
proof -
  from assms(1) obtain i1 v' where
    x: "(if enableXfb st then exportGenericXfb st v loc s else Inr ([], v)) = Inr (i1, v')"
    by (auto simp: ExportGenericOutput_def split: sum.splits)
  have a: "(\<forall>i \<in> set i1. \<not> exportsDummyPosition i) \<and> v' \<noteq> dummyPosition"
  proof (cases "enableXfb st")
    case True
    with x exportGenericXfb_noDummy[OF _ assms(2)] show ?thesis by simp
  next
    case False
    with x assms(2) show ?thesis by auto
  qed
  from assms(1) a show ?thesis
    unfolding ExportGenericOutput_def x
    by (auto simp: emit_def Let_def split: if_splits)
qed

lemma ExportBuiltInOutput_dummy:
  "(\<exists>i \<in> set (ExportBuiltInOutput D st v b s). exportsDummyPosition i)
     \<longleftrightarrow> v = dummyPosition \<and> ((enableXfb st \<and> xfbOutsInfo st (GsOutLocInfo (BuiltInKind_value D b) True s) \<noteq> None)
                             \<or> rasterStream st = s)"
  by (cases "xfbOutsInfo st (GsOutLocInfo (BuiltInKind_value D b) True s)")
     (auto simp: ExportBuiltInOutput_def emit_def Let_def)

lemma emitAll_noDummy:
  assumes "emitAll body xs = Inr js"
    and "\<And>x js. x \<in> set xs \<Longrightarrow> body x = Inr js \<Longrightarrow> \<forall>i \<in> set js. \<not> exportsDummyPosition i"
  shows "\<forall>i \<in> set js. \<not> exportsDummyPosition i"
  using assms
proof (induction xs arbitrary: "js")
  case Nil
  then show ?case by simp
next
  case (Cons x xs)
  from Cons.prems(1) obtain i1 i2 where 1: "body x = Inr i1" and 2: "emitAll body xs = Inr i2"
    and js: "js = i1 @ i2"
    by (auto split: sum.splits)
  from Cons.prems(2)[OF _ 1] have a: "\<forall>i \<in> set i1. \<not> exportsDummyPosition i" by simp
  have b: "\<forall>i \<in> set i2. \<not> exportsDummyPosition i"
  proof (rule Cons.IH[OF 2])
    fix y ks assume "y \<in> set xs" "body y = Inr ks"
    then show "\<forall>i \<in> set ks. \<not> exportsDummyPosition i"
      using Cons.prems(2)[of y ks] by simp
  qed
  from a b show ?case unfolding js by auto
qed

lemma exportGenericLocation_noDummy:
  assumes "exportGenericLocation D st this s e = Inr js"
  shows "\<forall>i \<in> set js. \<not> exportsDummyPosition i"
proof -
  from assms obtain lt i1 v i2 where
    l: "LoadValueFromGsVsRing D st this lt (fst e) s = Inr (i1, v)"
    and x: "ExportGenericOutput st v (fst e) s = Inr i2" and js: "js = i1 @ i2"
    by (auto simp: exportGenericLocation_def Let_def split: if_splits sum.splits)
  from Load_noDummy[OF l] ExportGenericOutput_noDummy[OF x] show ?thesis
    unfolding js by auto
qed

lemma exportBuiltInPair_noDummy:
  assumes "exportBuiltInPair D st this s p = Inr js"
  shows "\<forall>i \<in> set js. \<not> exportsDummyPosition i"
proof -
  from assms obtain loc i1 v where
    l: "LoadValueFromGsVsRing D st this (snd p) loc s = Inr (i1, v)"
    and js: "js = i1 @ ExportBuiltInOutput D st v (fst p) s"
    by (auto simp: exportBuiltInPair_def Let_def split: option.splits sum.splits)
  from Load_noDummy[OF l] have a: "(\<forall>i \<in> set i1. \<not> exportsDummyPosition i)" and v: "v \<noteq> dummyPosition"
    by simp_all
  from v have "\<not> (\<exists>i \<in> set (ExportBuiltInOutput D st v (fst p) s). exportsDummyPosition i)"
    unfolding ExportBuiltInOutput_dummy by simp
  with a show ?thesis unfolding js by auto
qed

lemma ExportOutput_dummy_iff:
  assumes "ExportOutput D st this streamId = Inr insts"
  shows "(\<exists>i \<in> set insts. exportsDummyPosition i)
         \<longleftrightarrow> enableXfb st \<and> \<not> position (builtInUsage st)
             \<and> (rasterStream st = streamId
                \<or> xfbOutsInfo st (GsOutLocInfo (BuiltInKind_value D BuiltInPosition) True streamId) \<noteq> None)"
proof -
  from assms obtain g b where
    g: "emitAll (exportGenericLocation D st this streamId) (genericOutByteSizes st (unat streamId)) = Inr g"
    and b: "emitAll (exportBuiltInPair D st this streamId) (builtInPairs st) = Inr b"
    and insts: "insts = g @ b @ (if enableXfb st \<and> position (builtInUsage st) = False
                         then ExportBuiltInOutput D st dummyPosition BuiltInPosition streamId else [])"
    by (auto simp: ExportOutput_def split: if_splits sum.splits)
  have ng: "\<forall>i \<in> set g. \<not> exportsDummyPosition i"
    by (rule emitAll_noDummy[OF g]) (rule exportGenericLocation_noDummy)
  have nb: "\<forall>i \<in> set b. \<not> exportsDummyPosition i"
    by (rule emitAll_noDummy[OF b]) (rule exportBuiltInPair_noDummy)
  show ?thesis
  proof (cases "enableXfb st \<and> position (builtInUsage st) = False")
    case True
    with ng nb ExportBuiltInOutput_dummy[of D st dummyPosition BuiltInPosition streamId]
    show ?thesis unfolding insts by auto
  next
    case False
    with ng nb show ?thesis unfolding insts by auto
  qed
qed

text \<open>
  Claim C6, amended. The export sequence of a stream holds an export of the constant
  position \<open>(0, 0, 0, 1)\<close> exactly when transform feedback is enabled, the built-in usage
  records no position, and the stream is the rasterization stream or a transform feedback
  output is recorded for the position in that stream. In particular there is none when
  transform feedback is disabled.
\<close>

theorem dummy_position_export:
  assumes "ExportOutput D st this streamId = Inr insts"
  shows "(\<exists>i \<in> set insts. exportsDummyPosition i)
         \<longleftrightarrow> enableXfb st \<and> \<not> position (builtInUsage st)
             \<and> (rasterStream st = streamId
                \<or> xfbOutsInfo st (GsOutLocInfo (BuiltInKind_value D BuiltInPosition) True streamId) \<noteq> None)"
  using assms by (rule ExportOutput_dummy_iff)

lemma twoStream_ExportOutput:
  "ExportOutput sampleDecls twoStreamState onChipMembers 0 = Inr [dummyPositionExport]"
  "ExportOutput sampleDecls twoStreamState onChipMembers 2 = Inr []"
  by (simp_all add: ExportOutput_def MaxGsStreams_def builtInPairs_def twoStreamState_def
        sampleState_def ExportBuiltInOutput_def emit_def dummyPositionExport_def sampleDecls_def
        dummyPosition_def)

theorem dummy_position_export_witness:
  "ExportOutput sampleDecls twoStreamState onChipMembers 0 = Inr [dummyPositionExport]
   \<and> exportsDummyPosition dummyPositionExport
   \<and> enableXfb twoStreamState \<and> \<not> position (builtInUsage twoStreamState)"
proof -
  have d: "exportsDummyPosition dummyPositionExport"
    by (simp add: dummyPositionExport_def)
  then have "\<exists>i \<in> set [dummyPositionExport]. exportsDummyPosition i" by simp
  with dummy_position_export[OF twoStream_ExportOutput(1)]
  have "enableXfb twoStreamState \<and> \<not> position (builtInUsage twoStreamState)" by blast
  with d twoStream_ExportOutput(1) show ?thesis by simp
qed

text \<open>
  Claim C6, as stated, fails: transform feedback is enabled and no position is recorded,
  and the export sequence of stream 2, which has outputs and is not the rasterization
  stream, is empty.
\<close>

theorem no_dummy_position_off_raster_stream:
  "enableXfb twoStreamState \<and> \<not> position (builtInUsage twoStreamState)
   \<and> 0 < outLocCount twoStreamState 2
   \<and> ExportOutput sampleDecls twoStreamState onChipMembers 2 = Inr []"
  by (simp add: twoStream_ExportOutput) (simp add: twoStreamState_def sampleState_def)

lemma loadsAndExports_append [simp]:
  "loadsAndExports (a @ b) = loadsAndExports a @ loadsAndExports b"
  by (simp add: loadsAndExports_def)

lemma loadsAndExports_Nil [simp]: "loadsAndExports [] = []"
  by (simp add: loadsAndExports_def)

lemma loadsAndExports_Cons:
  "loadsAndExports (i # rest) = (if classify i = OtherInst then [] else [classify i]) @ loadsAndExports rest"
  by (simp add: loadsAndExports_def)

lemma CreateCast_other:
  assumes "opc = BitCastOp \<or> opc = TruncOp"
  shows "loadsAndExports (fst (CreateCast opc v t)) = []"
  using assms by (auto simp: CreateCast_def emit_def loadsAndExports_Cons split: llvm_value.splits)

lemma Calc_other:
  "loadsAndExports (fst (CalcGsVsRingOffsetForInput D st loc c s)) = []"
  by (simp add: CalcGsVsRingOffsetForInput_def emit_def Let_def loadsAndExports_Cons)

lemma loadRingElem_class:
  "loadsAndExports (fst (loadRingElem D st desc (VectorTy FloatTy n) FloatTy loc s k acc))
     = loadsAndExports (fst acc) @ [RingLoadInst FloatTy]"
proof -
  obtain js v where acc: "acc = (js, v)" by (cases acc)
  obtain i1 off where c: "CalcGsVsRingOffsetForInput D st (loc + of_nat k div 4) (of_nat k mod 4) s = (i1, off)"
    by (cases "CalcGsVsRingOffsetForInput D st (loc + of_nat k div 4) (of_nat k mod 4) s")
  from Calc_other[of D st "loc + of_nat k div 4" "of_nat k mod 4" s] have i1: "loadsAndExports i1 = []"
    by (simp add: c)
  show ?thesis
    by (simp add: loadRingElem_def acc c emit_def Let_def i1 loadsAndExports_Cons)
qed

lemma fold_loadRingElem_class:
  "loadsAndExports (fst (fold (loadRingElem D st desc (VectorTy FloatTy n) FloatTy loc s) ks acc))
     = loadsAndExports (fst acc) @ replicate (length ks) (RingLoadInst FloatTy)"
proof (induction ks arbitrary: acc)
  case Nil
  then show ?case by simp
next
  case (Cons k ks)
  show ?case
    by (simp add: Cons.IH loadRingElem_class replicate_append_same)
qed

lemma Load_class:
  assumes "LoadValueFromGsVsRing D st this (VectorTy FloatTy n) loc s = Inr (js, v)"
  shows "loadsAndExports js =
           (if enableNgg st then [NggImportInst (VectorTy FloatTy n)]
            else if isGsOnChip st then [LoadInst (VectorTy FloatTy n)]
            else replicate n (RingLoadInst FloatTy))"
proof (cases "enableNgg st")
  case True
  with assms show ?thesis
    by (auto simp: LoadValueFromGsVsRing_def emit_def loadsAndExports_Cons)
next
  case ngg: False
  show ?thesis
  proof (cases "isGsOnChip st")
    case True
    from assms ngg True obtain lds where lds: "m_pLds this = Some lds"
      by (auto simp: LoadValueFromGsVsRing_def split: option.splits)
    obtain i1 off where c: "CalcGsVsRingOffsetForInput D st loc 0 s = (i1, off)"
      by (cases "CalcGsVsRingOffsetForInput D st loc 0 s")
    from Calc_other[of D st loc 0 s] have i1: "loadsAndExports i1 = []" by (simp add: c)
    obtain i3 p3 where b: "CreateCast BitCastOp
          (InstValue (Instruction GetElementPtrOp (PointerTy (IntegerTy 32) (ldsAddrSpace st))
             [lds, ConstantInt32 0, off] []))
          (PointerTy (VectorTy FloatTy n) (ldsAddrSpace st)) = (i3, p3)"
      by (cases "CreateCast BitCastOp
          (InstValue (Instruction GetElementPtrOp (PointerTy (IntegerTy 32) (ldsAddrSpace st))
             [lds, ConstantInt32 0, off] []))
          (PointerTy (VectorTy FloatTy n) (ldsAddrSpace st))")
    from CreateCast_other[of BitCastOp] have i3: "loadsAndExports i3 = []"
      by (metis b fst_conv)
    from assms ngg True have "js = i1 @ Instruction GetElementPtrOp (PointerTy (IntegerTy 32) (ldsAddrSpace st))
             [lds, ConstantInt32 0, off] [] # i3 @
             [Instruction (LoadOp (if ldsAlignment st = 0 then None else Some (ldsAlignment st)))
                (VectorTy FloatTy n) [p3] []]"
      by (auto simp: LoadValueFromGsVsRing_def lds c b emit_def Let_def)
    then show ?thesis using ngg True by (simp add: i1 i3 loadsAndExports_Cons)
  next
    case False
    from assms ngg False obtain desc where
      r: "fold (loadRingElem D st desc (VectorTy FloatTy n) FloatTy loc s) [0..<n] ([], UndefValue (VectorTy FloatTy n)) = (js, v)"
      by (auto simp: LoadValueFromGsVsRing_def split: option.splits)
    from fold_loadRingElem_class[of D st desc n loc s "[0..<n]" "([], UndefValue (VectorTy FloatTy n))"] r
    show ?thesis using ngg False by simp
  qed
qed

lemma narrow_other:
  assumes "narrowTo16Bit v = Inr (js, v')"
  shows "loadsAndExports js = []"
proof -
  define n where "n = (case typeOf v of VectorTy _ n \<Rightarrow> n | _ \<Rightarrow> 1)"
  show ?thesis
  proof (cases "n > 1")
    case True
    obtain i1 v1 where 1: "CreateCast BitCastOp v (VectorTy (IntegerTy 32) n) = (i1, v1)"
      by (cases "CreateCast BitCastOp v (VectorTy (IntegerTy 32) n)")
    obtain i2 v2 where 2: "CreateCast TruncOp v1 (VectorTy (IntegerTy 16) n) = (i2, v2)"
      by (cases "CreateCast TruncOp v1 (VectorTy (IntegerTy 16) n)")
    obtain i3 v3 where 3: "CreateCast BitCastOp v2 (VectorTy HalfTy n) = (i3, v3)"
      by (cases "CreateCast BitCastOp v2 (VectorTy HalfTy n)")
    have "loadsAndExports i1 = []" "loadsAndExports i2 = []" "loadsAndExports i3 = []"
      using CreateCast_other[of BitCastOp v "VectorTy (IntegerTy 32) n"]
        CreateCast_other[of TruncOp v1 "VectorTy (IntegerTy 16) n"]
        CreateCast_other[of BitCastOp v2 "VectorTy HalfTy n"]
      by (simp_all add: 1 2 3)
    with assms True show ?thesis
      by (auto simp: narrowTo16Bit_def Let_def n_def[symmetric] 1 2 3 split: if_splits)
  next
    case False
    obtain i1 v1 where 1: "CreateCast BitCastOp v (IntegerTy 32) = (i1, v1)"
      by (cases "CreateCast BitCastOp v (IntegerTy 32)")
    have "loadsAndExports i1 = []"
      using CreateCast_other[of BitCastOp v "IntegerTy 32"] by (simp add: 1)
    with assms False show ?thesis
      by (auto simp: narrowTo16Bit_def Let_def n_def[symmetric] 1 split: if_splits)
  qed
qed

lemma exportGenericXfb_other:
  assumes "exportGenericXfb st v loc s = Inr (js, v')"
  shows "loadsAndExports js = []"
proof (cases "find (\<lambda>outLoc. snd outLoc = loc \<and> locInfo_streamId (fst outLoc) = s) (outputLocMap st)")
  case None
  with assms show ?thesis by (simp add: exportGenericXfb_def)
next
  case (Some locIter)
  note f = this
  show ?thesis
  proof (cases "xfbOutsInfo st (fst locIter)")
    case None
    with assms f show ?thesis by (auto simp: exportGenericXfb_def)
  next
    case (Some info)
    show ?thesis
    proof (cases "is16bit info")
      case True
      with assms f Some obtain i1 w where n: "narrowTo16Bit v = Inr (i1, w)"
        by (auto simp: exportGenericXfb_def split: sum.splits)
      from narrow_other[OF n] assms f Some True n show ?thesis
        by (auto simp: exportGenericXfb_def emit_def Let_def loadsAndExports_Cons)
    next
      case False
      with assms f Some show ?thesis
        by (auto simp: exportGenericXfb_def emit_def Let_def loadsAndExports_Cons)
    qed
  qed
qed

lemma ExportGenericOutput_class:
  assumes "ExportGenericOutput st v loc s = Inr js"
  shows "loadsAndExports js = (if rasterStream st = s then [GenericExportInst loc] else [])"
proof -
  from assms obtain i1 v' where
    x: "(if enableXfb st then exportGenericXfb st v loc s else Inr ([], v)) = Inr (i1, v')"
    by (auto simp: ExportGenericOutput_def split: sum.splits)
  have a: "loadsAndExports i1 = []"
  proof (cases "enableXfb st")
    case True
    with x exportGenericXfb_other show ?thesis by simp
  next
    case False
    with x show ?thesis by auto
  qed
  from assms a show ?thesis
    unfolding ExportGenericOutput_def x
    by (auto simp: emit_def Let_def loadsAndExports_Cons split: if_splits)
qed

lemma exportGenericLocation_class:
  assumes "exportGenericLocation D st this streamId e = Inr insts"
  shows "loadsAndExports insts = locationLoadsAndExports st streamId e"
proof -
  define n where "n = unat ((0 + snd e ! 0 + snd e ! 1 + snd e ! 2 + snd e ! 3) div 4)"
  from assms obtain i1 v i2 where
    l: "LoadValueFromGsVsRing D st this (VectorTy FloatTy n) (fst e) streamId = Inr (i1, v)"
    and x: "ExportGenericOutput st v (fst e) streamId = Inr i2" and insts: "insts = i1 @ i2"
    unfolding n_def
    by (auto simp: exportGenericLocation_def Let_def split: if_splits sum.splits)
  from Load_class[OF l] ExportGenericOutput_class[OF x] show ?thesis
    unfolding insts by (simp add: locationLoadsAndExports_def Let_def n_def)
qed

text \<open>
  Claim C8, amended. The loop over the generic outputs of a stream emits, for every
  location in the byte size map and in the order of the map, the read of the output and
  then its export and nothing else that reads or exports: with \<open>n\<close> the total byte size
  divided by 4, the read is one import call of \<open>n\<close> floats in NGG mode, one load of a vector
  of \<open>n\<close> floats when the geometry shader is on chip, and \<open>n\<close> buffer loads of one float each
  from the ring buffer; the generic export call of the location follows if the stream is
  the rasterization stream, and no generic export call otherwise.
\<close>

theorem generic_output_loads_and_exports:
  assumes "emitAll (exportGenericLocation D st this streamId) entries = Inr insts"
  shows "loadsAndExports insts = concat (map (locationLoadsAndExports st streamId) entries)"
  using assms
proof (induction entries arbitrary: insts)
  case Nil
  then show ?case by simp
next
  case (Cons e entries)
  from Cons.prems obtain i1 i2 where 1: "exportGenericLocation D st this streamId e = Inr i1"
    and 2: "emitAll (exportGenericLocation D st this streamId) entries = Inr i2"
    and insts: "insts = i1 @ i2"
    by (auto split: sum.splits)
  from exportGenericLocation_class[OF 1] Cons.IH[OF 2] show ?case
    unfolding insts by simp
qed

lemma upt_2: "[0..<2] = [0, 1]"
  by (simp add: upt_rec)

theorem generic_output_loads_and_exports_witness:
  "loadsAndExports (emitted (emitAll (exportGenericLocation sampleDecls ringTwoDwordState ringMembers 0)
                               [(1, [8, 0, 0, 0])]))
     = [RingLoadInst FloatTy, RingLoadInst FloatTy, GenericExportInst 1]"
proof -
  have "\<exists>insts. emitAll (exportGenericLocation sampleDecls ringTwoDwordState ringMembers 0)
                   [(1, [8, 0, 0, 0])] = Inr insts"
    by (simp add: ringTwoDwordState_def sampleState_def
        ringMembers_def exportGenericLocation_def LoadValueFromGsVsRing_def upt_2
        loadRingElem_def CalcGsVsRingOffsetForInput_def emit_def ExportGenericOutput_def Let_def)
  then obtain insts where r: "emitAll (exportGenericLocation sampleDecls ringTwoDwordState ringMembers 0)
                   [(1, [8, 0, 0, 0])] = Inr insts" by blast
  have n: "replicate 2 (RingLoadInst FloatTy) = [RingLoadInst FloatTy, RingLoadInst FloatTy]"
    by (simp add: numeral_2_eq_2)
  from generic_output_loads_and_exports[OF r]
  have "loadsAndExports insts = [RingLoadInst FloatTy, RingLoadInst FloatTy, GenericExportInst 1]"
    by (simp add: locationLoadsAndExports_def ringTwoDwordState_def sampleState_def n)
  then show ?thesis unfolding r by (simp add: emitted_def)
qed

text \<open>
  Claim C8, as stated, fails: on the ring buffer the output of 8 bytes at location 1 is
  read by two buffer loads of one float each, not by one load of a vector.
\<close>

theorem ring_location_has_one_load_per_dword:
  "\<not> isl (ExportOutput sampleDecls ringTwoDwordState ringMembers 0)
   \<and> genericOutByteSizes ringTwoDwordState 0 = [(1, [8, 0, 0, 0])]
   \<and> loadsAndExports (emitted (ExportOutput sampleDecls ringTwoDwordState ringMembers 0))
     = [RingLoadInst FloatTy, RingLoadInst FloatTy, GenericExportInst 1]"
  by (simp add: ExportOutput_def MaxGsStreams_def ringTwoDwordState_def sampleState_def
        ringMembers_def exportGenericLocation_def LoadValueFromGsVsRing_def upt_2
        loadRingElem_def CalcGsVsRingOffsetForInput_def emit_def ExportGenericOutput_def
        builtInPairs_def emitted_def loadsAndExports_def Let_def)

section \<open>Transform feedback of 16-bit outputs\<close>

lemmas copyShader_eval_defs =
  ExportOutput_def MaxGsStreams_def sampleState_def
  onChipMembers_def exportGenericLocation_def LoadValueFromGsVsRing_def
  CalcGsVsRingOffsetForInput_def emit_def ExportGenericOutput_def exportGenericXfb_def
  narrowTo16Bit_def CreateCast_def GetFunctionArgument_def
  builtInPairs_def Let_def ExportBuiltInOutput_def sampleDecls_def dummyPosition_def
  emitted_def GsOutLocInfo_def

lemma narrowTo16Bit_vector:
  assumes "typeOf v = VectorTy FloatTy n" "1 < n" "\<forall>t. v \<noteq> UndefValue t"
  shows "narrowTo16Bit v =
           Inr ([Instruction BitCastOp (VectorTy (IntegerTy 32) n) [v] [],
                 Instruction TruncOp (VectorTy (IntegerTy 16) n)
                   [InstValue (Instruction BitCastOp (VectorTy (IntegerTy 32) n) [v] [])] [],
                 Instruction BitCastOp (VectorTy HalfTy n)
                   [InstValue (Instruction TruncOp (VectorTy (IntegerTy 16) n)
                      [InstValue (Instruction BitCastOp (VectorTy (IntegerTy 32) n) [v] [])] [])] []],
                InstValue (Instruction BitCastOp (VectorTy HalfTy n)
                   [InstValue (Instruction TruncOp (VectorTy (IntegerTy 16) n)
                      [InstValue (Instruction BitCastOp (VectorTy (IntegerTy 32) n) [v] [])] [])] []))"
  using assms by (cases v) (simp_all add: narrowTo16Bit_def CreateCast_def emit_def Let_def)

lemma narrowTo16Bit_single:
  assumes "typeOf v = VectorTy FloatTy 1 \<or> typeOf v = FloatTy" "\<forall>t. v \<noteq> UndefValue t"
  shows "narrowTo16Bit v =
           Inr ([Instruction BitCastOp (IntegerTy 32) [v] []],
                InstValue (Instruction BitCastOp HalfTy
                   [InstValue (Instruction TruncOp (IntegerTy 16)
                      [InstValue (Instruction BitCastOp (IntegerTy 32) [v] [])] [])] []))"
  using assms by (cases v) (auto simp add: narrowTo16Bit_def CreateCast_def emit_def Let_def)

lemma exportGenericXfb_32bit:
  assumes "find (\<lambda>outLoc. snd outLoc = loc \<and> locInfo_streamId (fst outLoc) = s) (outputLocMap st) = Some locIter"
    and "xfbOutsInfo st (fst locIter) = Some info" and "\<not> is16bit info"
  shows "exportGenericXfb st v loc s =
           Inr ([Instruction (CallOp (OutputExportXfb [IntegerTy 32, IntegerTy 32, IntegerTy 32, typeOf v]))
                   VoidTy [ConstantInt32 (xfbBuffer info), ConstantInt32 (xfbOffset info),
                           ConstantInt32 (xfbExtraOffset info), v] []], v)"
  using assms by (simp add: exportGenericXfb_def emit_def)

text \<open>
  Claim C5 at an output with one component that is flagged 16-bit: the transform feedback
  export call is emitted with a \<open>half\<close> operand, but no truncation is among the emitted
  instructions, and the operand of the call refers to instructions that are in no block.
  With two components (the lemma after this one) the three casts are emitted before the
  call.
\<close>

theorem xfb16_single_component_casts_not_inserted:
  "\<not> isl (ExportOutput sampleDecls xfb16State onChipMembers 0)
   \<and> CallOp (OutputExportXfb [IntegerTy 32, IntegerTy 32, IntegerTy 32, HalfTy])
       \<in> set (map opcodeOf (emitted (ExportOutput sampleDecls xfb16State onChipMembers 0)))
   \<and> TruncOp \<notin> set (map opcodeOf (emitted (ExportOutput sampleDecls xfb16State onChipMembers 0)))
   \<and> \<not> operandsInserted [] (emitted (ExportOutput sampleDecls xfb16State onChipMembers 0))"
  by (simp add: copyShader_eval_defs xfb16State_def)

lemma xfb16_two_components_casts_inserted:
  "\<not> isl (ExportOutput sampleDecls xfb16VectorState onChipMembers 0)
   \<and> CallOp (OutputExportXfb [IntegerTy 32, IntegerTy 32, IntegerTy 32, VectorTy HalfTy 2])
       \<in> set (map opcodeOf (emitted (ExportOutput sampleDecls xfb16VectorState onChipMembers 0)))
   \<and> TruncOp \<in> set (map opcodeOf (emitted (ExportOutput sampleDecls xfb16VectorState onChipMembers 0)))
   \<and> operandsInserted [] (emitted (ExportOutput sampleDecls xfb16VectorState onChipMembers 0))"
  by (simp add: copyShader_eval_defs xfb16State_def xfb16VectorState_def)

section \<open>The copy shader of a pipeline with no outputs counted in any stream\<close>

text \<open>
  The calls that export to the rasterizer are emitted by \<open>ExportGenericOutput\<close> and
  \<open>ExportBuiltInOutput\<close> only, and only for the rasterization stream: the loads and the
  transform feedback exports hold none.
\<close>

lemma isRasterExport_simps [simp]:
  "isRasterExport (Instruction (CallOp (OutputExportGeneric t)) rt args md)"
  "isRasterExport (Instruction (CallOp (OutputExportBuiltIn b ts)) rt args md)"
  "\<not> isRasterExport (Instruction (CallOp (OutputExportXfb ts)) rt args md)"
  "\<not> isRasterExport (Instruction (CallOp (NggGsOutputImport t)) rt args md)"
  "\<not> isRasterExport (Instruction (IntrinsicOp n) rt args md)"
  "\<not> isRasterExport (Instruction AddOp rt args md)"
  "\<not> isRasterExport (Instruction MulOp rt args md)"
  "\<not> isRasterExport (Instruction BitCastOp rt args md)"
  "\<not> isRasterExport (Instruction TruncOp rt args md)"
  "\<not> isRasterExport (Instruction GetElementPtrOp rt args md)"
  "\<not> isRasterExport (Instruction (LoadOp a) rt args md)"
  "\<not> isRasterExport (Instruction InsertElementOp rt args md)"
  "\<not> isRasterExport (Instruction (InsertValueOp k) rt args md)"
  by (simp_all add: isRasterExport_def)
























section \<open>FetchShader::generate: fetches without a description\<close>

text \<open>
  The index arithmetic of the source is in \<open>unsigned\<close>; when the number of fields of the
  return struct fits in 32 bits it is the arithmetic of the natural numbers.
\<close>

lemma entryRegCount_nowrap:
  assumes "unat (sgprCount r) + unat (vgprCount r) < 2 ^ 32"
  shows "entryRegCount r = unat (sgprCount r) + unat (vgprCount r)"
  using assms unfolding entryRegCount_def
  by (simp add: unat_add_lem[THEN iffD1])

lemma structIdxOf_nowrap:
  assumes "idx + unat (sgprCount r) + unat (vgprCount r) < 2 ^ 32"
  shows "structIdxOf r idx = unat (sgprCount r) + unat (vgprCount r) + idx"
proof -
  from assms have i: "idx < 2 ^ 32" by simp
  then have u: "unat (of_nat idx :: u32) = idx"
    by (simp add: unat_of_nat)
  from assms u have 1: "unat (of_nat idx + sgprCount r) = idx + unat (sgprCount r)"
    by (simp add: unat_add_lem[THEN iffD1])
  from assms 1 have "unat (of_nat idx + sgprCount r + vgprCount r) = idx + unat (sgprCount r) + unat (vgprCount r)"
    by (simp add: unat_add_lem[THEN iffD1])
  then show ?thesis by (simp add: structIdxOf_def)
qed

lemma length_fetchFuncTypes:
  "length (fetchFuncTypes D this)
     = unat (sgprCount (m_vsEntryRegInfo this)) + unat (vgprCount (m_vsEntryRegInfo this))
       + length (m_fetches this)"
  by (simp add: fetchFuncTypes_def)

lemma nth_fetchFuncTypes:
  assumes "j < length (m_fetches this)"
  shows "fetchFuncTypes D this
           ! (unat (sgprCount (m_vsEntryRegInfo this)) + unat (vgprCount (m_vsEntryRegInfo this)) + j)
         = getVgprTy D (ty (m_fetches this ! j))"
  using assms by (simp add: fetchFuncTypes_def nth_append)

text \<open>
  The seeding of the return value in \<open>createFetchFunc\<close> inserts into the fields of the wave
  dispatch registers only: every later field of the seeded value is \<open>undef\<close>.
\<close>

lemma copyInputs_field:
  "copyInputs T E ks acc = Inr (insts, v) \<Longrightarrow> j \<notin> set ks
   \<Longrightarrow> structField v j = structField (snd acc) j
       \<and> (j \<in> set (insertChain v) \<longrightarrow> j \<in> set (insertChain (snd acc)))"
proof (induction ks arbitrary: acc)
  case Nil
  then show ?case by simp
next
  case (Cons k ks)
  from Cons.prems(1) obtain arg where a: "getArg E k = Inr arg"
    and rest: "copyInputs T E ks (fst acc @ [Instruction (InsertValueOp k) T [snd acc, arg] []],
                 InstValue (Instruction (InsertValueOp k) T [snd acc, arg] [])) = Inr (insts, v)"
    by (auto simp: emit_def split: sum.splits)
  from Cons.prems(2) have "j \<notin> set ks" "k \<noteq> j" by auto
  from Cons.IH[OF rest this(1)] this(2) show ?case by simp
qed

lemma createFetchFunc_seed:
  assumes "createFetchFunc D this = Inr f0"
  shows "paramTys f0 = take (entryRegCount (m_vsEntryRegInfo this)) (fetchFuncTypes D this)"
    and "\<exists>initExec. copyInputs (StructTy (fetchFuncTypes D this))
            (take (entryRegCount (m_vsEntryRegInfo this)) (fetchFuncTypes D this))
            [0..<entryRegCount (m_vsEntryRegInfo this)]
            (initExec, UndefValue (StructTy (fetchFuncTypes D this)))
          = Inr (blockInsts f0, retOperand f0)"
  using assms
  by (auto simp: createFetchFunc_def Let_def split: if_splits sum.splits)

lemma seed_field:
  assumes c: "createFetchFunc D this = Inr f0"
    and j: "entryRegCount (m_vsEntryRegInfo this) \<le> j" "j < length (fetchFuncTypes D this)"
  shows "structField (retOperand f0) j = Some (UndefValue (fetchFuncTypes D this ! j))"
    and "j \<notin> set (insertChain (retOperand f0))"
proof -
  from createFetchFunc_seed(2)[OF c] obtain initExec where
    s: "copyInputs (StructTy (fetchFuncTypes D this))
            (take (entryRegCount (m_vsEntryRegInfo this)) (fetchFuncTypes D this))
            [0..<entryRegCount (m_vsEntryRegInfo this)]
            (initExec, UndefValue (StructTy (fetchFuncTypes D this)))
          = Inr (blockInsts f0, retOperand f0)" by blast
  from j have "j \<notin> set [0..<entryRegCount (m_vsEntryRegInfo this)]" by simp
  from copyInputs_field[OF s this] j
  show "structField (retOperand f0) j = Some (UndefValue (fetchFuncTypes D this ! j))"
    and "j \<notin> set (insertChain (retOperand f0))" by simp_all
qed

text \<open>
  The loop over the vertex inputs: an iteration without a description changes nothing, an
  iteration with a description inserts into the field of its own fetch.
\<close>

lemma fetchInput_unbound:
  "\<not> isBound x \<Longrightarrow> fetchInput D mem this types res x = Inr ([], res)"
  by (simp add: fetchInput_def isBound_def Let_def)

lemma fetchInput_bound:
  assumes "fetchInput D mem this types res x = Inr (insts, res')" "snd (snd x) = Some p"
  shows "res' = InstValue (Instruction (InsertValueOp (structIdxOf (m_vsEntryRegInfo this) (fst x)))
                   (StructTy types)
                   [res, snd (CreateCast BitCastOp
                           (snd (fetchVertex D (ty (fst (snd x))) (mem p)
                                   (location (fst (snd x))) (component (fst (snd x)))))
                           (types ! structIdxOf (m_vsEntryRegInfo this) (fst x)))] [])"
  using assms
  by (auto simp: fetchInput_def Let_def emit_def split: if_splits prod.splits)

lemma fetchInputs_skip_unbound:
  "fetchInputs D mem this types xs acc = fetchInputs D mem this types (filter isBound xs) acc"
proof (induction xs arbitrary: acc)
  case Nil
  then show ?case by simp
next
  case (Cons x xs)
  show ?case
  proof (cases "isBound x")
    case True
    then show ?thesis by (simp add: Cons.IH split: sum.splits)
  next
    case False
    then show ?thesis by (simp add: fetchInput_unbound Cons.IH)
  qed
qed

lemma fetchInputs_frame:
  "fetchInputs D mem this types xs acc = Inr (insts, res)
   \<Longrightarrow> \<forall>x \<in> set xs. isBound x \<longrightarrow> structIdxOf (m_vsEntryRegInfo this) (fst x) \<noteq> j
   \<Longrightarrow> structField res j = structField (snd acc) j
       \<and> (j \<in> set (insertChain res) \<longrightarrow> j \<in> set (insertChain (snd acc)))"
proof (induction xs arbitrary: acc)
  case Nil
  then show ?case by simp
next
  case (Cons x xs)
  from Cons.prems(1) obtain i1 r1 where
    1: "fetchInput D mem this types (snd acc) x = Inr (i1, r1)"
    and 2: "fetchInputs D mem this types xs (fst acc @ i1, r1) = Inr (insts, res)"
    by (auto split: sum.splits)
  from Cons.prems(2) have xs: "\<forall>x \<in> set xs. isBound x \<longrightarrow> structIdxOf (m_vsEntryRegInfo this) (fst x) \<noteq> j"
    by simp
  have step: "structField r1 j = structField (snd acc) j
       \<and> (j \<in> set (insertChain r1) \<longrightarrow> j \<in> set (insertChain (snd acc)))"
  proof (cases "snd (snd x)")
    case None
    then have "\<not> isBound x" by (simp add: isBound_def)
    with 1 show ?thesis by (simp add: fetchInput_unbound)
  next
    case (Some p)
    then have "isBound x" by (simp add: isBound_def)
    with Cons.prems(2) have ne: "structIdxOf (m_vsEntryRegInfo this) (fst x) \<noteq> j" by simp
    from fetchInput_bound[OF 1 Some] ne show ?thesis by simp
  qed
  from Cons.IH[OF 2 xs] step show ?case by simp
qed

lemma fetchInputs_append:
  "fetchInputs D mem this types (xs @ ys) acc =
     (case fetchInputs D mem this types xs acc of
        Inl e \<Rightarrow> Inl e
      | Inr acc' \<Rightarrow> fetchInputs D mem this types ys acc')"
  by (induction xs arbitrary: acc) (auto split: sum.splits)

lemma fetchInputs_write:
  assumes run: "fetchInputs D mem this types (pre @ x # post) acc = Inr (insts, res)"
    and x: "snd (snd x) = Some p"
    and post: "\<forall>y \<in> set post. isBound y \<longrightarrow>
                 structIdxOf (m_vsEntryRegInfo this) (fst y) \<noteq> structIdxOf (m_vsEntryRegInfo this) (fst x)"
  shows "structField res (structIdxOf (m_vsEntryRegInfo this) (fst x))
           = Some (snd (CreateCast BitCastOp
                      (snd (fetchVertex D (ty (fst (snd x))) (mem p)
                              (location (fst (snd x))) (component (fst (snd x)))))
                      (types ! structIdxOf (m_vsEntryRegInfo this) (fst x))))"
proof -
  from run obtain a1 where 1: "fetchInputs D mem this types pre acc = Inr a1"
    and 2: "fetchInputs D mem this types (x # post) a1 = Inr (insts, res)"
    by (auto simp: fetchInputs_append split: sum.splits)
  from 2 obtain i1 r1 where 3: "fetchInput D mem this types (snd a1) x = Inr (i1, r1)"
    and 4: "fetchInputs D mem this types post (fst a1 @ i1, r1) = Inr (insts, res)"
    by (auto split: sum.splits)
  from fetchInputs_frame[OF 4 post] fetchInput_bound[OF 3 x] show ?thesis by simp
qed

text \<open>
  Replacing the placeholder calls keeps the chain of \<open>insertvalue\<close> instructions: the calls
  that are replaced are not insertions.
\<close>

lemma resolve_structField:
  assumes \<sigma>: "\<And>i. \<sigma> i \<noteq> None \<Longrightarrow> isPlaceholder i"
  shows "structField v j = Some w \<Longrightarrow> structField (resolveValue \<sigma> v) j = Some (resolveValue \<sigma> w)"
proof (induction v j rule: structField.induct)
  case (1 i t agg u md j)
  have "\<not> isPlaceholder (Instruction (InsertValueOp i) t [agg, u] md)"
    by (simp add: isPlaceholder_def)
  with \<sigma> have n: "\<sigma> (Instruction (InsertValueOp i) t [agg, u] md) = None" by blast
  from 1 show ?case by (auto simp: n split: if_splits)
next
  case (2 tys j)
  then show ?case by (auto split: if_splits)
qed simp_all

lemma resolve_insertChain:
  assumes \<sigma>: "\<And>i. \<sigma> i \<noteq> None \<Longrightarrow> isPlaceholder i"
  shows "structField v j \<noteq> None \<Longrightarrow> j \<notin> set (insertChain v) \<Longrightarrow> j \<notin> set (insertChain (resolveValue \<sigma> v))"
proof (induction v j rule: structField.induct)
  case (1 i t agg u md j)
  have "\<not> isPlaceholder (Instruction (InsertValueOp i) t [agg, u] md)"
    by (simp add: isPlaceholder_def)
  with \<sigma> have n: "\<sigma> (Instruction (InsertValueOp i) t [agg, u] md) = None" by blast
  from 1 show ?case by (auto simp: n split: if_splits)
next
  case (2 tys j)
  then show ?case by simp
qed simp_all

lemma placeholderReplacement_only:
  "placeholderReplacement D r E i \<noteq> None \<Longrightarrow> isPlaceholder i"
  by (simp add: placeholderReplacement_def split: if_splits)

text \<open>The list that the loop runs through.\<close>

lemma length_indexedFetches:
  "length (m_fetchDescriptions this) = length (m_fetches this)
   \<Longrightarrow> length (indexedFetches this) = length (m_fetches this)"
  by (simp add: indexedFetches_def)

lemma nth_indexedFetches:
  "length (m_fetchDescriptions this) = length (m_fetches this) \<Longrightarrow> k < length (m_fetches this)
   \<Longrightarrow> indexedFetches this ! k = (k, m_fetches this ! k, m_fetchDescriptions this ! k)"
  by (simp add: indexedFetches_def)

lemma indexedFetches_mem:
  assumes len: "length (m_fetchDescriptions this) = length (m_fetches this)"
    and x: "x \<in> set (indexedFetches this)"
  shows "fst x < length (m_fetches this) \<and> snd (snd x) = m_fetchDescriptions this ! fst x"
proof -
  from x obtain k where k: "k < length (indexedFetches this)" and xk: "indexedFetches this ! k = x"
    by (auto simp: in_set_conv_nth)
  from k len have "k < length (m_fetches this)" by (simp add: length_indexedFetches)
  with nth_indexedFetches[OF len this] xk show ?thesis by auto
qed

lemma indexedFetches_later:
  assumes len: "length (m_fetchDescriptions this) = length (m_fetches this)"
    and y: "y \<in> set (drop (Suc j) (indexedFetches this))"
  shows "j < fst y \<and> fst y < length (m_fetches this)"
proof -
  from y obtain i where i: "i < length (drop (Suc j) (indexedFetches this))"
    and yi: "drop (Suc j) (indexedFetches this) ! i = y"
    by (auto simp: in_set_conv_nth)
  from i len have k: "Suc j + i < length (m_fetches this)" by (simp add: length_indexedFetches)
  from i yi have "y = indexedFetches this ! (Suc j + i)" by simp
  with nth_indexedFetches[OF len k] k show ?thesis by simp
qed

lemma fetchAndHookUp_skip_unbound:
  "fetchAndHookUp D mem this f0 (filter isBound xs) = fetchAndHookUp D mem this f0 xs"
  unfolding fetchAndHookUp_def by (simp only: fetchInputs_skip_unbound[symmetric])

lemma fetched_fields:
  assumes c: "createFetchFunc D this = Inr f0"
    and len: "length (m_fetchDescriptions this) = length (m_fetches this)"
    and run: "fetchInputs D mem this (fetchFuncTypes D this) (indexedFetches this)
                (blockInsts f0, retOperand f0) = Inr (insts, res)"
    and nowrap: "unat (sgprCount (m_vsEntryRegInfo this)) + unat (vgprCount (m_vsEntryRegInfo this))
                   + length (m_fetches this) < 2 ^ 32"
    and j: "j < length (m_fetches this)"
  shows "structField res (unat (sgprCount (m_vsEntryRegInfo this)) + unat (vgprCount (m_vsEntryRegInfo this)) + j)
           = Some (case m_fetchDescriptions this ! j of
                     None \<Rightarrow> UndefValue (getVgprTy D (ty (m_fetches this ! j)))
                   | Some p \<Rightarrow> fetchedValue D mem (m_fetches this ! j) p)"
    and "m_fetchDescriptions this ! j = None
         \<Longrightarrow> unat (sgprCount (m_vsEntryRegInfo this)) + unat (vgprCount (m_vsEntryRegInfo this)) + j
               \<notin> set (insertChain res)"
proof -
  let ?r = "m_vsEntryRegInfo this"
  let ?base = "unat (sgprCount ?r) + unat (vgprCount ?r)"
  let ?types = "fetchFuncTypes D this"
  have idx: "structIdxOf ?r k = ?base + k" if "k < length (m_fetches this)" for k
    using that nowrap by (intro structIdxOf_nowrap) simp
  from nowrap have erc: "entryRegCount ?r = ?base"
    by (intro entryRegCount_nowrap) simp
  from j have inrange: "entryRegCount ?r \<le> ?base + j" "?base + j < length ?types"
    by (simp_all add: erc length_fetchFuncTypes)
  note seed = seed_field[OF c inrange]
  have ty: "?types ! (?base + j) = getVgprTy D (ty (m_fetches this ! j))"
    using j by (rule nth_fetchFuncTypes)
  have unbound_case: "structField res (?base + j) = Some (UndefValue (getVgprTy D (ty (m_fetches this ! j))))
        \<and> ?base + j \<notin> set (insertChain res)"
    if none: "m_fetchDescriptions this ! j = None"
  proof -
    have "\<forall>x \<in> set (indexedFetches this). isBound x \<longrightarrow> structIdxOf ?r (fst x) \<noteq> ?base + j"
    proof (intro ballI impI)
      fix x assume x: "x \<in> set (indexedFetches this)" and b: "isBound x"
      from indexedFetches_mem[OF len x] have k: "fst x < length (m_fetches this)"
        and d: "snd (snd x) = m_fetchDescriptions this ! fst x" by simp_all
      from b d none have "fst x \<noteq> j" by (auto simp: isBound_def)
      with idx[OF k] show "structIdxOf ?r (fst x) \<noteq> ?base + j" by simp
    qed
    from fetchInputs_frame[OF run this] seed ty show ?thesis by simp
  qed
  show "structField res (?base + j)
           = Some (case m_fetchDescriptions this ! j of
                     None \<Rightarrow> UndefValue (getVgprTy D (ty (m_fetches this ! j)))
                   | Some p \<Rightarrow> fetchedValue D mem (m_fetches this ! j) p)"
  proof (cases "m_fetchDescriptions this ! j")
    case None
    with unbound_case show ?thesis by simp
  next
    case (Some p)
    let ?x = "(j, m_fetches this ! j, m_fetchDescriptions this ! j)"
    from j len have jl: "j < length (indexedFetches this)" by (simp add: length_indexedFetches)
    have split: "indexedFetches this = take j (indexedFetches this) @ ?x # drop (Suc j) (indexedFetches this)"
      using id_take_nth_drop[OF jl] nth_indexedFetches[OF len j] by simp
    have post: "\<forall>y \<in> set (drop (Suc j) (indexedFetches this)). isBound y \<longrightarrow>
                 structIdxOf ?r (fst y) \<noteq> structIdxOf ?r (fst ?x)"
    proof (intro ballI impI)
      fix y assume y: "y \<in> set (drop (Suc j) (indexedFetches this))"
      from indexedFetches_later[OF len y] have "j < fst y" "fst y < length (m_fetches this)" by simp_all
      with idx[of "fst y"] idx[OF j] show "structIdxOf ?r (fst y) \<noteq> structIdxOf ?r (fst ?x)" by simp
    qed
    from run split have run': "fetchInputs D mem this ?types
           (take j (indexedFetches this) @ ?x # drop (Suc j) (indexedFetches this))
           (blockInsts f0, retOperand f0) = Inr (insts, res)" by simp
    have xp: "snd (snd ?x) = Some p" using Some by simp
    from fetchInputs_write[OF run' xp post] show ?thesis
      by (simp add: idx[OF j] ty Some fetchedValue_def)
  qed
  show "m_fetchDescriptions this ! j = None \<Longrightarrow> ?base + j \<notin> set (insertChain res)"
    using unbound_case by simp
qed

text \<open>The concrete fetch shader is generated without an error.\<close>

lemmas sampleFetchShader_defs =
  sampleFetchShader_def FetchShader_ctor_def samplePipelineA_def sampleFetches_def
  sampleRegInfo_def sampleFetchDecls_def sampleFetchVertex_def sampleDescription_def

lemma replicate_2: "replicate 2 x = [x, x]"
  by (simp add: numeral_2_eq_2)

lemma upt_6: "[0..<6] = [0, 1, 2, 3, 4, 5]"
  by (simp add: upt_rec)

lemma upt_4: "[0..<4] = [0, 1, 2, 3]"
  by (simp add: upt_rec)

lemma sample_generate_returns:
  "\<exists>f. generate sampleFetchDecls (memory samplePipelineA) sampleFetchShader = Inr f"
  by (simp add: generate_def createFetchFunc_def fetchAndHookUp_def indexedFetches_def
        sampleFetchShader_defs fetchFuncTypes_def entryRegCount_def structIdxOf_def
        AMDGPU_GS_def AMDGPU_HS_def getArg_def emit_def CreateCast_def fetchInput_def
        isPlaceholder_def replacementOf_def placeholderReplacement_def
        upt_6 upt_4 upt_2 replicate_4 replicate_2 Let_def)

text \<open>
  Claim C7. Let \<open>generate\<close> return a function for a fetch shader whose return struct has
  fewer than \<open>2 ^ 32\<close> fields, and let the fetch with index \<open>idx\<close> have no vertex input
  description. Then the field of this fetch in the seeded return value of \<open>createFetchFunc\<close>
  is \<open>undef\<close> of the VGPR type of the fetch, and the field of the returned value is the
  same \<open>undef\<close>; no \<open>insertvalue\<close> of the returned value writes the field; the generated
  function is the one that the loop over the bound fetches alone produces, so no code is
  emitted for the fetch; and the field of every other fetch is \<open>undef\<close> when that fetch is
  unbound too, and otherwise the fetched vertex of that fetch, cast to its VGPR type, with
  the placeholder calls replaced.
\<close>

theorem unbound_fetch_field_untouched:
  assumes gen: "generate D mem this = Inr f"
    and nowrap: "unat (sgprCount (m_vsEntryRegInfo this)) + unat (vgprCount (m_vsEntryRegInfo this))
                   + length (m_fetches this) < 2 ^ 32"
    and idx: "idx < length (m_fetches this)"
    and unbound: "m_fetchDescriptions this ! idx = None"
  shows "\<exists>f0. createFetchFunc D this = Inr f0
           \<and> structField (retOperand f0)
                 (unat (sgprCount (m_vsEntryRegInfo this)) + unat (vgprCount (m_vsEntryRegInfo this)) + idx)
               = Some (UndefValue (getVgprTy D (ty (m_fetches this ! idx))))
           \<and> structField (retOperand f)
                 (unat (sgprCount (m_vsEntryRegInfo this)) + unat (vgprCount (m_vsEntryRegInfo this)) + idx)
               = Some (UndefValue (getVgprTy D (ty (m_fetches this ! idx))))
           \<and> unat (sgprCount (m_vsEntryRegInfo this)) + unat (vgprCount (m_vsEntryRegInfo this)) + idx
               \<notin> set (insertChain (retOperand f))
           \<and> fetchAndHookUp D mem this f0 (filter isBound (indexedFetches this)) = Inr f
           \<and> (\<forall>j. j < length (m_fetches this) \<and> j \<noteq> idx \<longrightarrow>
                 structField (retOperand f)
                   (unat (sgprCount (m_vsEntryRegInfo this)) + unat (vgprCount (m_vsEntryRegInfo this)) + j)
                 = Some (case m_fetchDescriptions this ! j of
                           None \<Rightarrow> UndefValue (getVgprTy D (ty (m_fetches this ! j)))
                         | Some p \<Rightarrow>
                             resolveValue (placeholderReplacement D (m_vsEntryRegInfo this) (paramTys f0))
                               (fetchedValue D mem (m_fetches this ! j) p)))"
proof -
  let ?r = "m_vsEntryRegInfo this"
  let ?base = "unat (sgprCount ?r) + unat (vgprCount ?r)"
  from gen obtain f0 where c: "createFetchFunc D this = Inr f0"
    and len: "length (m_fetchDescriptions this) = length (m_fetches this)"
    and hook: "fetchAndHookUp D mem this f0 (indexedFetches this) = Inr f"
    by (auto simp: generate_def split: sum.splits if_splits)
  let ?\<sigma> = "placeholderReplacement D ?r (paramTys f0)"
  from hook obtain insts res where
    run: "fetchInputs D mem this (fetchFuncTypes D this) (indexedFetches this)
            (blockInsts f0, retOperand f0) = Inr (insts, res)"
    and ret: "retOperand f = resolveValue ?\<sigma> res"
    by (auto simp: fetchAndHookUp_def Let_def split: sum.splits)
  have \<sigma>: "\<And>i. ?\<sigma> i \<noteq> None \<Longrightarrow> isPlaceholder i"
    by (rule placeholderReplacement_only)
  note fields = fetched_fields[OF c len run nowrap]
  from nowrap have erc: "entryRegCount ?r = ?base"
    by (intro entryRegCount_nowrap) simp
  from idx have inrange: "entryRegCount ?r \<le> ?base + idx" "?base + idx < length (fetchFuncTypes D this)"
    by (simp_all add: erc length_fetchFuncTypes)
  have seed: "structField (retOperand f0) (?base + idx)
               = Some (UndefValue (getVgprTy D (ty (m_fetches this ! idx))))"
    using seed_field(1)[OF c inrange] nth_fetchFuncTypes[OF idx, of D] by simp
  have res_idx: "structField res (?base + idx) = Some (UndefValue (getVgprTy D (ty (m_fetches this ! idx))))"
    using fields(1)[OF idx] unbound by simp
  have final_idx: "structField (retOperand f) (?base + idx)
               = Some (UndefValue (getVgprTy D (ty (m_fetches this ! idx))))"
    using resolve_structField[of ?\<sigma>, OF \<sigma> res_idx] by (simp add: ret)
  have chain: "?base + idx \<notin> set (insertChain (retOperand f))"
    unfolding ret
    by (rule resolve_insertChain[of ?\<sigma>, OF \<sigma>]) (simp_all add: res_idx fields(2)[OF idx unbound])
  have skip: "fetchAndHookUp D mem this f0 (filter isBound (indexedFetches this)) = Inr f"
    by (simp add: fetchAndHookUp_skip_unbound hook)
  have others: "structField (retOperand f) (?base + j)
                 = Some (case m_fetchDescriptions this ! j of
                           None \<Rightarrow> UndefValue (getVgprTy D (ty (m_fetches this ! j)))
                         | Some p \<Rightarrow> resolveValue ?\<sigma> (fetchedValue D mem (m_fetches this ! j) p))"
    if "j < length (m_fetches this)" for j
    using resolve_structField[of ?\<sigma>, OF \<sigma> fields(1)[OF that]]
    by (cases "m_fetchDescriptions this ! j") (simp_all add: ret)
  from c seed final_idx chain skip others show ?thesis by blast
qed

theorem unbound_fetch_field_untouched_witness:
  "\<exists>f. generate sampleFetchDecls (memory samplePipelineA) sampleFetchShader = Inr f
        \<and> m_fetchDescriptions sampleFetchShader ! 1 = None
        \<and> structField (retOperand f) 7 = Some (UndefValue FloatTy)
        \<and> 7 \<notin> set (insertChain (retOperand f))
        \<and> structField (retOperand f) 6
            = Some (InstValue
                (Instruction (IntrinsicOp amdgcn_raw_buffer_load) (VectorTy FloatTy 4)
                   [InstValue (Instruction IntToPtrOp (PointerTy (IntegerTy 8) 4)
                                 [Argument 1 (IntegerTy 32), ConstantInt32 0xFFFF] []),
                    InstValue (Instruction BitCastOp (IntegerTy 32) [Argument 4 FloatTy] []),
                    ConstantInt32 0, ConstantInt32 0, ConstantInt32 0] []))"
proof -
  let ?D = sampleFetchDecls and ?S = sampleFetchShader and ?mem = "memory samplePipelineA"
  from sample_generate_returns obtain f where g: "generate ?D ?mem ?S = Inr f" ..
  have nowrap: "unat (sgprCount (m_vsEntryRegInfo ?S)) + unat (vgprCount (m_vsEntryRegInfo ?S))
                  + length (m_fetches ?S) < 2 ^ 32"
    by (simp add: sampleFetchShader_defs)
  have idx: "1 < length (m_fetches ?S)"
    by (simp add: sampleFetchShader_defs)
  have unbound: "m_fetchDescriptions ?S ! 1 = None"
    by (simp add: sampleFetchShader_defs)
  from unbound_fetch_field_untouched[OF g nowrap idx unbound]
  obtain f0 where c: "createFetchFunc ?D ?S = Inr f0"
    and field: "structField (retOperand f)
                  (unat (sgprCount (m_vsEntryRegInfo ?S)) + unat (vgprCount (m_vsEntryRegInfo ?S)) + 1)
                = Some (UndefValue (getVgprTy ?D (ty (m_fetches ?S ! 1))))"
    and chain: "unat (sgprCount (m_vsEntryRegInfo ?S)) + unat (vgprCount (m_vsEntryRegInfo ?S)) + 1
                  \<notin> set (insertChain (retOperand f))"
    and others: "\<forall>j. j < length (m_fetches ?S) \<and> j \<noteq> 1 \<longrightarrow>
                 structField (retOperand f)
                   (unat (sgprCount (m_vsEntryRegInfo ?S)) + unat (vgprCount (m_vsEntryRegInfo ?S)) + j)
                 = Some (case m_fetchDescriptions ?S ! j of
                           None \<Rightarrow> UndefValue (getVgprTy ?D (ty (m_fetches ?S ! j)))
                         | Some p \<Rightarrow>
                             resolveValue (placeholderReplacement ?D (m_vsEntryRegInfo ?S) (paramTys f0))
                               (fetchedValue ?D ?mem (m_fetches ?S ! j) p))"
    by blast
  have params: "paramTys f0 = [IntegerTy 32, IntegerTy 32, IntegerTy 32, IntegerTy 32, FloatTy, FloatTy]"
    unfolding createFetchFunc_seed(1)[OF c]
    by (simp add: sampleFetchShader_defs fetchFuncTypes_def entryRegCount_def replicate_4 replicate_2)
  have f7: "structField (retOperand f) 7 = Some (UndefValue FloatTy)"
    using field by (simp add: sampleFetchShader_defs)
  have c7: "7 \<notin> set (insertChain (retOperand f))"
    using chain by (simp add: sampleFetchShader_defs)
  have "0 < length (m_fetches ?S) \<and> (0::nat) \<noteq> 1" using idx by auto
  from others[rule_format, OF this] have "structField (retOperand f)
                   (unat (sgprCount (m_vsEntryRegInfo ?S)) + unat (vgprCount (m_vsEntryRegInfo ?S)) + 0)
                 = Some (case m_fetchDescriptions ?S ! 0 of
                           None \<Rightarrow> UndefValue (getVgprTy ?D (ty (m_fetches ?S ! 0)))
                         | Some p \<Rightarrow>
                             resolveValue (placeholderReplacement ?D (m_vsEntryRegInfo ?S) (paramTys f0))
                               (fetchedValue ?D ?mem (m_fetches ?S ! 0) p))"
    .
  hence f6: "structField (retOperand f) 6
            = Some (InstValue
                (Instruction (IntrinsicOp amdgcn_raw_buffer_load) (VectorTy FloatTy 4)
                   [InstValue (Instruction IntToPtrOp (PointerTy (IntegerTy 8) 4)
                                 [Argument 1 (IntegerTy 32), ConstantInt32 0xFFFF] []),
                    InstValue (Instruction BitCastOp (IntegerTy 32) [Argument 4 FloatTy] []),
                    ConstantInt32 0, ConstantInt32 0, ConstantInt32 0] []))"
    unfolding params
    by (simp add: sampleFetchShader_defs fetchedValue_def CreateCast_def emit_def
          placeholderReplacement_def isPlaceholder_def replacementOf_def getArg_def Let_def)
  from g unbound f7 c7 f6 show ?thesis by blast
qed

end
